(* ===== verification/Prelude.thy ===== *)
theory Prelude
  imports Complex_Main "HOL-Library.Word" "HOL-Library.Signed_Division"
begin

text \<open>
  Shared ground of the development: the theorem collections, the generic list and option
  lemmas, and the locale of deterministic state machines whose invariants are proved one
  step at a time. The components' own data and operations are in their own theories.
\<close>

section \<open>Collections\<close>

text \<open>
  \<open>keeps\<close> collects the facts "this operation keeps that invariant", \<open>effects\<close> the
  equations that say what an operation does to one part of the state.
\<close>

named_theorems keeps
named_theorems effects

section \<open>Lists\<close>

lemma filter_filter_neq [simp]:
  "filter (\<lambda>x. f x \<noteq> k) (filter (\<lambda>x. f x \<noteq> k) xs) = filter (\<lambda>x. f x \<noteq> k) xs"
  by simp

lemma distinct_map_unique:
  assumes "distinct (map f xs)" "x \<in> set xs" "y \<in> set xs" "f x = f y"
  shows "x = y"
  using assms by (auto simp: distinct_map inj_on_def)

lemma find_Some_unique:
  assumes "distinct (map f xs)" "x \<in> set xs"
  shows "find (\<lambda>y. f y = f x) xs = Some x"
  using assms by (induction xs) (auto simp: image_iff)

lemma find_None_iff_notin: "find (\<lambda>y. f y = k) xs = None \<longleftrightarrow> k \<notin> f ` set xs"
  by (auto simp: find_None_iff)

lemma find_SomeD: "find P xs = Some x \<Longrightarrow> x \<in> set xs \<and> P x"
  by (auto simp: find_Some_iff)

lemma distinct_map_insort:
  "distinct (map f (insort x xs)) \<longleftrightarrow> f x \<notin> f ` set xs \<and> distinct (map f xs)"
  by (induction xs) (auto simp: set_insort_key)

section \<open>State machines driven by a list of events\<close>

text \<open>
  A component whose operations are \<open>step :: 's \<Rightarrow> 'e \<Rightarrow> 's\<close> and whose invariant every step
  keeps. The facts proved here hold for each interpretation.
\<close>

locale machine =
  fixes step :: "'s \<Rightarrow> 'e \<Rightarrow> 's"
    and inv :: "'s \<Rightarrow> bool"
  assumes step_inv: "inv s \<Longrightarrow> inv (step s e)"
begin

lemma run_inv: "inv s \<Longrightarrow> inv (foldl step s es)"
  by (induction es arbitrary: s) (auto intro: step_inv)

lemma prefix_inv: "inv s \<Longrightarrow> inv (foldl step s (take n es))"
  by (rule run_inv)

end

section \<open>Transition systems\<close>

text \<open>
  A system that moves by a relation and keeps an invariant: what every step from a good state
  keeps lasts along every run.
\<close>

locale transitions =
  fixes move :: "'s \<Rightarrow> 's \<Rightarrow> bool"
    and good :: "'s \<Rightarrow> bool"
  assumes move_good: "good s \<Longrightarrow> move s s' \<Longrightarrow> good s'"
begin

lemma run_good: "move\<^sup>*\<^sup>* s s' \<Longrightarrow> good s \<Longrightarrow> good s'"
  by (induction rule: rtranclp_induct) (auto intro: move_good)

lemma stable:
  assumes "move\<^sup>*\<^sup>* s s'" "good s" "P s" "\<And>t t'. good t \<Longrightarrow> P t \<Longrightarrow> move t t' \<Longrightarrow> P t'"
  shows "P s'"
  using assms(1)
proof (induction rule: rtranclp_induct)
  case (step t t')
  with run_good [OF step(1) assms(2)] assms(4) show ?case by blast
qed (rule assms(3))

end

end
