(* ===== verification/Go_Runtime.thy ===== *)
theory Go_Runtime
  imports Prelude
begin

text \<open>
  What the translated Go code uses of its language and standard library: \<open>int64\<close> arithmetic
  with its wrap-around, \<open>time.Time\<close> and \<open>time.Duration\<close>, panics, and the outcome of a call to
  a service (PostgreSQL, Redis, the provider), which can fail before or after it took effect.
\<close>

section \<open>Integers of 64 bits\<close>

text \<open>Go's \<open>int\<close>, \<open>int64\<close> and \<open>time.Duration\<close> are 64 bits wide and wrap around.\<close>

definition int64_range :: "int \<Rightarrow> bool" where
  "int64_range x \<longleftrightarrow> - (2 ^ 63) \<le> x \<and> x < 2 ^ 63"

definition wrap64 :: "int \<Rightarrow> int" where
  "wrap64 x = sint (word_of_int x :: 64 word)"

definition sat64 :: "int \<Rightarrow> int" where
  "sat64 x = (if x < - (2 ^ 63) then - (2 ^ 63) else if x \<ge> 2 ^ 63 then 2 ^ 63 - 1 else x)"

lemma wrap64_id [simp]: "int64_range x \<Longrightarrow> wrap64 x = x"
  by (simp add: wrap64_def int64_range_def sint_sbintrunc' signed_take_bit_int_eq_self)

lemma wrap64_0 [simp]: "wrap64 0 = 0"
  by (simp add: int64_range_def)

lemma wrap64_range [simp]: "int64_range (wrap64 x)"
  using sint_ge [of "word_of_int x :: 64 word"] sint_lt [of "word_of_int x :: 64 word"]
  by (simp add: wrap64_def int64_range_def)

lemma wrap64_mod: "wrap64 x = (x + 2 ^ 63) mod 2 ^ 64 - 2 ^ 63"
  by (simp add: wrap64_def sint_sbintrunc' signed_take_bit_eq_take_bit_shift take_bit_eq_mod)

lemma sat64_id [simp]: "int64_range x \<Longrightarrow> sat64 x = x"
  by (simp add: sat64_def int64_range_def)

lemma sat64_range [simp]: "int64_range (sat64 x)"
  by (simp add: sat64_def int64_range_def)

lemma sat64_gt_iff: "c < 2 ^ 63 - 1 \<Longrightarrow> - (2 ^ 63) \<le> c \<Longrightarrow> sat64 x > c \<longleftrightarrow> x > c"
  by (simp add: sat64_def)

section \<open>Time\<close>

text \<open>
  A \<open>time.Time\<close> is read as its nanoseconds since the Unix epoch in UTC, a
  \<open>time.Duration\<close> as its nanoseconds. \<open>Time.Sub\<close> saturates at the ends of the
  duration's range.
\<close>

type_synonym time = int
type_synonym duration = int

definition zero_time :: time where
  "zero_time = - 62135596800000000000"

definition Second :: duration where
  "Second = 1000000000"

definition time_Sub :: "time \<Rightarrow> time \<Rightarrow> duration" where
  "time_Sub t u = sat64 (t - u)"

definition Milliseconds :: "duration \<Rightarrow> int" where
  "Milliseconds d = d sdiv 1000000"

section \<open>Panics\<close>

text \<open>A nil dereference or a division by zero ends the goroutine.\<close>

datatype 'a go = Ret 'a | Panic

section \<open>Calls to a service\<close>

text \<open>
  A statement of the source that a service executes is a function on the service's state which
  gives its result and the new state, or the service's own error (a violated constraint). The
  call can also fail for reasons outside the program: the connection is lost, the context
  ends. Such a failure is a \<open>fault\<close>, the error the client sees and the number of statements
  that took effect before it: with 0 the statement was never executed, with 1 it was and only
  its answer was lost. The faults are arguments of every operation, so that what is proved
  holds whichever calls fail.
\<close>

type_synonym 'e fault = "('e \<times> nat) option"

definition exec :: "'e fault \<Rightarrow> ('s \<Rightarrow> 'e + ('a \<times> 's)) \<Rightarrow> 's \<Rightarrow> ('e + 'a) \<times> 's" where
  "exec f stmt s =
     (case stmt s of
        Inl e \<Rightarrow> (Inl (case f of None \<Rightarrow> e | Some (e', _) \<Rightarrow> e'), s)
      | Inr (a, s') \<Rightarrow>
          (case f of None \<Rightarrow> (Inr a, s') | Some (e, k) \<Rightarrow> (Inl e, if 0 < k then s' else s)))"

text \<open>A read: nothing to undo, only an answer to lose.\<close>

definition query :: "'e fault \<Rightarrow> 'a \<Rightarrow> 'e + 'a" where
  "query f a = (case f of None \<Rightarrow> Inr a | Some (e, _) \<Rightarrow> Inl e)"

text \<open>A pipeline sends its commands together; a fault can cut it after any of them.\<close>

definition pipeline :: "'e fault \<Rightarrow> ('s \<Rightarrow> 's) list \<Rightarrow> 's \<Rightarrow> 'e option \<times> 's" where
  "pipeline f cs s =
     (case f of
        None \<Rightarrow> (None, fold (\<lambda>c. c) cs s)
      | Some (e, k) \<Rightarrow> (Some e, fold (\<lambda>c. c) (take k cs) s))"

definition err_of :: "'e + 'a \<Rightarrow> 'e option" where
  "err_of r = (case r of Inl e \<Rightarrow> Some e | Inr _ \<Rightarrow> None)"

lemma err_of_simps [simp]: "err_of (Inl e) = Some e" "err_of (Inr a) = None"
  by (simp_all add: err_of_def)

lemma exec_None [simp]:
  "exec None stmt s = (case stmt s of Inl e \<Rightarrow> (Inl e, s) | Inr (a, s') \<Rightarrow> (Inr a, s'))"
  by (auto simp: exec_def split: sum.split prod.split)

lemma query_None [simp]: "query None a = Inr a"
  by (simp add: query_def)

lemma query_Inr: "query f a = Inr b \<Longrightarrow> f = None \<and> b = a"
  by (auto simp: query_def split: option.splits)

text \<open>
  Whatever fails, a statement leaves the state as it was or as the statement makes it, and an
  answer means that it was executed.
\<close>

lemma exec_cases:
  obtains "snd (exec f stmt s) = s"
  | a s' where "stmt s = Inr (a, s')" "snd (exec f stmt s) = s'"
proof (cases "stmt s")
  case (Inl e)
  then have "snd (exec f stmt s) = s"
    by (simp add: exec_def)
  then show ?thesis by (rule that(1))
next
  case (Inr r)
  obtain a s' where r: "r = (a, s')" by (cases r)
  with Inr have "snd (exec f stmt s) = s \<or> snd (exec f stmt s) = s'"
    by (auto simp: exec_def split: option.split)
  with Inr r that show ?thesis by blast
qed

lemma exec_InrD: "exec f stmt s = (Inr a, s') \<Longrightarrow> f = None \<and> stmt s = Inr (a, s')"
  by (auto simp: exec_def split: sum.splits prod.splits option.splits)

lemma exec_keeps:
  assumes "I s" "\<And>a s'. stmt s = Inr (a, s') \<Longrightarrow> I s'"
  shows "I (snd (exec f stmt s))"
  using assms by (cases rule: exec_cases [of f stmt s]) auto

lemma fold_keeps:
  assumes "I s" "\<And>c t. c \<in> set cs \<Longrightarrow> I t \<Longrightarrow> I (c t)"
  shows "I (fold (\<lambda>c. c) cs s)"
  using assms
proof (induction cs arbitrary: s)
  case Nil
  then show ?case by simp
next
  case (Cons c cs)
  from Cons.prems have "I (c s)" by simp
  then have "I (fold (\<lambda>c. c) cs (c s))"
    by (rule Cons.IH) (simp add: Cons.prems(2))
  then show ?case by simp
qed

lemma pipeline_keeps:
  assumes "I s" "\<And>c t. c \<in> set cs \<Longrightarrow> I t \<Longrightarrow> I (c t)"
  shows "I (snd (pipeline f cs s))"
proof (cases f)
  case None
  with assms show ?thesis by (simp add: pipeline_def fold_keeps)
next
  case (Some p)
  obtain e k where p: "p = (e, k)" by (cases p)
  have "I (fold (\<lambda>c. c) (take k cs) s)"
    by (rule fold_keeps [where I = I]) (auto intro: assms dest: in_set_takeD)
  with Some p show ?thesis by (simp add: pipeline_def)
qed

end
