(* ===== verification/Float64.thy ===== *)
theory Float64
  imports Go_Runtime
begin

text \<open>
  Go's \<open>float64\<close> as far as the code uses it: conversion from integers, sums and products,
  each rounded to 53 bits, ties to even, and the conversion back to an integer. The values are
  between \<open>2 powi (- 63)\<close> and \<open>2 powi 64\<close>, or 0, so there are no subnormal numbers and no
  infinities; a \<open>float64\<close> is a rational.
\<close>

section \<open>Rounding\<close>

fun bits :: "nat \<Rightarrow> nat" where
  "bits n = (if n = 0 then 0 else Suc (bits (n div 2)))"

declare bits.simps [simp del]

lemma bits_upper: "n < 2 ^ bits n"
  by (induction n rule: bits.induct) (subst bits.simps, auto)

lemma bits_lower: "0 < n \<Longrightarrow> 2 ^ (bits n - 1) \<le> n"
proof (induction n rule: bits.induct)
  case (1 n)
  then have b: "bits n = Suc (bits (n div 2))" by (subst bits.simps) simp
  show ?case
  proof (cases "n div 2 = 0")
    case True
    with 1 b show ?thesis by (simp add: bits.simps)
  next
    case False
    with 1 have "2 ^ (bits (n div 2) - 1) \<le> n div 2" by simp
    moreover from False have "bits (n div 2) \<noteq> 0" by (subst bits.simps) simp
    then have "(2::nat) ^ bits (n div 2) = 2 * 2 ^ (bits (n div 2) - 1)"
      by (cases "bits (n div 2)") auto
    ultimately show ?thesis using b by simp
  qed
qed

text \<open>The exponent of the leading bit of a positive number.\<close>

definition ilog2 :: "rat \<Rightarrow> int" where
  "ilog2 x =
     (if 1 \<le> x then int (bits (nat \<lfloor>x\<rfloor>)) - 1 else - int (bits (nat (\<lceil>1 / x\<rceil> - 1))))"

text \<open>The same on integers, for evaluation.\<close>

function ibits :: "int \<Rightarrow> int" where
  "ibits n = (if n \<le> 0 then 0 else 1 + ibits (n div 2))"
  by auto

termination by (relation "measure nat") auto

declare ibits.simps [simp del]

lemma ibits_bits: "ibits n = int (bits (nat n))"
proof (induction n rule: ibits.induct)
  case (1 n)
  then show ?case
    by (subst ibits.simps, subst bits.simps) (auto simp: nat_div_distrib)
qed

lemma ilog2_code [code]: "ilog2 x = (if 1 \<le> x then ibits \<lfloor>x\<rfloor> - 1 else - ibits (\<lceil>1 / x\<rceil> - 1))"
  by (simp add: ilog2_def ibits_bits)

lemma ilog2_bounds:
  assumes "0 < x"
  shows "2 powi ilog2 x \<le> x" "x \<le> 2 powi (ilog2 x + 1)"
proof -
  have "2 powi ilog2 x \<le> x \<and> x \<le> 2 powi (ilog2 x + 1)"
  proof (cases "1 \<le> x")
    case True
    let ?n = "nat \<lfloor>x\<rfloor>"
    from True have n: "0 < ?n" "of_nat ?n = (of_int \<lfloor>x\<rfloor> :: rat)"
      by (auto simp: of_nat_nat zero_less_nat_eq)
    then have "bits ?n \<noteq> 0" by (subst bits.simps) simp
    then have e: "ilog2 x = int (bits ?n - 1)" "ilog2 x + 1 = int (bits ?n)"
      using True by (auto simp: ilog2_def)
    have "(2::rat) ^ (bits ?n - 1) \<le> of_nat ?n"
      using bits_lower [OF n(1)] by (metis of_nat_le_iff of_nat_numeral of_nat_power)
    moreover have "of_nat ?n + 1 \<le> (2::rat) ^ bits ?n"
      using bits_upper [of ?n] by (metis Suc_leI of_nat_Suc of_nat_le_iff of_nat_numeral of_nat_power add.commute)
    moreover have "of_nat ?n \<le> x" "x \<le> of_nat ?n + 1"
      using n(2) of_int_floor_le [of x] floor_correct [of x] by (auto simp: less_imp_le)
    ultimately show ?thesis unfolding e(2) unfolding e(1) power_int_of_nat by linarith
  next
    case False
    let ?c = "\<lceil>1 / x\<rceil>"
    let ?n = "nat (?c - 1)"
    from False assms have "1 < 1 / x" by simp
    then have c: "2 \<le> ?c" by (simp add: le_ceiling_iff)
    then have "0 \<le> ?c - 1" by linarith
    then have "of_nat ?n = (of_int (?c - 1) :: rat)" by (rule of_nat_nat)
    with c have n: "0 < ?n" "of_nat ?n = (of_int ?c - 1 :: rat)"
      by (linarith, simp only: of_int_diff of_int_1)
    then have b: "bits ?n \<noteq> 0" by (subst bits.simps) simp
    have e: "ilog2 x = - int (bits ?n)" "ilog2 x + 1 = - int (bits ?n - 1)"
      using False b by (auto simp: ilog2_def)
    have "of_nat ?n + 1 \<le> (2::rat) ^ bits ?n"
      using bits_upper [of ?n] by (metis Suc_leI of_nat_Suc of_nat_le_iff of_nat_numeral of_nat_power add.commute)
    then have up: "1 / x \<le> 2 ^ bits ?n"
      using n(2) le_of_int_ceiling [of "1 / x"] by linarith
    have "(2::rat) ^ (bits ?n - 1) \<le> of_nat ?n"
      using bits_lower [OF n(1)] by (metis of_nat_le_iff of_nat_numeral of_nat_power)
    then have lo: "2 ^ (bits ?n - 1) \<le> 1 / x"
      using n(2) ceiling_correct [of "1 / x"] by linarith
    have "2 powi ilog2 x = (1 / 2 ^ bits ?n :: rat)" "2 powi (ilog2 x + 1) = (1 / 2 ^ (bits ?n - 1) :: rat)"
      unfolding e(2) unfolding e(1) by (simp_all add: power_int_minus divide_inverse)
    moreover have "1 / 2 ^ bits ?n \<le> x" "x \<le> 1 / 2 ^ (bits ?n - 1)"
      using up lo assms by (simp_all add: field_simps)
    ultimately show ?thesis by (simp only:)
  qed
  then show "2 powi ilog2 x \<le> x" "x \<le> 2 powi (ilog2 x + 1)" by auto
qed

definition round_even :: "rat \<Rightarrow> int" where
  "round_even z =
     (let f = \<lfloor>z\<rfloor>; r = z - of_int f
      in if r < 1 / 2 then f else if r > 1 / 2 then f + 1 else if even f then f else f + 1)"

lemma round_even_error: "\<bar>of_int (round_even z) - z\<bar> \<le> 1 / 2"
proof -
  obtain f r where fr: "f = \<lfloor>z\<rfloor>" "r = z - of_int \<lfloor>z\<rfloor>" by blast
  then have z: "z = of_int f + r" "0 \<le> r" "r < 1"
    using floor_correct [of z] by auto
  have "round_even z = (if r < 1 / 2 then f else if r > 1 / 2 then f + 1 else if even f then f else f + 1)"
    by (simp add: round_even_def Let_def fr)
  then show ?thesis unfolding z(1) using z(2,3) by (auto simp: abs_if)
qed

definition fl64 :: "rat \<Rightarrow> rat" where
  "fl64 x =
     (if x = 0 then 0
      else (let e = ilog2 \<bar>x\<bar>
            in of_int (round_even (x * 2 powi (52 - e))) * 2 powi (e - 52)))"

lemma fl64_error: "\<bar>fl64 x - x\<bar> \<le> \<bar>x\<bar> / 2 ^ 53"
proof (cases "x = 0")
  case False
  define e where "e = ilog2 \<bar>x\<bar>"
  define z where "z = x * 2 powi (52 - e)"
  have p: "(2::rat) powi (52 - e) * 2 powi (e - 52) = 1"
    by (simp add: power_int_add [symmetric])
  then have x: "x = z * 2 powi (e - 52)" by (simp add: z_def)
  have f: "fl64 x = of_int (round_even z) * 2 powi (e - 52)"
    using False by (simp add: fl64_def e_def z_def Let_def)
  have "fl64 x - x = (of_int (round_even z) - z) * 2 powi (e - 52)"
    using f x by (metis left_diff_distrib)
  then have "\<bar>fl64 x - x\<bar> = \<bar>of_int (round_even z) - z\<bar> * 2 powi (e - 52)"
    by (simp add: abs_mult)
  also have "\<dots> \<le> 1 / 2 * 2 powi (e - 52)"
    by (rule mult_right_mono [OF round_even_error]) simp
  also have "\<dots> = 2 powi e / 2 ^ 53"
    by (simp add: power_int_diff)
  also have "\<dots> \<le> \<bar>x\<bar> / 2 ^ 53"
    using ilog2_bounds(1) [of "\<bar>x\<bar>"] False by (simp add: e_def divide_right_mono)
  finally show ?thesis .
qed (simp add: fl64_def)

lemma fl64_0 [simp]: "fl64 0 = 0"
  by (simp add: fl64_def)

lemma fl64_lower: "0 \<le> x \<Longrightarrow> x * (1 - 1 / 2 ^ 53) \<le> fl64 x"
  using fl64_error [of x] by (simp add: abs_if algebra_simps split: if_splits)

lemma fl64_upper: "0 \<le> x \<Longrightarrow> fl64 x \<le> x * (1 + 1 / 2 ^ 53)"
  using fl64_error [of x] by (simp add: abs_if algebra_simps split: if_splits)

lemma fl64_nonneg: "0 \<le> x \<Longrightarrow> 0 \<le> fl64 x"
  using fl64_lower [of x] zero_le_mult_iff [of x "1 - 1 / 2 ^ 53"] by simp

section \<open>Conversion to an integer\<close>

text \<open>
  The fraction is dropped; a value beyond the range gives the least integer, as the
  conversion instruction of amd64 does.
\<close>

definition to_int64 :: "rat \<Rightarrow> int" where
  "to_int64 x =
     (let i = (if x < 0 then \<lceil>x\<rceil> else \<lfloor>x\<rfloor>) in if int64_range i then i else - (2 ^ 63))"

lemma to_int64_floor: "0 \<le> x \<Longrightarrow> x < 2 ^ 63 \<Longrightarrow> to_int64 x = \<lfloor>x\<rfloor>"
  using floor_correct [of x]
  by (auto simp: to_int64_def int64_range_def Let_def floor_less_iff)

lemma to_int64_of_int [simp]: "int64_range i \<Longrightarrow> to_int64 (of_int i) = i"
  by (simp add: to_int64_def)

end
