(* ===== verification/Backoff.thy ===== *)
theory Backoff
  imports Float64
begin

text \<open>
  When a failed delivery is tried again: the exponential backoff of \<open>handleRetry\<close> in
  \<open>internal/service/delivery.go\<close>, with its conversions between \<open>float64\<close> and durations.
\<close>

section \<open>The delay\<close>

record DeliveryConfig =
  CMaxRetries :: int
  BaseDelay :: duration
  MaxDelay :: duration

text \<open>
  \<open>math.Pow\<close> of 2 is exact; beyond the range of \<open>float64\<close> it is an infinity, which
  \<open>to_int64\<close> converts like any number out of range. The product is of \<open>int64\<close> and wraps.
\<close>

definition pow2 :: "int \<Rightarrow> rat" where
  "pow2 k = (if 0 \<le> k then 2 ^ nat k else 1 / 2 ^ nat (- k))"

definition backoff_delay :: "DeliveryConfig \<Rightarrow> int \<Rightarrow> duration" where
  "backoff_delay cfg retryCount =
     (let delay = wrap64 (BaseDelay cfg * to_int64 (pow2 (retryCount - 1)))
      in if delay > MaxDelay cfg then MaxDelay cfg else delay)"

text \<open>Jitter of a fifth up or down; \<open>rnd\<close> is what \<open>rand.Float64\<close> gives, in \<open>[0, 1)\<close>.\<close>

definition jitter :: "rat \<Rightarrow> duration \<Rightarrow> duration" where
  "jitter rnd delay =
     to_int64 (fl64 (fl64 (of_int delay) * fl64 (fl64 (4 / 5) + fl64 (rnd * fl64 (2 / 5)))))"

section \<open>Bounds\<close>

lemma to_int64_pow2: "1 \<le> k \<Longrightarrow> k < 64 \<Longrightarrow> to_int64 (pow2 (k - 1)) = 2 ^ nat (k - 1)"
proof -
  assume k: "1 \<le> k" "k < 64"
  then have "nat (k - 1) < 63" by simp
  then have "(2::int) ^ nat (k - 1) < 2 ^ 63" by (rule power_strict_increasing) simp
  then have "int64_range (2 ^ nat (k - 1))"
    by (simp add: int64_range_def order_trans [of _ 0])
  then have "to_int64 (of_int (2 ^ nat (k - 1))) = 2 ^ nat (k - 1)" by (rule to_int64_of_int)
  with k show ?thesis by (simp add: pow2_def)
qed

lemma backoff_delay_exact:
  assumes "1 \<le> k" "1 \<le> BaseDelay cfg" "BaseDelay cfg * 2 ^ nat (k - 1) < 2 ^ 63"
  shows "backoff_delay cfg k = min (BaseDelay cfg * 2 ^ nat (k - 1)) (MaxDelay cfg)"
proof -
  have "(2::int) ^ nat (k - 1) \<le> BaseDelay cfg * 2 ^ nat (k - 1)"
    using assms(2) mult_right_mono [of 1 "BaseDelay cfg" "2 ^ nat (k - 1)"] by simp
  with assms(3) have "(2::int) ^ nat (k - 1) < 2 ^ 63" by linarith
  then have "nat (k - 1) < 63" by (rule power_less_imp_less_exp [rotated]) simp
  then have "k < 64" by simp
  moreover have "0 \<le> BaseDelay cfg * 2 ^ nat (k - 1)" using assms(2) by simp
  then have "int64_range (BaseDelay cfg * 2 ^ nat (k - 1))"
    using assms(3) by (simp add: int64_range_def order_trans [of _ 0])
  ultimately show ?thesis
    using assms(1) by (simp add: backoff_delay_def to_int64_pow2 min_def Let_def)
qed

definition jitter_factor :: "rat \<Rightarrow> rat" where
  "jitter_factor rnd = fl64 (fl64 (4 / 5) + fl64 (rnd * fl64 (2 / 5)))"

definition ulp :: rat where
  "ulp = 1 / 2 ^ 53"

lemma ulp_bounds [simp]: "0 < ulp" "ulp < 1" "0 \<le> ulp" "ulp \<le> 1"
  by (simp_all add: ulp_def)

lemmas fl64_lo = fl64_lower [folded ulp_def]
lemmas fl64_up = fl64_upper [folded ulp_def]

lemma jitter_factor_bounds:
  assumes "0 \<le> rnd" "rnd < 1"
  shows "4 / 5 * (1 - ulp) ^ 2 \<le> jitter_factor rnd" "jitter_factor rnd \<le> 6 / 5 * (1 + ulp) ^ 3"
proof -
  define a where "a = fl64 (4 / 5)"
  have a: "4 / 5 * (1 - ulp) \<le> a" "a \<le> 4 / 5 * (1 + ulp)"
    using fl64_lo [of "4 / 5"] fl64_up [of "4 / 5"] by (simp_all add: a_def)
  define b where "b = fl64 (2 / 5)"
  have b: "0 \<le> b" "b \<le> 2 / 5 * (1 + ulp)"
    using fl64_nonneg [of "2 / 5"] fl64_up [of "2 / 5"] by (simp_all add: b_def)
  define c where "c = fl64 (rnd * b)"
  have rb: "0 \<le> rnd * b" "rnd * b \<le> 2 / 5 * (1 + ulp)"
    using assms b mult_right_mono [of rnd 1 b] by simp_all
  have c0: "0 \<le> c" unfolding c_def by (rule fl64_nonneg) (rule rb(1))
  have "c \<le> rnd * b * (1 + ulp)" unfolding c_def by (rule fl64_up) (rule rb(1))
  also have "\<dots> \<le> 2 / 5 * (1 + ulp) * (1 + ulp)" by (rule mult_right_mono [OF rb(2)]) simp
  finally have c: "c \<le> 2 / 5 * (1 + ulp) * (1 + ulp)" .
  have s1: "4 / 5 * (1 - ulp) \<le> a + c" using a(1) c0 by simp
  have "1 * (1 + ulp) \<le> (1 + ulp) * (1 + ulp)" by (rule mult_right_mono) simp_all
  then have s2: "a + c \<le> 6 / 5 * (1 + ulp) ^ 2"
    using a(2) c unfolding power2_eq_square by linarith
  have s0: "0 \<le> a + c" by (rule order_trans [OF _ s1]) simp
  have t: "jitter_factor rnd = fl64 (a + c)" by (simp add: jitter_factor_def a_def b_def c_def)
  have "4 / 5 * (1 - ulp) ^ 2 = 4 / 5 * (1 - ulp) * (1 - ulp)" by (simp add: power2_eq_square)
  also have "\<dots> \<le> (a + c) * (1 - ulp)" by (rule mult_right_mono [OF s1]) simp
  also have "\<dots> \<le> fl64 (a + c)" by (rule fl64_lo) (rule s0)
  finally show "4 / 5 * (1 - ulp) ^ 2 \<le> jitter_factor rnd" unfolding t .
  have "fl64 (a + c) \<le> (a + c) * (1 + ulp)" by (rule fl64_up) (rule s0)
  also have "\<dots> \<le> 6 / 5 * (1 + ulp) ^ 2 * (1 + ulp)" by (rule mult_right_mono [OF s2]) simp
  also have "\<dots> = 6 / 5 * (1 + ulp) ^ 3" by (simp add: power2_eq_square power3_eq_cube)
  finally show "jitter_factor rnd \<le> 6 / 5 * (1 + ulp) ^ 3" unfolding t .
qed

lemma jitter_factor_pos: "0 \<le> rnd \<Longrightarrow> rnd < 1 \<Longrightarrow> 3 / 4 \<le> jitter_factor rnd"
  by (rule order_trans [OF _ jitter_factor_bounds(1)]) (simp_all add: ulp_def power_divide)

lemma jitter_factor: "jitter rnd D = to_int64 (fl64 (fl64 (of_int D) * jitter_factor rnd))"
  by (simp add: jitter_def jitter_factor_def)

lemma jitter_bounds:
  assumes "0 \<le> D" "D < 2 ^ 62" "0 \<le> rnd" "rnd < 1"
  shows "4 / 5 * of_int D * (1 - 1 / 2 ^ 50) - 1 \<le> (of_int (jitter rnd D) :: rat)"
    and "(of_int (jitter rnd D) :: rat) \<le> 6 / 5 * of_int D * (1 + 1 / 2 ^ 50)"
proof -
  define t where "t = jitter_factor rnd"
  note t = jitter_factor_bounds [OF assms(3,4), folded t_def]
  have t0: "0 \<le> t" by (rule order_trans [OF _ t(1)]) simp
  define d where "d = fl64 (of_int D)"
  have D: "0 \<le> (of_int D :: rat)" using assms(1) by simp
  have d: "of_int D * (1 - ulp) \<le> d" "d \<le> of_int D * (1 + ulp)" "0 \<le> d"
    unfolding d_def using fl64_lo [OF D] fl64_up [OF D] fl64_nonneg [OF D] by simp_all
  have du: "0 \<le> of_int D * (1 + ulp)" using D by simp
  define q where "q = fl64 (d * t)"
  have p0: "0 \<le> d * t" using d(3) t0 by simp
  have "of_int D * (4 / 5 * (1 - 1 / 2 ^ 50)) \<le> of_int D * (4 / 5 * (1 - ulp) ^ 4)"
    by (rule mult_left_mono [OF _ D]) (simp add: ulp_def power_divide)
  also have "\<dots> = of_int D * (1 - ulp) * (4 / 5 * (1 - ulp) ^ 2) * (1 - ulp)"
    by (simp add: power_numeral_reduce)
  also have "\<dots> \<le> d * t * (1 - ulp)"
    by (rule mult_right_mono, rule mult_mono [OF d(1) t(1) d(3)]) simp_all
  also have "\<dots> \<le> q" unfolding q_def by (rule fl64_lo) (rule p0)
  finally have low: "4 / 5 * of_int D * (1 - 1 / 2 ^ 50) \<le> q" by simp
  have "q \<le> d * t * (1 + ulp)" unfolding q_def by (rule fl64_up) (rule p0)
  also have "\<dots> \<le> of_int D * (1 + ulp) * (6 / 5 * (1 + ulp) ^ 3) * (1 + ulp)"
    by (rule mult_right_mono, rule mult_mono [OF d(2) t(2) du t0]) simp
  also have "\<dots> = of_int D * (6 / 5 * (1 + ulp) ^ 5)"
    by (simp add: power_numeral_reduce)
  also have "\<dots> \<le> of_int D * (6 / 5 * (1 + 1 / 2 ^ 50))"
    by (rule mult_left_mono [OF _ D]) (simp add: ulp_def power_divide)
  finally have hi: "q \<le> 6 / 5 * of_int D * (1 + 1 / 2 ^ 50)" by simp
  have q0: "0 \<le> q" unfolding q_def by (rule fl64_nonneg) (rule p0)
  have "(of_int D :: rat) < 2 ^ 62"
    using assms(2) by (metis of_int_less_iff of_int_numeral of_int_power)
  then have "q < 2 ^ 63" using hi by simp
  with q0 have j: "jitter rnd D = \<lfloor>q\<rfloor>"
    unfolding jitter_factor t_def [symmetric] d_def [symmetric] q_def [symmetric]
    by (rule to_int64_floor)
  show "4 / 5 * of_int D * (1 - 1 / 2 ^ 50) - 1 \<le> (of_int (jitter rnd D) :: rat)"
    unfolding j using low floor_correct [of q] by linarith
  show "(of_int (jitter rnd D) :: rat) \<le> 6 / 5 * of_int D * (1 + 1 / 2 ^ 50)"
    unfolding j using hi floor_correct [of q] by linarith
qed

text \<open>A negative delay stays negative.\<close>

lemma fl64_neg: "x \<le> 0 \<Longrightarrow> fl64 x \<le> x * (1 - ulp)"
  using fl64_error [of x] by (simp add: abs_if algebra_simps ulp_def split: if_splits)

lemma jitter_negative:
  assumes "D \<le> - 4" "0 \<le> rnd" "rnd < 1"
  shows "jitter rnd D < 0"
proof -
  let ?t = "jitter_factor rnd"
  have t: "3 / 4 \<le> ?t" by (rule jitter_factor_pos [OF assms(2,3)])
  have D: "(of_int D :: rat) \<le> - 4" using assms(1) by (metis of_int_le_iff of_int_minus of_int_numeral)
  then have "fl64 (of_int D) \<le> of_int D * (1 - ulp)" by (intro fl64_neg) simp
  also have "\<dots> \<le> - 4 * (1 - ulp)" by (rule mult_right_mono [OF D]) simp
  also have "\<dots> \<le> - 2" by (simp add: ulp_def)
  finally have d: "fl64 (of_int D) \<le> - 2" .
  have "fl64 (of_int D) * ?t \<le> - 2 * ?t" by (rule mult_right_mono [OF d]) (use t in simp)
  with t have p: "fl64 (of_int D) * ?t \<le> - 3 / 2" by linarith
  then have "fl64 (fl64 (of_int D) * ?t) \<le> fl64 (of_int D) * ?t * (1 - ulp)" by (intro fl64_neg) simp
  also have "\<dots> \<le> - 3 / 2 * (1 - ulp)" by (rule mult_right_mono [OF p]) simp
  also have "\<dots> \<le> - 1" by (simp add: ulp_def)
  finally have q: "fl64 (fl64 (of_int D) * ?t) \<le> - 1" .
  then have "\<lceil>fl64 (fl64 (of_int D) * ?t)\<rceil> \<le> - 1" by (simp add: ceiling_le_iff)
  with q show ?thesis unfolding jitter_factor by (simp add: to_int64_def Let_def)
qed

text \<open>
  C29. While the product does not overflow, the delay doubles with each retry up to the
  maximum, and jitter changes it by at most a fifth, up to the rounding of the \<open>float64\<close>
  arithmetic.
\<close>

theorem retry_delay_bounds:
  assumes k: "1 \<le> k" and b: "1 \<le> BaseDelay cfg" "BaseDelay cfg * 2 ^ nat (k - 1) < 2 ^ 63"
    and m: "0 \<le> MaxDelay cfg" "MaxDelay cfg < 2 ^ 62" and rnd: "0 \<le> rnd" "rnd < 1"
  shows "let D = of_int (min (BaseDelay cfg * 2 ^ nat (k - 1)) (MaxDelay cfg));
             j = (of_int (jitter rnd (backoff_delay cfg k)) :: rat)
    in 4 / 5 * D * (1 - 1 / 2 ^ 50) - 1 \<le> j \<and> j \<le> 6 / 5 * D * (1 + 1 / 2 ^ 50)"
proof -
  let ?D = "min (BaseDelay cfg * 2 ^ nat (k - 1)) (MaxDelay cfg)"
  have D: "0 \<le> ?D" "?D < 2 ^ 62" using b(1) m by auto
  show ?thesis
    unfolding backoff_delay_exact [OF k b] Let_def
    using jitter_bounds [OF D rnd] by blast
qed

text \<open>
  The product can overflow: with the default delays of a second and five minutes the
  35th retry has a negative delay, which the maximum does not catch, and its time lies before
  now whatever the jitter.
\<close>

theorem backoff_overflows:
  assumes "0 \<le> rnd" "rnd < 1"
  shows "let cfg = \<lparr>CMaxRetries = 100, BaseDelay = Second, MaxDelay = 300 * Second\<rparr>
    in backoff_delay cfg 34 = MaxDelay cfg \<and> backoff_delay cfg 35 = - 1266874889709551616 \<and>
       jitter rnd (backoff_delay cfg 35) < 0"
proof -
  let ?cfg = "\<lparr>CMaxRetries = 100, BaseDelay = Second, MaxDelay = 300 * Second\<rparr>"
  have "backoff_delay ?cfg 34 = 300 * Second"
    by (subst backoff_delay_exact) (simp_all add: Second_def)
  moreover have b: "backoff_delay ?cfg 35 = - 1266874889709551616"
    using to_int64_pow2 [of 35] by (simp add: backoff_delay_def Second_def wrap64_mod Let_def)
  moreover have "jitter rnd (backoff_delay ?cfg 35) < 0"
    unfolding b by (rule jitter_negative) (use assms in simp_all)
  ultimately show ?thesis by (simp add: Let_def)
qed

definition sample_config :: DeliveryConfig where
  "sample_config = \<lparr>CMaxRetries = 3, BaseDelay = Second, MaxDelay = 300 * Second\<rparr>"

theorem retry_delay_bounds_witness:
  "(of_int (jitter (1 / 2) (backoff_delay sample_config 3)) :: rat) \<le> 6 / 5 * 4000000000 * (1 + 1 / 2 ^ 50)"
  using retry_delay_bounds [of 3 sample_config "1 / 2"]
  by (simp add: sample_config_def Second_def Let_def)

theorem backoff_overflows_witness:
  "jitter 0 (backoff_delay \<lparr>CMaxRetries = 100, BaseDelay = Second, MaxDelay = 300 * Second\<rparr> 35) < 0"
  using backoff_overflows [OF order_refl zero_less_one] unfolding Let_def by blast


end
