(* ===== verification/Domain.thy ===== *)
theory Domain
  imports Go_Runtime
begin

text \<open>
  The entities of \<open>internal/domain\<close> and the message types of \<open>internal/port\<close>: channels,
  priorities, statuses, notifications, templates, delivery attempts, dead letters, the
  sentinel errors and the batch result.
\<close>

section \<open>Errors\<close>

text \<open>The sentinels of \<open>errors.go\<close>; \<open>error_text\<close> is their message.\<close>

datatype domain_error =
    ErrNotFound
  | ErrDuplicateIDKey
  | ErrInvalidChannel
  | ErrInvalidPriority
  | ErrInvalidStatus
  | ErrCannotCancel
  | ErrBatchTooLarge
  | ErrContentTooLong
  | ErrEmptyRecipient
  | ErrEmptyContent
  | ErrTemplateNotFound
  | ErrTemplateInactive
  | ErrMissingTemplateVars
  | ErrCircuitOpen
  | ErrRateLimited
  | ErrScheduleInPast

fun error_text :: "domain_error \<Rightarrow> string" where
  "error_text ErrNotFound = ''resource not found''"
| "error_text ErrDuplicateIDKey = ''duplicate idempotency key''"
| "error_text ErrInvalidChannel = ''invalid channel: must be sms, email, or push''"
| "error_text ErrInvalidPriority = ''invalid priority: must be high, normal, or low''"
| "error_text ErrInvalidStatus = ''invalid notification status''"
| "error_text ErrCannotCancel = ''notification cannot be cancelled in current status''"
| "error_text ErrBatchTooLarge = ''batch size exceeds maximum of 1000''"
| "error_text ErrContentTooLong = ''content exceeds maximum length for channel''"
| "error_text ErrEmptyRecipient = ''recipient is required''"
| "error_text ErrEmptyContent = ''content is required''"
| "error_text ErrTemplateNotFound = ''template not found''"
| "error_text ErrTemplateInactive = ''template is not active''"
| "error_text ErrMissingTemplateVars = ''missing required template variables''"
| "error_text ErrCircuitOpen = ''circuit breaker is open for this channel''"
| "error_text ErrRateLimited = ''rate limit exceeded for channel''"
| "error_text ErrScheduleInPast = ''scheduled_at must be in the future''"

text \<open>
  An error value is a sentinel, a library's or service's error with its text, or another error
  wrapped by \<open>fmt.Errorf\<close> with \<open>%w\<close> between a prefix and a suffix.
\<close>

datatype err =
    Sentinel domain_error
  | Text string
  | Wrap string err string

fun err_Error :: "err \<Rightarrow> string" where
  "err_Error (Sentinel d) = error_text d"
| "err_Error (Text s) = s"
| "err_Error (Wrap p e q) = p @ err_Error e @ q"

text \<open>\<open>errors.Is\<close> against a sentinel looks through the wrapping.\<close>

fun errors_Is :: "err \<Rightarrow> domain_error \<Rightarrow> bool" where
  "errors_Is (Sentinel d) t \<longleftrightarrow> d = t"
| "errors_Is (Text _) t \<longleftrightarrow> False"
| "errors_Is (Wrap _ e _) t \<longleftrightarrow> errors_Is e t"

section \<open>Channel, priority, status\<close>

type_synonym Channel = string

definition ChannelSMS :: Channel where "ChannelSMS = ''sms''"
definition ChannelEmail :: Channel where "ChannelEmail = ''email''"
definition ChannelPush :: Channel where "ChannelPush = ''push''"

lemmas channel_defs = ChannelSMS_def ChannelEmail_def ChannelPush_def

lemma channels_distinct [simp]:
  "ChannelSMS \<noteq> ChannelEmail" "ChannelEmail \<noteq> ChannelSMS"
  "ChannelSMS \<noteq> ChannelPush" "ChannelPush \<noteq> ChannelSMS"
  "ChannelEmail \<noteq> ChannelPush" "ChannelPush \<noteq> ChannelEmail"
  by (simp_all add: channel_defs)

definition Channel_IsValid :: "Channel \<Rightarrow> bool" where
  "Channel_IsValid c \<longleftrightarrow> c = ChannelSMS \<or> c = ChannelEmail \<or> c = ChannelPush"

type_synonym Priority = int

definition PriorityHigh :: Priority where "PriorityHigh = 0"
definition PriorityNormal :: Priority where "PriorityNormal = 1"
definition PriorityLow :: Priority where "PriorityLow = 2"

lemmas priority_defs = PriorityHigh_def PriorityNormal_def PriorityLow_def

definition PriorityFromString :: "string \<Rightarrow> Priority" where
  "PriorityFromString s =
     (if s = ''high'' then PriorityHigh
      else if s = ''low'' then PriorityLow
      else PriorityNormal)"

definition Priority_String :: "Priority \<Rightarrow> string" where
  "Priority_String p =
     (if p = PriorityHigh then ''high''
      else if p = PriorityLow then ''low''
      else ''normal'')"

text \<open>The values the database accepts for a priority are the three constants.\<close>

definition valid_priority :: "Priority \<Rightarrow> bool" where
  "valid_priority p \<longleftrightarrow> p = PriorityHigh \<or> p = PriorityNormal \<or> p = PriorityLow"

lemma PriorityFromString_valid [simp]: "valid_priority (PriorityFromString s)"
  by (simp add: PriorityFromString_def valid_priority_def)

lemma Priority_roundtrip: "valid_priority p \<Longrightarrow> PriorityFromString (Priority_String p) = p"
  by (auto simp: valid_priority_def PriorityFromString_def Priority_String_def priority_defs)

type_synonym Status = string

definition StatusPending :: Status where "StatusPending = ''pending''"
definition StatusScheduled :: Status where "StatusScheduled = ''scheduled''"
definition StatusQueued :: Status where "StatusQueued = ''queued''"
definition StatusProcessing :: Status where "StatusProcessing = ''processing''"
definition StatusDelivered :: Status where "StatusDelivered = ''delivered''"
definition StatusFailed :: Status where "StatusFailed = ''failed''"
definition StatusCancelled :: Status where "StatusCancelled = ''cancelled''"

lemmas status_defs = StatusPending_def StatusScheduled_def StatusQueued_def
  StatusProcessing_def StatusDelivered_def StatusFailed_def StatusCancelled_def

lemma statuses_distinct [simp]:
  "StatusPending \<noteq> StatusScheduled" "StatusPending \<noteq> StatusQueued"
  "StatusPending \<noteq> StatusProcessing" "StatusPending \<noteq> StatusDelivered"
  "StatusPending \<noteq> StatusFailed" "StatusPending \<noteq> StatusCancelled"
  "StatusScheduled \<noteq> StatusPending" "StatusScheduled \<noteq> StatusQueued"
  "StatusScheduled \<noteq> StatusProcessing" "StatusScheduled \<noteq> StatusDelivered"
  "StatusScheduled \<noteq> StatusFailed" "StatusScheduled \<noteq> StatusCancelled"
  "StatusQueued \<noteq> StatusPending" "StatusQueued \<noteq> StatusScheduled"
  "StatusQueued \<noteq> StatusProcessing" "StatusQueued \<noteq> StatusDelivered"
  "StatusQueued \<noteq> StatusFailed" "StatusQueued \<noteq> StatusCancelled"
  "StatusProcessing \<noteq> StatusPending" "StatusProcessing \<noteq> StatusScheduled"
  "StatusProcessing \<noteq> StatusQueued" "StatusProcessing \<noteq> StatusDelivered"
  "StatusProcessing \<noteq> StatusFailed" "StatusProcessing \<noteq> StatusCancelled"
  "StatusDelivered \<noteq> StatusPending" "StatusDelivered \<noteq> StatusScheduled"
  "StatusDelivered \<noteq> StatusQueued" "StatusDelivered \<noteq> StatusProcessing"
  "StatusDelivered \<noteq> StatusFailed" "StatusDelivered \<noteq> StatusCancelled"
  "StatusFailed \<noteq> StatusPending" "StatusFailed \<noteq> StatusScheduled"
  "StatusFailed \<noteq> StatusQueued" "StatusFailed \<noteq> StatusProcessing"
  "StatusFailed \<noteq> StatusDelivered" "StatusFailed \<noteq> StatusCancelled"
  "StatusCancelled \<noteq> StatusPending" "StatusCancelled \<noteq> StatusScheduled"
  "StatusCancelled \<noteq> StatusQueued" "StatusCancelled \<noteq> StatusProcessing"
  "StatusCancelled \<noteq> StatusDelivered" "StatusCancelled \<noteq> StatusFailed"
  by (simp_all add: status_defs)

definition Status_IsFinal :: "Status \<Rightarrow> bool" where
  "Status_IsFinal s \<longleftrightarrow> s = StatusDelivered \<or> s = StatusFailed \<or> s = StatusCancelled"

definition Status_CanCancel :: "Status \<Rightarrow> bool" where
  "Status_CanCancel s \<longleftrightarrow> s = StatusPending \<or> s = StatusScheduled \<or> s = StatusQueued"

definition valid_status :: "Status \<Rightarrow> bool" where
  "valid_status s \<longleftrightarrow> s \<in> {StatusPending, StatusScheduled, StatusQueued, StatusProcessing,
     StatusDelivered, StatusFailed, StatusCancelled}"

section \<open>Entities\<close>

text \<open>
  A UUID is 16 bytes. \<open>interface{}\<close> values are what \<open>encoding/json\<close> decodes into
  them (a number is a \<open>float64\<close>, hence a rational). A Go map from strings is the list of its
  entries, read by \<open>map_of\<close> and written by \<open>AList.update\<close>; \<open>None\<close> is the nil map.
\<close>

type_synonym UUID = "128 word"

datatype json =
    JNull
  | JBool bool
  | JNumber rat
  | JString string
  | JArray "json list"
  | JObject "(string \<times> json) list"

type_synonym json_map = "(string \<times> json) list option"

record Notification =
  ID :: UUID
  BatchID :: "UUID option"
  IdempotencyKey :: "string option"
  NChannel :: Channel
  Recipient :: string
  Subject :: string
  Content :: string
  NPriority :: Priority
  NStatus :: Status
  ScheduledAt :: "time option"
  SentAt :: "time option"
  ProviderMsgID :: "string option"
  RetryCount :: int
  MaxRetries :: int
  NextRetryAt :: "time option"
  Metadata :: json_map
  TemplateID :: "UUID option"
  TemplateVars :: json_map
  ErrorMessage :: "string option"
  CreatedAt :: time
  UpdatedAt :: time

text \<open>\<open>NewNotification\<close> reads the clock and draws a UUID: both are arguments.\<close>

definition NewNotification ::
    "UUID \<Rightarrow> time \<Rightarrow> Channel \<Rightarrow> string \<Rightarrow> string \<Rightarrow> Priority \<Rightarrow> Notification" where
  "NewNotification uid now channel recipient content priority =
     \<lparr>ID = uid, BatchID = None, IdempotencyKey = None, NChannel = channel,
      Recipient = recipient, Subject = [], Content = content, NPriority = priority,
      NStatus = StatusPending, ScheduledAt = None, SentAt = None, ProviderMsgID = None,
      RetryCount = 0, MaxRetries = 3, NextRetryAt = None, Metadata = Some [],
      TemplateID = None, TemplateVars = None, ErrorMessage = None, CreatedAt = now,
      UpdatedAt = now\<rparr>"

record DeliveryAttempt =
  AID :: UUID
  ANotificationID :: UUID
  AttemptNumber :: int
  AStatus :: string
  AProviderMsgID :: "string option"
  AStatusCode :: "int option"
  AResponseBody :: "string option"
  AErrorMessage :: "string option"
  DurationMs :: int
  ACreatedAt :: time

record DeadLetterEntry =
  DID :: UUID
  DNotificationID :: UUID
  Reason :: string
  LastError :: "string option"
  Payload :: json_map
  DCreatedAt :: time
  ReprocessedAt :: "time option"

record TemplateVariable =
  VName :: string
  Required :: bool
  Default :: "string option"

record Template =
  TID :: UUID
  TName :: string
  TChannel :: Channel
  TSubject :: string
  TContent :: string
  Variables :: "TemplateVariable list"
  Active :: bool
  TCreatedAt :: time
  TUpdatedAt :: time

definition NewTemplate :: "UUID \<Rightarrow> time \<Rightarrow> string \<Rightarrow> Channel \<Rightarrow> string \<Rightarrow> Template" where
  "NewTemplate uid now name channel content =
     \<lparr>TID = uid, TName = name, TChannel = channel, TSubject = [], TContent = content,
      Variables = [], Active = True, TCreatedAt = now, TUpdatedAt = now\<rparr>"

definition MaxBatchSize :: int where
  "MaxBatchSize = 1000"

record BatchError =
  Index :: int
  Message :: string

record BatchResult =
  RBatchID :: UUID
  Total :: int
  Accepted :: int
  Rejected :: int
  Notifications :: "UUID list"
  Errors :: "BatchError list"

section \<open>Messages between the components\<close>

record QueueMessage =
  QNotificationID :: string
  QChannel :: string
  QPriority :: int
  TraceParent :: string

text \<open>A \<open>StatusEvent\<close>; its timestamp is the time that the code then formats as RFC 3339.\<close>

record StatusEvent =
  ENotificationID :: string
  EBatchID :: string
  EStatus :: string
  EChannel :: string
  ETimestamp :: time
  EError :: string

record SendRequest =
  SendTo :: string
  SChannel :: string
  SContent :: string

record SendResponse =
  MessageID :: string
  RStatus :: string
  RTimestamp :: string

record NotificationFilter =
  FStatus :: "Status option"
  FChannel :: "Channel option"
  FBatchID :: "UUID option"
  FromDate :: "time option"
  ToDate :: "time option"
  Page :: int
  PageSize :: int

record PaginatedResult =
  PData :: "Notification list"
  PPage :: int
  PPageSize :: int
  PTotal :: int
  TotalPages :: int

section \<open>The port of status events\<close>

text \<open>
  \<open>EventPublisher\<close>: publishing never fails and, while the publisher is ready, adds one event to
  a log, in order and without loss. \<open>log\<close> is what leaves the component.
\<close>

locale event_publisher =
  fixes publish :: "StatusEvent \<Rightarrow> 's \<Rightarrow> 's"
    and log :: "'s \<Rightarrow> StatusEvent list"
    and ready :: "'s \<Rightarrow> bool"
  assumes publish_log: "ready s \<Longrightarrow> log (publish e s) = log s @ [e]"
    and publish_ready: "ready s \<Longrightarrow> ready (publish e s)"
begin

lemma publish_all: "ready s \<Longrightarrow> log (fold publish es s) = log s @ es \<and> ready (fold publish es s)"
  by (induction es arbitrary: s) (simp_all add: publish_log publish_ready)

end

end
