(* ===== verification/Redis_Store.thy ===== *)
theory Redis_Store
  imports Prelude "HOL-Library.Multiset" "HOL-Library.List_Lexorder" "HOL-Library.Char_ord"
begin

text \<open>
  The Redis data the program keeps, with the commands its scripts and clients issue: sorted
  sets (the queues and the rate limiter's windows) and plain sets (the messages being
  processed). \<open>sorted_set\<close> is the interface: what the code relies on of the commands, in
  terms of a map from members to scores. A list ordered by score and then by member's bytes,
  as Redis documents its order, provides it.
\<close>

section \<open>The interface\<close>

locale sorted_set =
  fixes empty :: 'z
    and zadd :: "int \<Rightarrow> string \<Rightarrow> 'z \<Rightarrow> 'z"
    and zrem :: "string \<Rightarrow> 'z \<Rightarrow> 'z"
    and zremrangebyscore :: "int \<Rightarrow> int \<Rightarrow> 'z \<Rightarrow> 'z"
    and zcard :: "'z \<Rightarrow> int"
    and zfirst :: "'z \<Rightarrow> string option"
    and score :: "'z \<Rightarrow> string \<Rightarrow> int option"
    and ok :: "'z \<Rightarrow> bool"
  assumes score_empty: "score empty m = None"
    and score_zadd: "ok z \<Longrightarrow> score (zadd s m z) = (score z)(m := Some s)"
    and score_zrem: "ok z \<Longrightarrow> score (zrem m z) = (score z)(m := None)"
    and score_zremrangebyscore: "ok z \<Longrightarrow> score (zremrangebyscore lo hi z) m =
          (case score z m of None \<Rightarrow> None | Some s \<Rightarrow> if lo \<le> s \<and> s \<le> hi then None else Some s)"
    and finite_score: "ok z \<Longrightarrow> finite (dom (score z))"
    and zcard_score: "ok z \<Longrightarrow> zcard z = int (card (dom (score z)))"
    and zfirst_None: "ok z \<Longrightarrow> zfirst z = None \<longleftrightarrow> score z = Map.empty"
    and zfirst_Some: "ok z \<Longrightarrow> zfirst z = Some m \<Longrightarrow>
          \<exists>s. score z m = Some s \<and>
              (\<forall>m' s'. score z m' = Some s' \<longrightarrow> m' \<noteq> m \<longrightarrow> s < s' \<or> s = s' \<and> m < m')"
    and ok_empty: "ok empty"
    and ok_zadd: "ok z \<Longrightarrow> ok (zadd s m z)"
    and ok_zrem: "ok z \<Longrightarrow> ok (zrem m z)"
    and ok_zremrangebyscore: "ok z \<Longrightarrow> ok (zremrangebyscore lo hi z)"
begin

lemma zfirst_least:
  assumes "ok z" "zfirst z = Some m" "score z m' = Some s'"
  shows "\<exists>s. score z m = Some s \<and> s \<le> s'"
  using zfirst_Some [OF assms(1,2)] assms(3) by (metis order.refl option.inject less_imp_le)

lemma zfirst_unique_least:
  assumes "ok z" "score z m = Some s"
    and "\<And>m' s'. score z m' = Some s' \<Longrightarrow> m' \<noteq> m \<Longrightarrow> s < s'"
  shows "zfirst z = Some m"
proof -
  have "score z \<noteq> Map.empty"
    using assms(2) by auto
  then obtain m0 where m0: "zfirst z = Some m0"
    using zfirst_None [OF assms(1)] by (cases "zfirst z") auto
  obtain s0 where s0: "score z m0 = Some s0"
      "\<And>m' s'. score z m' = Some s' \<Longrightarrow> m' \<noteq> m0 \<Longrightarrow> s0 < s' \<or> s0 = s' \<and> m0 < m'"
    using zfirst_Some [OF assms(1) m0] by blast
  have "m0 = m"
  proof (rule ccontr)
    assume ne: "m0 \<noteq> m"
    with assms(3) [OF s0(1)] s0(2) [OF assms(2)] show False by auto
  qed
  with m0 show ?thesis by simp
qed

lemma zcard_zadd_new:
  assumes "ok z" "score z m = None"
  shows "zcard (zadd s m z) = zcard z + 1"
proof -
  have "dom (score (zadd s m z)) = insert m (dom (score z))"
    using assms by (simp add: score_zadd)
  moreover have "m \<notin> dom (score z)"
    using assms(2) by auto
  ultimately show ?thesis
    using assms(1) by (simp add: zcard_score ok_zadd finite_score)
qed

lemma zcard_nonneg: "ok z \<Longrightarrow> 0 \<le> zcard z"
  by (simp add: zcard_score)

end

section \<open>Entries, ordered by score and then by member\<close>

datatype zentry = ZEntry (zscore_of: int) (zmember: string)

instantiation zentry :: linorder
begin

definition less_eq_zentry :: "zentry \<Rightarrow> zentry \<Rightarrow> bool" where
  "less_eq_zentry a b \<longleftrightarrow>
     zscore_of a < zscore_of b \<or> zscore_of a = zscore_of b \<and> zmember a \<le> zmember b"

definition less_zentry :: "zentry \<Rightarrow> zentry \<Rightarrow> bool" where
  "less_zentry a b \<longleftrightarrow>
     zscore_of a < zscore_of b \<or> zscore_of a = zscore_of b \<and> zmember a < zmember b"

instance
  by standard (auto simp: less_eq_zentry_def less_zentry_def zentry.expand)

end

section \<open>Sorted sets as ordered lists\<close>

type_synonym zset = "zentry list"

definition zset_ok :: "zset \<Rightarrow> bool" where
  "zset_ok z \<longleftrightarrow> sorted z \<and> distinct (map zmember z)"

definition zset_score :: "zset \<Rightarrow> string \<Rightarrow> int option" where
  "zset_score z m = map_option zscore_of (find (\<lambda>e. zmember e = m) z)"

definition zset_rem :: "string \<Rightarrow> zset \<Rightarrow> zset" where
  "zset_rem m z = filter (\<lambda>e. zmember e \<noteq> m) z"

definition zset_add :: "int \<Rightarrow> string \<Rightarrow> zset \<Rightarrow> zset" where
  "zset_add s m z = insort (ZEntry s m) (zset_rem m z)"

definition zset_remrangebyscore :: "int \<Rightarrow> int \<Rightarrow> zset \<Rightarrow> zset" where
  "zset_remrangebyscore lo hi z = filter (\<lambda>e. \<not> (lo \<le> zscore_of e \<and> zscore_of e \<le> hi)) z"

definition zset_card :: "zset \<Rightarrow> int" where
  "zset_card z = int (length z)"

fun zset_first :: "zset \<Rightarrow> string option" where
  "zset_first [] = None"
| "zset_first (e # z) = Some (zmember e)"

lemmas zset_defs = zset_rem_def zset_add_def zset_remrangebyscore_def zset_card_def

lemma zset_score_Some:
  assumes "distinct (map zmember z)"
  shows "zset_score z m = Some s \<longleftrightarrow> ZEntry s m \<in> set z"
proof
  assume "zset_score z m = Some s"
  then obtain e where e: "find (\<lambda>e. zmember e = m) z = Some e" "s = zscore_of e"
    by (auto simp: zset_score_def)
  from find_SomeD [OF e(1)] e(2) show "ZEntry s m \<in> set z"
    by (cases e) simp
next
  assume "ZEntry s m \<in> set z"
  then show "zset_score z m = Some s"
    using find_Some_unique [OF assms, of "ZEntry s m"] by (simp add: zset_score_def)
qed

lemma zset_score_None: "zset_score z m = None \<longleftrightarrow> m \<notin> zmember ` set z"
  by (simp add: zset_score_def find_None_iff_notin)

lemma dom_zset_score: "dom (zset_score z) = zmember ` set z"
  by (rule set_eqI) (simp add: domIff zset_score_None)

lemma zset_ok_filter [keeps]: "zset_ok z \<Longrightarrow> zset_ok (filter P z)"
  by (auto simp: zset_ok_def intro: sorted_wrt_filter distinct_map_filter)

lemma zset_ok_rem [keeps]: "zset_ok z \<Longrightarrow> zset_ok (zset_rem m z)"
  by (simp add: zset_rem_def zset_ok_filter)

lemma zset_ok_add [keeps]:
  assumes "zset_ok z"
  shows "zset_ok (zset_add s m z)"
  using zset_ok_rem [OF assms, of m]
  by (auto simp: zset_ok_def zset_add_def sorted_insort distinct_map_insort zset_rem_def)

lemma zset_ok_remrange [keeps]: "zset_ok z \<Longrightarrow> zset_ok (zset_remrangebyscore lo hi z)"
  by (simp add: zset_remrangebyscore_def zset_ok_filter)

lemma zset_score_unique:
  "zset_ok z \<Longrightarrow> ZEntry s m \<in> set z \<Longrightarrow> ZEntry s' m \<in> set z \<Longrightarrow> s = s'"
  unfolding zset_ok_def by (metis zset_score_Some option.inject)

lemma zset_score_eqI:
  assumes "zset_ok z" "\<And>m s. ZEntry s m \<in> set z \<longleftrightarrow> f m = Some s"
  shows "zset_score z = f"
proof
  fix m
  show "zset_score z m = f m"
    using assms zset_score_Some [of z m] unfolding zset_ok_def
    by (metis not_Some_eq)
qed

lemma zset_score_in: "zset_ok z \<Longrightarrow> ZEntry s m \<in> set z \<longleftrightarrow> zset_score z m = Some s"
  by (simp add: zset_ok_def zset_score_Some)

lemma zset_first_least:
  assumes "zset_ok z" "zset_first z = Some m"
  shows "\<exists>s. zset_score z m = Some s \<and>
           (\<forall>m' s'. zset_score z m' = Some s' \<longrightarrow> m' \<noteq> m \<longrightarrow> s < s' \<or> s = s' \<and> m < m')"
proof -
  obtain e z' where z: "z = e # z'" "m = zmember e"
    using assms(2) by (cases z) auto
  have "zset_score z m = Some (zscore_of e)"
    using zset_score_in [OF assms(1), of "zscore_of e" m] z by simp
  moreover have "zscore_of e < s' \<or> zscore_of e = s' \<and> m < m'"
    if "zset_score z m' = Some s'" "m' \<noteq> m" for m' s'
  proof -
    have "ZEntry s' m' \<in> set z"
      using that(1) zset_score_in [OF assms(1)] by blast
    moreover have "ZEntry s' m' \<noteq> e"
      using that(2) z(2) by auto
    ultimately have "ZEntry s' m' \<in> set z'"
      using z(1) by auto
    then have "e \<le> ZEntry s' m'"
      using assms(1) z(1) by (simp add: zset_ok_def)
    with that(2) z(2) show ?thesis
      by (auto simp: less_eq_zentry_def)
  qed
  ultimately show ?thesis by blast
qed

interpretation zset: sorted_set "[]" zset_add zset_rem zset_remrangebyscore zset_card
  zset_first zset_score zset_ok
proof unfold_locales
  fix z :: zset and m :: string and s lo hi :: int
  show "zset_score [] m = None"
    by (simp add: zset_score_def)
  show "zset_ok []"
    by (simp add: zset_ok_def)
  assume ok: "zset_ok z"
  show "zset_score (zset_add s m z) = (zset_score z)(m := Some s)"
    by (rule zset_score_eqI [OF zset_ok_add [OF ok]])
       (auto simp: zset_add_def zset_rem_def set_insort_key zset_score_in [OF ok] split: if_splits)
  show "zset_score (zset_rem m z) = (zset_score z)(m := None)"
    by (rule zset_score_eqI [OF zset_ok_rem [OF ok]])
       (auto simp: zset_rem_def zset_score_in [OF ok] split: if_splits)
  show "zset_score (zset_remrangebyscore lo hi z) m =
      (case zset_score z m of None \<Rightarrow> None | Some s \<Rightarrow> if lo \<le> s \<and> s \<le> hi then None else Some s)"
    by (rule fun_cong [OF zset_score_eqI [OF zset_ok_remrange [OF ok]]])
       (auto simp: zset_remrangebyscore_def zset_score_in [OF ok] split: if_splits option.splits)
  show "finite (dom (zset_score z))"
    by (simp add: dom_zset_score)
  show "zset_card z = int (card (dom (zset_score z)))"
    using ok by (simp add: dom_zset_score zset_card_def zset_ok_def)
       (metis card_image distinct_card distinct_map length_map list.set_map)
  show "zset_first z = None \<longleftrightarrow> zset_score z = Map.empty"
    by (cases z) (auto simp: zset_score_def fun_eq_iff)
  show "\<exists>s. zset_score z m = Some s \<and>
      (\<forall>m' s'. zset_score z m' = Some s' \<longrightarrow> m' \<noteq> m \<longrightarrow> s < s' \<or> s = s' \<and> m < m')"
    if "zset_first z = Some m"
    using ok that by (rule zset_first_least)
qed (simp_all add: zset_ok_add zset_ok_rem zset_ok_remrange)

section \<open>Plain sets\<close>

text \<open>A Redis set as the list of its members, without repetition.\<close>

type_synonym rset = "string list"

definition sadd :: "string \<Rightarrow> rset \<Rightarrow> rset" where
  "sadd m s = (if m \<in> set s then s else s @ [m])"

definition srem :: "string \<Rightarrow> rset \<Rightarrow> rset" where
  "srem m s = filter (\<lambda>x. x \<noteq> m) s"

lemma set_sadd [simp]: "set (sadd m s) = insert m (set s)"
  by (auto simp: sadd_def)

lemma set_srem [simp]: "set (srem m s) = set s - {m}"
  by (auto simp: srem_def)

lemma distinct_sadd [keeps]: "distinct s \<Longrightarrow> distinct (sadd m s)"
  by (auto simp: sadd_def)

lemma distinct_srem [keeps]: "distinct s \<Longrightarrow> distinct (srem m s)"
  by (simp add: srem_def)

section \<open>The server\<close>

text \<open>
  The keys the program uses, by kind of value: sorted sets with their time to live (an expiry
  in the server's milliseconds), plain sets and counters. A key that is absent holds an empty
  value; an expired key is absent.
\<close>

record redis =
  zsets :: "string \<Rightarrow> zset"
  expiry :: "string \<Rightarrow> int option"
  rsets :: "string \<Rightarrow> rset"
  counters :: "string \<Rightarrow> int"

definition redis_empty :: redis where
  "redis_empty = \<lparr>zsets = (\<lambda>_. []), expiry = (\<lambda>_. None), rsets = (\<lambda>_. []), counters = (\<lambda>_. 0)\<rparr>"

definition redis_ok :: "redis \<Rightarrow> bool" where
  "redis_ok r \<longleftrightarrow> (\<forall>k. zset_ok (zsets r k)) \<and> (\<forall>k. distinct (rsets r k))"

definition live :: "int \<Rightarrow> string \<Rightarrow> redis \<Rightarrow> zset" where
  "live srv k r =
     (case expiry r k of None \<Rightarrow> zsets r k | Some d \<Rightarrow> if d < srv then [] else zsets r k)"

lemma redis_ok_empty [simp]: "redis_ok redis_empty"
  by (simp add: redis_ok_def redis_empty_def zset_ok_def)

lemma redis_ok_zset: "redis_ok r \<Longrightarrow> zset_ok (zsets r k)"
  by (simp add: redis_ok_def)

lemma redis_ok_live: "redis_ok r \<Longrightarrow> zset_ok (live srv k r)"
  by (auto simp: live_def redis_ok_zset zset.ok_empty split: option.split)

lemma redis_ok_upd_zsets [keeps]:
  "redis_ok r \<Longrightarrow> zset_ok z \<Longrightarrow> redis_ok (r\<lparr>zsets := (zsets r)(k := z)\<rparr>)"
  by (simp add: redis_ok_def)

lemma redis_ok_upd_rsets [keeps]:
  "redis_ok r \<Longrightarrow> distinct s \<Longrightarrow> redis_ok (r\<lparr>rsets := (rsets r)(k := s)\<rparr>)"
  by (simp add: redis_ok_def)

lemma redis_ok_upd_expiry [simp]: "redis_ok (r\<lparr>expiry := e\<rparr>) = redis_ok r"
  by (simp add: redis_ok_def)

lemma redis_ok_upd_counters [simp]: "redis_ok (r\<lparr>counters := c\<rparr>) = redis_ok r"
  by (simp add: redis_ok_def)

end
