(* ===== verification/Rate_Limiter.thy ===== *)
theory Rate_Limiter
  imports Domain Redis_Store
begin

text \<open>
  The sliding window limiter of \<open>pkg/ratelimit/limiter.go\<close>: the Lua script over one sorted
  set per channel, and \<open>Allow\<close>. Its exactness is stated against a reference that keeps the
  whole log of the requests it accepted.
\<close>

section \<open>The script and the limiter\<close>

record Limiter =
  limitPerSec :: int
  windowMs :: int

definition NewLimiter :: "int \<Rightarrow> Limiter" where
  "NewLimiter limitSec = \<lparr>limitPerSec = limitSec, windowMs = 1000\<rparr>"

text \<open>
  \<open>slidingWindowScript\<close>: \<open>now\<close> is the client's clock in milliseconds, \<open>srv\<close> the
  server's, by which keys expire. Removing the last member of a sorted set removes the key and
  its expiry.
\<close>

definition slidingWindowScript ::
    "int \<Rightarrow> string \<Rightarrow> int \<Rightarrow> int \<Rightarrow> int \<Rightarrow> string \<Rightarrow> redis \<Rightarrow> int \<times> redis" where
  "slidingWindowScript srv key limit window now unique_id r =
     (let z = zset_remrangebyscore 0 (now - window) (live srv key r);
          r = r\<lparr>zsets := (zsets r)(key := z),
                expiry := (expiry r)(key := (if z = [] then None else expiry r key))\<rparr>;
          count = zset_card z
      in if count < limit
         then (1, r\<lparr>zsets := (zsets r)(key := zset_add now unique_id z),
                    expiry := (expiry r)(key := Some (srv + window))\<rparr>)
         else (0, r))"

definition UnixMilli :: "time \<Rightarrow> int" where
  "UnixMilli t = t div 1000000"

definition limiter_key :: "string \<Rightarrow> string" where
  "limiter_key channel = ''ratelimit:'' @ channel"

definition limiter_Allow ::
    "Limiter \<Rightarrow> err fault \<Rightarrow> int \<Rightarrow> time \<Rightarrow> string \<Rightarrow> string \<Rightarrow> redis \<Rightarrow> (err + bool) \<times> redis" where
  "limiter_Allow l f srv now uniqueID channel r =
     (case exec f (\<lambda>r. Inr (slidingWindowScript srv (limiter_key channel) (limitPerSec l)
                        (windowMs l) (UnixMilli now) uniqueID r)) r of
        (Inl e, r) \<Rightarrow> (Inl (Wrap ''rate limit script: '' e []), r)
      | (Inr result, r) \<Rightarrow> (Inr (result = 1), r))"

lemma sliding_window_keeps [keeps]:
  "redis_ok r \<Longrightarrow> redis_ok (snd (slidingWindowScript srv key limit window now u r))"
  by (simp add: slidingWindowScript_def Let_def keeps redis_ok_live)

lemma limiter_Allow_keeps [keeps]:
  assumes "redis_ok r"
  shows "redis_ok (snd (limiter_Allow l f srv now u c r))"
proof -
  let ?stmt = "\<lambda>r. Inr (slidingWindowScript srv (limiter_key c) (limitPerSec l)
                 (windowMs l) (UnixMilli now) u r) :: err + int \<times> redis"
  have "redis_ok (snd (exec f ?stmt r))"
    by (rule exec_keeps [where I = redis_ok, OF assms])
       (metis Inr_inject assms sliding_window_keeps snd_conv)
  then show ?thesis
    by (auto simp: limiter_Allow_def split: prod.splits sum.splits)
qed

text \<open>A script touches its own key only.\<close>

lemma sliding_window_frame:
  "k \<noteq> key \<Longrightarrow> zsets (snd (slidingWindowScript srv key limit window now u r)) k = zsets r k"
  "rsets (snd (slidingWindowScript srv key limit window now u r)) = rsets r"
  "counters (snd (slidingWindowScript srv key limit window now u r)) = counters r"
  by (simp_all add: slidingWindowScript_def Let_def)

lemma limiter_Allow_frame:
  "k \<noteq> limiter_key c \<Longrightarrow> zsets (snd (limiter_Allow l f srv now u c r)) k = zsets r k"
  "rsets (snd (limiter_Allow l f srv now u c r)) = rsets r"
  "counters (snd (limiter_Allow l f srv now u c r)) = counters r"
  by (auto simp: limiter_Allow_def exec_def sliding_window_frame Let_def
      split: prod.splits sum.splits option.splits if_splits)
     (metis sliding_window_frame snd_conv)+

section \<open>The reference: the log of accepted requests\<close>

definition recent :: "int \<Rightarrow> int \<Rightarrow> int list \<Rightarrow> int list" where
  "recent window now accs = filter (\<lambda>a. now - window < a) accs"

definition ref_accepts :: "int \<Rightarrow> int \<Rightarrow> int list \<Rightarrow> int \<Rightarrow> bool" where
  "ref_accepts limit window accs now \<longleftrightarrow> int (length (recent window now accs)) < limit"

fun ref_run :: "int \<Rightarrow> int \<Rightarrow> int list \<Rightarrow> int list \<Rightarrow> bool list \<times> int list" where
  "ref_run limit window accs [] = ([], accs)"
| "ref_run limit window accs (t # ts) =
     (let ok = ref_accepts limit window accs t;
          (bs, accs') = ref_run limit window (if ok then t # accs else accs) ts
      in (ok # bs, accs'))"

text \<open>The limiter's script run over a list of requests, each with its time and unique id.\<close>

fun script_run :: "int \<Rightarrow> string \<Rightarrow> int \<Rightarrow> int \<Rightarrow> (int \<times> string) list \<Rightarrow> redis \<Rightarrow> bool list \<times> redis" where
  "script_run skew key limit window [] r = ([], r)"
| "script_run skew key limit window ((t, u) # cs) r =
     (let (v, r) = slidingWindowScript (t + skew) key limit window t u r;
          (bs, r) = script_run skew key limit window cs r
      in ((v = 1) # bs, r))"

section \<open>The script keeps the recent part of the log\<close>

text \<open>
  What links a window's sorted set to the log: the set's scores that are still recent at the
  last request are the log's, and the key expires only when none of them is.
\<close>

definition window_inv :: "int \<Rightarrow> string \<Rightarrow> int \<Rightarrow> int \<Rightarrow> string set \<Rightarrow> int list \<Rightarrow> redis \<Rightarrow> bool" where
  "window_inv skew key window now used accs r \<longleftrightarrow>
     redis_ok r \<and>
     (\<forall>e\<in>set (zsets r key). 0 \<le> zscore_of e \<and> zscore_of e \<le> now \<and> zmember e \<in> used) \<and>
     mset (map zscore_of (filter (\<lambda>e. now - window < zscore_of e) (zsets r key))) =
       mset (recent window now accs) \<and>
     (\<forall>a\<in>set accs. a \<le> now) \<and>
     (\<forall>d. expiry r key = Some d \<longrightarrow> (\<forall>e\<in>set (zsets r key). zscore_of e + skew + window \<le> d))"

lemma window_inv_empty: "window_inv skew key window now {} [] redis_empty"
  by (simp add: window_inv_def recent_def redis_empty_def redis_ok_def zset_ok_def)

lemma trimmed_window:
  assumes "window_inv skew key window now used accs r" "now \<le> t"
  shows "zset_remrangebyscore 0 (t - window) (live (t + skew) key r) =
         filter (\<lambda>e. t - window < zscore_of e) (zsets r key)"
proof (cases "\<exists>d. expiry r key = Some d \<and> d < t + skew")
  case True
  then obtain d where d: "expiry r key = Some d" "d < t + skew" by blast
  have "\<not> t - window < zscore_of e" if "e \<in> set (zsets r key)" for e
    using assms(1) d that unfolding window_inv_def by force
  then have "filter (\<lambda>e. t - window < zscore_of e) (zsets r key) = []"
    by (simp add: filter_empty_conv)
  with d show ?thesis
    by (simp add: live_def zset_remrangebyscore_def)
next
  case False
  then have "live (t + skew) key r = zsets r key"
    by (auto simp: live_def split: option.split)
  moreover have "\<forall>e\<in>set (zsets r key). 0 \<le> zscore_of e"
    using assms(1) by (simp add: window_inv_def)
  ultimately show ?thesis
    unfolding zset_remrangebyscore_def by (auto intro!: filter_cong)
qed

lemma trimmed_scores:
  assumes "window_inv skew key window now used accs r" "now \<le> t"
  shows "mset (map zscore_of (filter (\<lambda>e. t - window < zscore_of e) (zsets r key))) =
         mset (recent window t accs)"
proof -
  let ?z = "zsets r key"
  have "filter (\<lambda>e. t - window < zscore_of e) ?z =
      filter (\<lambda>e. t - window < zscore_of e) (filter (\<lambda>e. now - window < zscore_of e) ?z)"
    using assms(2) by (auto intro!: filter_cong)
  then have "map zscore_of (filter (\<lambda>e. t - window < zscore_of e) ?z) =
      filter (\<lambda>a. t - window < a) (map zscore_of (filter (\<lambda>e. now - window < zscore_of e) ?z))"
    by (simp only: filter_map comp_def)
  then have "mset (map zscore_of (filter (\<lambda>e. t - window < zscore_of e) ?z)) =
      filter_mset (\<lambda>a. t - window < a)
        (mset (map zscore_of (filter (\<lambda>e. now - window < zscore_of e) ?z)))"
    by (simp only: mset_filter)
  also have "\<dots> = mset (filter (\<lambda>a. t - window < a) (recent window now accs))"
    using assms(1) by (simp only: window_inv_def mset_filter)
  also have "filter (\<lambda>a. t - window < a) (recent window now accs) = recent window t accs"
    using assms(2) by (auto simp: recent_def intro!: filter_cong)
  finally show ?thesis .
qed

lemma script_step:
  assumes "window_inv skew key window now used accs r" "now \<le> t" "0 \<le> t" "u \<notin> used" "0 < window"
    and "slidingWindowScript (t + skew) key limit window t u r = (v, r')"
  shows "v = 1 \<longleftrightarrow> ref_accepts limit window accs t"
    and "window_inv skew key window t (insert u used)
           (if ref_accepts limit window accs t then t # accs else accs) r'"
proof -
  define z where "z = filter (\<lambda>e. t - window < zscore_of e) (zsets r key)"
  note trim = trimmed_window [OF assms(1,2), folded z_def]
    and scores = trimmed_scores [OF assms(1,2), folded z_def]
  have card: "zset_card z = int (length (recent window t accs))"
    using arg_cong [OF scores, of size] by (simp add: zset_card_def)
  have acc: "zset_card z < limit \<longleftrightarrow> ref_accepts limit window accs t"
    by (simp add: ref_accepts_def card)
  have r_ok: "redis_ok r" and z_ok: "zset_ok z"
    using assms(1) by (auto simp: window_inv_def z_def keeps redis_ok_zset)
  have elems: "\<forall>e\<in>set z. 0 \<le> zscore_of e \<and> zscore_of e \<le> t \<and> zmember e \<in> used \<and> t - window < zscore_of e"
    using assms(1,2) by (auto simp: window_inv_def z_def)
  have logle: "\<forall>a\<in>set accs. a \<le> t"
    using assms(1,2) by (auto simp: window_inv_def)
  have all_recent: "filter (\<lambda>e. t - window < zscore_of e) z = z"
    using elems by (simp add: filter_id_conv)
  have exp: "\<forall>d. expiry r key = Some d \<longrightarrow> (\<forall>e\<in>set z. zscore_of e + skew + window \<le> d)"
    using assms(1) by (auto simp: window_inv_def z_def)
  show "v = 1 \<longleftrightarrow> ref_accepts limit window accs t"
    using assms(6) by (auto simp: slidingWindowScript_def Let_def trim acc split: if_splits)
  show "window_inv skew key window t (insert u used)
           (if ref_accepts limit window accs t then t # accs else accs) r'"
  proof (cases "ref_accepts limit window accs t")
    case True
    have fresh: "zset_rem u z = z"
      using elems assms(4) by (auto simp: zset_rem_def filter_id_conv)
    have add: "mset (zset_add t u z) = add_mset (ZEntry t u) (mset z)"
      by (simp add: zset_add_def fresh)
    then have set_add: "set (zset_add t u z) = insert (ZEntry t u) (set z)"
      by (metis set_mset_add_mset_insert set_mset_mset)
    have all: "filter (\<lambda>e. t - window < zscore_of e) (zset_add t u z) = zset_add t u z"
      using elems assms(5) by (auto simp: filter_id_conv set_add)
    have "mset (map zscore_of (zset_add t u z)) = mset (t # recent window t accs)"
      using scores by (simp add: add)
    then have m: "mset (map zscore_of (zset_add t u z)) = mset (recent window t (t # accs))"
      using assms(5) by (simp add: recent_def)
    have r': "r' = r\<lparr>zsets := (zsets r)(key := zset_add t u z),
        expiry := (expiry r)(key := Some (t + skew + window))\<rparr>"
      using assms(6) True by (simp add: slidingWindowScript_def Let_def trim acc fun_upd_upd)
    show ?thesis
      using r_ok z_ok elems assms(3,5) logle all m
      by (auto simp: window_inv_def r' True keeps set_add)
  next
    case False
    then have r': "r' = r\<lparr>zsets := (zsets r)(key := z),
        expiry := (expiry r)(key := (if z = [] then None else expiry r key))\<rparr>"
      using assms(6) by (simp add: slidingWindowScript_def Let_def trim acc)
    show ?thesis
      using r_ok z_ok elems logle scores exp False
      by (auto simp: window_inv_def r' keeps all_recent)
  qed
qed

lemma script_run_ref:
  assumes "window_inv skew key window now used accs r" "0 < window"
    and "sorted (now # map fst cs)" "0 \<le> now" "distinct (map snd cs)" "set (map snd cs) \<inter> used = {}"
  shows "fst (script_run skew key limit window cs r) = fst (ref_run limit window accs (map fst cs))"
  using assms
proof (induction cs arbitrary: now used accs r)
  case Nil
  then show ?case by simp
next
  case (Cons c cs)
  obtain t u where c: "c = (t, u)" by (cases c)
  obtain v r' where step: "slidingWindowScript (t + skew) key limit window t u r = (v, r')"
    by (cases "slidingWindowScript (t + skew) key limit window t u r")
  have t: "now \<le> t" "0 \<le> t" "u \<notin> used"
    using Cons.prems(3,4,6) by (auto simp: c)
  note s = script_step [OF Cons.prems(1) t Cons.prems(2) step]
  have "fst (script_run skew key limit window cs r') =
      fst (ref_run limit window (if ref_accepts limit window accs t then t # accs else accs) (map fst cs))"
    using Cons.prems by (intro Cons.IH [OF s(2)]) (auto simp: c)
  then show ?case
    using s(1) by (auto simp: c step Let_def split: prod.splits)
qed

section \<open>The bound\<close>

lemma recent_mono_length:
  "now \<le> t \<Longrightarrow> length (recent window t accs) \<le> length (recent window now accs)"
  unfolding recent_def by (induction accs) auto

definition in_window :: "int \<Rightarrow> int \<Rightarrow> int list \<Rightarrow> nat" where
  "in_window window t accs = length (filter (\<lambda>a. t - window < a \<and> a \<le> t) accs)"

lemma in_window_le_recent: "in_window window t accs \<le> length (recent window t accs)"
  unfolding in_window_def recent_def by (induction accs) auto

lemma ref_run_bound:
  assumes "\<forall>t. int (in_window window t accs) \<le> limit" "\<forall>a\<in>set accs. a \<le> now" "sorted (now # ts)"
  shows "int (in_window window t (snd (ref_run limit window accs ts))) \<le> limit"
  using assms
proof (induction ts arbitrary: now accs)
  case Nil
  then show ?case by simp
next
  case (Cons u ts)
  let ?accs = "if ref_accepts limit window accs u then u # accs else accs"
  have bound: "int (in_window window t ?accs) \<le> limit" for t
  proof (cases "ref_accepts limit window accs u \<and> t - window < u \<and> u \<le> t")
    case True
    then have "in_window window t accs \<le> length (recent window u accs)"
      using in_window_le_recent recent_mono_length by (meson order.trans)
    moreover have "int (length (recent window u accs)) < limit"
      using True by (simp add: ref_accepts_def)
    moreover have "in_window window t (u # accs) = in_window window t accs + 1"
      using True by (simp add: in_window_def)
    ultimately show ?thesis
      using True by simp
  next
    case False
    then have "in_window window t ?accs = in_window window t accs"
      by (auto simp: in_window_def)
    with Cons.prems(1) show ?thesis by simp
  qed
  have "\<forall>a\<in>set ?accs. a \<le> u" "sorted (u # ts)"
    using Cons.prems(2,3) by auto
  then have "int (in_window window t (snd (ref_run limit window ?accs ts))) \<le> limit"
    using Cons.IH [of ?accs u] bound by blast
  then show ?case
    by (simp only: ref_run.simps Let_def case_prod_beta snd_conv)
qed

section \<open>Properties of the limiter\<close>

text \<open>
  C21. Exactness: run from an empty server over requests in the order of their clocks, each with
  a unique id of its own, the script accepts exactly those that find fewer than the limit of
  accepted requests in the window before them, and the expiry of the key never changes an
  answer.
\<close>

theorem limiter_exact:
  assumes "0 < window" "sorted (map fst cs)" "\<forall>c\<in>set cs. 0 \<le> fst c" "distinct (map snd cs)"
  shows "fst (script_run skew key limit window cs redis_empty) =
         fst (ref_run limit window [] (map fst cs))"
  using script_run_ref [OF window_inv_empty assms(1), of 0 cs] assms(2-4) by simp

theorem limiter_exact_witness:
  "fst (script_run 7 ''k'' 2 1000 [(0, ''a''), (10, ''b''), (999, ''c''), (1000, ''d'')] redis_empty) =
     [True, True, False, True]"
  using limiter_exact [of 1000 "[(0, ''a''), (10, ''b''), (999, ''c''), (1000, ''d'')]" 7 "''k''" 2]
  by (simp add: ref_accepts_def recent_def)



text \<open>
  \<open>Allow\<close> answers yes exactly when the script does, reports a failed call as an error,
  and touches no other channel's window, no queue and no processing set.
\<close>

theorem limiter_Allow_correct:
  "fst (limiter_Allow l f srv now u c r) =
     (case f of
        Some (e, _) \<Rightarrow> Inl (Wrap ''rate limit script: '' e [])
      | None \<Rightarrow> Inr (zset_card (zset_remrangebyscore 0 (UnixMilli now - windowMs l)
                              (live srv (limiter_key c) r)) < limitPerSec l)) \<and>
   (zsets (snd (limiter_Allow l f srv now u c r)))(limiter_key c := zsets r (limiter_key c)) = zsets r \<and>
   rsets (snd (limiter_Allow l f srv now u c r)) = rsets r"
proof -
  have "fst (limiter_Allow l f srv now u c r) =
     (case f of
        Some (e, _) \<Rightarrow> Inl (Wrap ''rate limit script: '' e [])
      | None \<Rightarrow> Inr (zset_card (zset_remrangebyscore 0 (UnixMilli now - windowMs l)
                              (live srv (limiter_key c) r)) < limitPerSec l))"
    by (auto simp: limiter_Allow_def exec_def slidingWindowScript_def Let_def split: option.split)
  then show ?thesis
    by (auto simp: limiter_Allow_frame fun_eq_iff)
qed

end
