(* ===== verification/Message_Codec.thy ===== *)
theory Message_Codec
  imports Domain
begin

text \<open>
  The JSON text of a queue message, as \<open>encoding/json\<close> writes the struct \<open>port.QueueMessage\<close>
  and reads it back. A Go string is its bytes; the bytes of the messages are ASCII (UUIDs and
  channel names); bytes from 128 up are copied through, as \<open>encoding/json\<close> does with
  valid UTF-8 other than the two line separators. The reader accepts the texts that the writer produces: nothing under \<open>src/\<close>
  writes any other text into a queue.
\<close>

section \<open>Characters and their escapes\<close>

abbreviation quote_char :: char where "quote_char \<equiv> CHR 0x22"
abbreviation backslash :: char where "backslash \<equiv> CHR 0x5C"

definition hex_digit :: "nat \<Rightarrow> char" where
  "hex_digit n = (if n < 10 then char_of (48 + n) else char_of (87 + n))"

definition hex_value :: "char \<Rightarrow> nat option" where
  "hex_value c =
     (let n = of_char c
      in if 48 \<le> n \<and> n < 58 then Some (n - 48)
         else if 97 \<le> n \<and> n < 103 then Some (n - 87)
         else None)"

lemma hex_value_digit [simp]: "n < 16 \<Longrightarrow> hex_value (hex_digit n) = Some n"
  by (auto simp: hex_value_def hex_digit_def Let_def)

text \<open>The short escapes, a character and the letter after the backslash.\<close>

definition short_escapes :: "(char \<times> char) list" where
  "short_escapes =
     [(quote_char, quote_char), (backslash, backslash), (CHR 0x08, CHR ''b''),
      (CHR 0x0C, CHR ''f''), (CHR 0x0A, CHR ''n''), (CHR 0x0D, CHR ''r''), (CHR 0x09, CHR ''t'')]"

definition needs_unicode_escape :: "char \<Rightarrow> bool" where
  "needs_unicode_escape c \<longleftrightarrow>
     (of_char c :: nat) < 32 \<or> c = CHR ''<'' \<or> c = CHR ''>'' \<or> c = CHR ''&''"

definition escape_char :: "char \<Rightarrow> string" where
  "escape_char c =
     (case map_of short_escapes c of
        Some e \<Rightarrow> [backslash, e]
      | None \<Rightarrow>
          if needs_unicode_escape c
          then [backslash, CHR ''u'', CHR ''0'', CHR ''0'',
                hex_digit (of_char c div 16), hex_digit (of_char c mod 16)]
          else [c])"

definition json_string :: "string \<Rightarrow> string" where
  "json_string s = quote_char # concat (map escape_char s) @ [quote_char]"

definition unescape_short :: "char \<Rightarrow> char option" where
  "unescape_short e = map_of (map prod.swap short_escapes) e"

fun read_unicode :: "string \<Rightarrow> (char \<times> string) option" where
  "read_unicode (z1 # z2 # h # l # s) =
     (if z1 = CHR ''0'' \<and> z2 = CHR ''0''
      then (case (hex_value h, hex_value l) of
              (Some a, Some b) \<Rightarrow> Some (char_of (16 * a + b), s)
            | _ \<Rightarrow> None)
      else None)"
| "read_unicode _ = None"

text \<open>One character of a string literal, or its end.\<close>

fun read_char :: "string \<Rightarrow> (char option \<times> string) option" where
  "read_char [] = None"
| "read_char (c # s) =
     (if c = quote_char then Some (None, s)
      else if c = backslash
      then (case s of
              [] \<Rightarrow> None
            | e # s' \<Rightarrow>
                if e = CHR ''u'' then map_option (apfst Some) (read_unicode s')
                else map_option (\<lambda>c. (Some c, s')) (unescape_short e))
      else Some (Some c, s))"

lemma read_unicode_length: "read_unicode s = Some (c, s') \<Longrightarrow> length s' < length s"
  by (induction s rule: read_unicode.induct) (auto split: if_splits option.splits)

lemma read_char_length: "read_char s = Some (c, s') \<Longrightarrow> length s' < length s"
  by (cases s) (auto split: if_splits list.splits dest: read_unicode_length)

function read_chars :: "string \<Rightarrow> (string \<times> string) option" where
  "read_chars s =
     (case read_char s of
        None \<Rightarrow> None
      | Some (None, s') \<Rightarrow> Some ([], s')
      | Some (Some c, s') \<Rightarrow> map_option (apfst ((#) c)) (read_chars s'))"
  by pat_completeness auto
termination
  by (relation "measure length") (auto dest: read_char_length)

declare read_chars.simps [simp del]

lemma char_of_split: "char_of (16 * (of_char c div 16) + of_char c mod (16::nat)) = c"
  by simp

lemma escape_char_cases:
  obtains e where "map_of short_escapes c = Some e" "escape_char c = [backslash, e]"
      "e \<noteq> CHR ''u''" "unescape_short e = Some c"
  | "escape_char c = [backslash, CHR ''u'', CHR ''0'', CHR ''0'',
                hex_digit (of_char c div 16), hex_digit (of_char c mod 16)]"
  | "escape_char c = [c]" "c \<noteq> quote_char" "c \<noteq> backslash"
proof (cases "map_of short_escapes c")
  case (Some e)
  then have "e \<noteq> CHR ''u'' \<and> unescape_short e = Some c"
    by (auto simp: short_escapes_def unescape_short_def split: if_splits)
  with Some that(1) show ?thesis by (simp add: escape_char_def)
next
  case None
  then have "c \<noteq> quote_char" "c \<noteq> backslash"
    by (auto simp: short_escapes_def)
  with None that(2,3) show ?thesis
    by (cases "needs_unicode_escape c") (auto simp: escape_char_def)
qed

lemma read_char_escape [simp]: "read_char (escape_char c @ s) = Some (Some c, s)"
proof (cases c rule: escape_char_cases)
  case (1 e)
  then show ?thesis by simp
next
  case 2
  have "of_char c div 16 < (16::nat)"
    using nat_of_char_less_256 [of c] by (simp add: less_mult_imp_div_less)
  with 2 char_of_split [of c] show ?thesis by simp
next
  case 3
  then show ?thesis by simp
qed

lemma read_chars_escape: "read_chars (concat (map escape_char s) @ quote_char # rest) = Some (s, rest)"
proof (induction s)
  case Nil
  then show ?case by (simp add: read_chars.simps)
next
  case (Cons c s)
  then show ?case
    using read_chars.simps [of "concat (map escape_char (c # s)) @ quote_char # rest"] by simp
qed

section \<open>Tokens\<close>

fun expect :: "string \<Rightarrow> string \<Rightarrow> string option" where
  "expect [] s = Some s"
| "expect (p # ps) [] = None"
| "expect (p # ps) (c # s) = (if c = p then expect ps s else None)"

lemma expect_append [simp]: "expect p (p @ s) = Some s"
  by (induction p) auto

definition read_string :: "string \<Rightarrow> (string \<times> string) option" where
  "read_string s = Option.bind (expect [quote_char] s) read_chars"

lemma read_string_json [simp]: "read_string (json_string s @ rest) = Some (s, rest)"
  by (simp add: read_string_def json_string_def read_chars_escape)

text \<open>Decimal numerals, as \<open>strconv\<close> writes and reads them.\<close>

definition is_digit :: "char \<Rightarrow> bool" where
  "is_digit c \<longleftrightarrow> 48 \<le> (of_char c :: nat) \<and> (of_char c :: nat) < 58"

fun nat_string :: "nat \<Rightarrow> string" where
  "nat_string n =
     (if n < 10 then [char_of (48 + n)] else nat_string (n div 10) @ [char_of (48 + n mod 10)])"

declare nat_string.simps [simp del]

definition int_string :: "int \<Rightarrow> string" where
  "int_string i = (if i < 0 then CHR ''-'' # nat_string (nat (- i)) else nat_string (nat i))"

definition digits_value :: "string \<Rightarrow> nat" where
  "digits_value s = foldl (\<lambda>n c. 10 * n + (of_char c - 48)) 0 s"

definition read_nat :: "string \<Rightarrow> (nat \<times> string) option" where
  "read_nat s =
     (let ds = takeWhile is_digit s
      in if ds = [] then None else Some (digits_value ds, dropWhile is_digit s))"

fun read_int :: "string \<Rightarrow> (int \<times> string) option" where
  "read_int [] = None"
| "read_int (c # s) =
     (if c = CHR ''-'' then map_option (apfst (\<lambda>n. - int n)) (read_nat s)
      else map_option (apfst int) (read_nat (c # s)))"

lemma is_digit_char: "(n::nat) < 10 \<Longrightarrow> is_digit (char_of (48 + n))"
  by (simp add: is_digit_def)

lemma digits_value_snoc:
  "digits_value (s @ [char_of (48 + n mod 10)]) = 10 * digits_value s + n mod 10"
proof -
  have "48 + n mod 10 < 256"
    using mod_less_divisor [of 10 n] by linarith
  then show ?thesis by (simp add: digits_value_def)
qed

lemma nat_string_digits: "nat_string n \<noteq> [] \<and> list_all is_digit (nat_string n) \<and> digits_value (nat_string n) = n"
proof (induction n rule: nat_string.induct)
  case (1 n)
  show ?case
  proof (cases "n < 10")
    case True
    then show ?thesis
      by (simp add: nat_string.simps [of n] is_digit_char digits_value_def)
  next
    case False
    with 1 have IH: "list_all is_digit (nat_string (n div 10))" "digits_value (nat_string (n div 10)) = n div 10"
      by auto
    have "is_digit (char_of (48 + n mod 10))"
      by (rule is_digit_char) simp
    with False IH show ?thesis
      by (simp add: nat_string.simps [of n] digits_value_snoc)
  qed
qed

lemma read_nat_string:
  assumes "rest = [] \<or> \<not> is_digit (hd rest)"
  shows "read_nat (nat_string n @ rest) = Some (n, rest)"
proof -
  have d: "\<forall>c\<in>set (nat_string n). is_digit c"
    using nat_string_digits [of n] by (simp add: list_all_iff)
  have "takeWhile is_digit (nat_string n @ rest) = nat_string n"
    using d assms by (cases rest) (auto simp: takeWhile_append2 takeWhile_eq_Nil_iff takeWhile_append)
  moreover have "dropWhile is_digit (nat_string n @ rest) = rest"
    using d assms by (cases rest) (auto simp: dropWhile_append2)
  ultimately show ?thesis
    using nat_string_digits [of n] by (simp add: read_nat_def Let_def)
qed

lemma nat_string_Cons: "\<exists>c s. nat_string n = c # s \<and> c \<noteq> CHR ''-''"
proof -
  obtain c s where cs: "nat_string n = c # s"
    using nat_string_digits [of n] by (cases "nat_string n") auto
  moreover have "is_digit c"
    using nat_string_digits [of n] cs by simp
  then have "c \<noteq> CHR ''-''"
    by (auto simp: is_digit_def)
  ultimately show ?thesis by blast
qed

lemma read_int_string [simp]:
  assumes "rest = [] \<or> \<not> is_digit (hd rest)"
  shows "read_int (int_string i @ rest) = Some (i, rest)"
proof (cases "i < 0")
  case True
  with assms show ?thesis
    by (simp add: int_string_def read_nat_string)
next
  case False
  obtain c s where c: "nat_string (nat i) = c # s" "c \<noteq> CHR ''-''"
    using nat_string_Cons by blast
  have "read_nat (c # s @ rest) = Some (nat i, rest)"
    using read_nat_string [OF assms, of "nat i"] c by simp
  with False c show ?thesis
    by (simp add: int_string_def)
qed

section \<open>Queue messages\<close>

definition marshal_message :: "QueueMessage \<Rightarrow> string" where
  "marshal_message m =
     ''{'' @ json_string ''id'' @ '':'' @ json_string (QNotificationID m) @
     '','' @ json_string ''channel'' @ '':'' @ json_string (QChannel m) @
     '','' @ json_string ''priority'' @ '':'' @ int_string (QPriority m) @
     (if TraceParent m = [] then []
      else '','' @ json_string ''traceparent'' @ '':'' @ json_string (TraceParent m)) @
     ''}''"

definition unmarshal_message :: "string \<Rightarrow> QueueMessage option" where
  "unmarshal_message s =
     Option.bind (expect (''{'' @ json_string ''id'' @ '':'') s) (\<lambda>s.
     Option.bind (read_string s) (\<lambda>(i, s).
     Option.bind (expect ('','' @ json_string ''channel'' @ '':'') s) (\<lambda>s.
     Option.bind (read_string s) (\<lambda>(c, s).
     Option.bind (expect ('','' @ json_string ''priority'' @ '':'') s) (\<lambda>s.
     Option.bind (read_int s) (\<lambda>(p, s).
     if s = ''}''
     then Some \<lparr>QNotificationID = i, QChannel = c, QPriority = p, TraceParent = []\<rparr>
     else
       Option.bind (expect ('','' @ json_string ''traceparent'' @ '':'') s) (\<lambda>s.
       Option.bind (read_string s) (\<lambda>(t, s).
       if s = ''}''
       then Some \<lparr>QNotificationID = i, QChannel = c, QPriority = p, TraceParent = t\<rparr>
       else None))))))))"

lemma expect_append_assoc: "expect (p @ q) (p @ s) = expect q s"
  by (induction p) auto

lemma not_digit_chars [simp]: "\<not> is_digit CHR '',''" "\<not> is_digit CHR ''}''"
  by (simp_all add: is_digit_def)

lemma unmarshal_marshal [simp]: "unmarshal_message (marshal_message m) = Some m"
proof (cases "TraceParent m = []")
  case True
  have "unmarshal_message (marshal_message m) =
      Some \<lparr>QNotificationID = QNotificationID m, QChannel = QChannel m, QPriority = QPriority m,
        TraceParent = []\<rparr>"
    by (simp add: unmarshal_message_def marshal_message_def True expect_append_assoc)
  with True show ?thesis by simp
next
  case False
  then show ?thesis
    by (simp add: unmarshal_message_def marshal_message_def expect_append_assoc)
qed

lemma marshal_message_inject [simp]: "marshal_message m = marshal_message m' \<longleftrightarrow> m = m'"
  by (metis unmarshal_marshal option.inject)


end
