(* ===== verification/Job_Queue.thy ===== *)
theory Job_Queue
  imports Rate_Limiter Message_Codec
begin

text \<open>
  The Redis queue of \<open>internal/adapter/queue\<close>: one sorted set per channel holds the waiting
  messages' JSON texts, one plain set per channel those being processed. \<open>message_queue\<close> is the
  contract of the ports \<open>QueuePublisher\<close> and \<open>QueueConsumer\<close> for calls that succeed.
\<close>

section \<open>Publisher\<close>

definition queueKeyPrefix :: string where
  "queueKeyPrefix = ''queue:notifications:''"

definition processingKeyPrefix :: string where
  "processingKeyPrefix = ''processing:notifications:''"

text \<open>
  \<open>calcScore\<close> adds two \<open>float64\<close> values that hold integers; below \<open>2 ^ 53\<close> in absolute
  value, products and sums of integers are exact in that type, so the score is an integer
  (\<open>calcScore_exact\<close>).
\<close>

definition calcScore :: "int \<Rightarrow> time \<Rightarrow> int" where
  "calcScore priority now = priority * 10 ^ 13 + now sdiv 1000000"

definition zadd_message :: "time \<Rightarrow> QueueMessage \<Rightarrow> redis \<Rightarrow> redis" where
  "zadd_message now msg r =
     (let key = queueKeyPrefix @ QChannel msg;
          score = calcScore (QPriority msg) now
      in r\<lparr>zsets := (zsets r)(key := zset_add score (marshal_message msg) (zsets r key))\<rparr>)"

definition Enqueue :: "err fault \<Rightarrow> time \<Rightarrow> QueueMessage \<Rightarrow> redis \<Rightarrow> err option \<times> redis" where
  "Enqueue f now msg r =
     (case exec f (\<lambda>r. Inr ((), zadd_message now msg r)) r of (res, r) \<Rightarrow> (err_of res, r))"

text \<open>The batch reads the clock for each message; \<open>now i\<close> is what it reads for the \<open>i\<close>-th.\<close>

definition EnqueueBatch ::
    "err fault \<Rightarrow> (nat \<Rightarrow> time) \<Rightarrow> QueueMessage list \<Rightarrow> redis \<Rightarrow> err option \<times> redis" where
  "EnqueueBatch f now msgs r =
     pipeline f (map (\<lambda>(i, msg). zadd_message (now i) msg) (enumerate 0 msgs)) r"

section \<open>Consumer\<close>

definition dequeueScript :: "string \<Rightarrow> string \<Rightarrow> redis \<Rightarrow> string option \<times> redis" where
  "dequeueScript queueKey processingKey r =
     (case zset_first (zsets r queueKey) of
        Some member \<Rightarrow>
          (Some member,
           r\<lparr>zsets := (zsets r)(queueKey := zset_rem member (zsets r queueKey)),
             rsets := (rsets r)(processingKey := sadd member (rsets r processingKey))\<rparr>)
      | None \<Rightarrow> (None, r))"

text \<open>
  On any error the client library's \<open>Result\<close> gives a nil value with it, and the code tests
  the value for nil before it looks at the error.
\<close>

definition Dequeue :: "err fault \<Rightarrow> Channel \<Rightarrow> redis \<Rightarrow> (err + QueueMessage option) \<times> redis" where
  "Dequeue f channel r =
     (let queueKey = queueKeyPrefix @ channel;
          processingKey = processingKeyPrefix @ channel;
          (res, r) = exec f (\<lambda>r. Inr (dequeueScript queueKey processingKey r)) r;
          result = (case res of Inl e \<Rightarrow> None | Inr v \<Rightarrow> v)
      in case result of
           None \<Rightarrow> (Inr None, r)
         | Some member \<Rightarrow>
             (case err_of res of
                Some e \<Rightarrow> (Inl (Wrap ''dequeue script: '' e []), r)
              | None \<Rightarrow>
                  (case unmarshal_message member of
                     None \<Rightarrow> (Inl (Wrap ''unmarshal queue message: '' (Text ''invalid JSON'') []), r)
                   | Some msg \<Rightarrow> (Inr (Some msg), r))))"

definition names_notification :: "string \<Rightarrow> string \<Rightarrow> bool" where
  "names_notification notificationID member =
     (case unmarshal_message member of
        None \<Rightarrow> False
      | Some msg \<Rightarrow> QNotificationID msg = notificationID)"

definition Acknowledge ::
    "err fault \<Rightarrow> err fault \<Rightarrow> Channel \<Rightarrow> string \<Rightarrow> redis \<Rightarrow> err option \<times> redis" where
  "Acknowledge f1 f2 channel notificationID r =
     (let processingKey = processingKeyPrefix @ channel
      in case query f1 (rsets r processingKey) of
           Inl e \<Rightarrow> (Some e, r)
         | Inr members \<Rightarrow>
             (case find (names_notification notificationID) members of
                None \<Rightarrow> (None, r)
              | Some member \<Rightarrow>
                  (case exec f2 (\<lambda>r. Inr ((), r\<lparr>rsets := (rsets r)(processingKey :=
                                   srem member (rsets r processingKey))\<rparr>)) r of
                     (res, r) \<Rightarrow> (err_of res, r))))"

definition QueueDepth :: "err fault \<Rightarrow> Channel \<Rightarrow> redis \<Rightarrow> err + int" where
  "QueueDepth f channel r = query f (zset_card (zsets r (queueKeyPrefix @ channel)))"

section \<open>Keys\<close>

lemma queue_keys_inject [simp]:
  "queueKeyPrefix @ c = queueKeyPrefix @ c' \<longleftrightarrow> c = c'"
  "processingKeyPrefix @ c = processingKeyPrefix @ c' \<longleftrightarrow> c = c'"
  by simp_all

lemma queue_key_neq_limiter [simp]:
  "queueKeyPrefix @ c \<noteq> limiter_key c'" "limiter_key c' \<noteq> queueKeyPrefix @ c"
  by (simp_all add: queueKeyPrefix_def limiter_key_def)

section \<open>The contents of the queue\<close>

definition waiting :: "redis \<Rightarrow> Channel \<Rightarrow> QueueMessage \<Rightarrow> int option" where
  "waiting r c m = zset_score (zsets r (queueKeyPrefix @ c)) (marshal_message m)"

definition in_flight :: "redis \<Rightarrow> Channel \<Rightarrow> QueueMessage set" where
  "in_flight r c = {m. marshal_message m \<in> set (rsets r (processingKeyPrefix @ c))}"

text \<open>Every member of a queue or processing set is the text of a message of that channel.\<close>

definition queue_ok :: "redis \<Rightarrow> bool" where
  "queue_ok r \<longleftrightarrow>
     redis_ok r \<and>
     (\<forall>c. \<forall>e\<in>set (zsets r (queueKeyPrefix @ c)). \<exists>m. zmember e = marshal_message m \<and> QChannel m = c) \<and>
     (\<forall>c. \<forall>x\<in>set (rsets r (processingKeyPrefix @ c)). \<exists>m. x = marshal_message m \<and> QChannel m = c)"

lemma queue_ok_empty [simp]: "queue_ok redis_empty"
  by (simp add: queue_ok_def) (simp add: redis_empty_def)

lemma queue_ok_redis: "queue_ok r \<Longrightarrow> redis_ok r"
  by (simp add: queue_ok_def)

lemma queue_ok_zset: "queue_ok r \<Longrightarrow> zset_ok (zsets r k)"
  by (simp add: queue_ok_redis redis_ok_zset)

lemma queue_ok_zadd [keeps]: "queue_ok r \<Longrightarrow> queue_ok (zadd_message now m r)"
  by (auto simp: queue_ok_def zadd_message_def Let_def zset_add_def zset_rem_def set_insort_key
      redis_ok_def zset_ok_add [unfolded zset_add_def zset_rem_def])

lemma queue_ok_Enqueue [keeps]: "queue_ok r \<Longrightarrow> queue_ok (snd (Enqueue f now m r))"
  using exec_keeps [where I = queue_ok and s = r and f = f
      and stmt = "\<lambda>r. Inr ((), zadd_message now m r)"]
  by (auto simp: Enqueue_def keeps split: prod.splits)

lemma queue_ok_EnqueueBatch [keeps]: "queue_ok r \<Longrightarrow> queue_ok (snd (EnqueueBatch f now ms r))"
  unfolding EnqueueBatch_def by (rule pipeline_keeps [where I = queue_ok]) (auto simp: keeps)

lemma queue_ok_script [keeps]:
  "queue_ok r \<Longrightarrow> queue_ok (snd (dequeueScript (queueKeyPrefix @ c) (processingKeyPrefix @ c) r))"
proof (cases "zset_first (zsets r (queueKeyPrefix @ c))")
  case (Some member)
  then obtain e z where z: "zsets r (queueKeyPrefix @ c) = e # z" "member = zmember e"
    by (cases "zsets r (queueKeyPrefix @ c)") auto
  assume ok: "queue_ok r"
  have zok: "zset_ok (zset_rem member (zsets r (queueKeyPrefix @ c)))"
    using ok by (simp add: keeps queue_ok_zset)
  have "\<exists>m. member = marshal_message m \<and> QChannel m = c"
    using ok z unfolding queue_ok_def by (metis list.set_intros(1))
  then show ?thesis
    using ok zok Some
    by (auto simp: queue_ok_def dequeueScript_def redis_ok_def keeps zset_rem_def)
qed (simp add: dequeueScript_def)

section \<open>The contract of the queue\<close>

text \<open>
  The calls that succeed, seen through the scores of the waiting messages and the set of those
  in flight.
\<close>

primrec drain ::
    "(Channel \<Rightarrow> 'q \<Rightarrow> QueueMessage option \<times> 'q) \<Rightarrow> Channel \<Rightarrow> nat \<Rightarrow> 'q \<Rightarrow> QueueMessage list \<times> 'q" where
  "drain deq c 0 q = ([], q)"
| "drain deq c (Suc n) q =
     (case deq c q of
        (None, q) \<Rightarrow> ([], q)
      | (Some m, q) \<Rightarrow> (case drain deq c n q of (ms, q) \<Rightarrow> (m # ms, q)))"

locale message_queue =
  fixes enq :: "time \<Rightarrow> QueueMessage \<Rightarrow> 'q \<Rightarrow> 'q"
    and deq :: "Channel \<Rightarrow> 'q \<Rightarrow> QueueMessage option \<times> 'q"
    and ack :: "Channel \<Rightarrow> string \<Rightarrow> 'q \<Rightarrow> 'q"
    and wait :: "'q \<Rightarrow> Channel \<Rightarrow> QueueMessage \<Rightarrow> int option"
    and flight :: "'q \<Rightarrow> Channel \<Rightarrow> QueueMessage set"
    and ok :: "'q \<Rightarrow> bool"
  assumes wait_enq: "ok q \<Longrightarrow> wait (enq t m q) c =
          (if c = QChannel m then (wait q c)(m \<mapsto> calcScore (QPriority m) t) else wait q c)"
    and flight_enq: "flight (enq t m q) c = flight q c"
    and deq_None: "ok q \<Longrightarrow> deq c q = (None, q') \<Longrightarrow> wait q c = Map.empty \<and> q' = q"
    and deq_least: "ok q \<Longrightarrow> deq c q = (Some m, q') \<Longrightarrow>
          \<exists>s. wait q c m = Some s \<and> (\<forall>m' s'. wait q c m' = Some s' \<longrightarrow> s \<le> s')"
    and wait_deq: "ok q \<Longrightarrow> deq c q = (Some m, q') \<Longrightarrow>
          wait q' c' = (if c' = c then (wait q c)(m := None) else wait q c')"
    and flight_deq: "ok q \<Longrightarrow> deq c q = (Some m, q') \<Longrightarrow>
          flight q' c' = (if c' = c then insert m (flight q c) else flight q c')"
    and wait_ack: "wait (ack c i q) c' = wait q c'"
    and flight_ack: "ok q \<Longrightarrow> flight (ack c i q) c \<subseteq> flight q c"
    and flight_ack_keeps: "ok q \<Longrightarrow> m \<in> flight q c' \<Longrightarrow> c' \<noteq> c \<or> QNotificationID m \<noteq> i \<Longrightarrow>
          m \<in> flight (ack c i q) c'"
    and flight_ack_removes: "ok q \<Longrightarrow> m \<in> flight q c \<Longrightarrow> QNotificationID m = i \<Longrightarrow>
          (\<And>m'. m' \<in> flight q c \<Longrightarrow> QNotificationID m' = i \<Longrightarrow> m' = m) \<Longrightarrow> m \<notin> flight (ack c i q) c"
    and finite_wait: "ok q \<Longrightarrow> finite (dom (wait q c))"
    and ok_enq: "ok q \<Longrightarrow> ok (enq t m q)"
    and ok_deq: "ok q \<Longrightarrow> ok (snd (deq c q))"
    and ok_ack: "ok q \<Longrightarrow> ok (ack c i q)"
begin

lemma deq_no_loss:
  assumes "ok q"
  shows "dom (wait (snd (deq c q)) c') \<union> flight (snd (deq c q)) c' = dom (wait q c') \<union> flight q c'"
proof (cases "deq c q")
  case (Pair mo q')
  show ?thesis
  proof (cases mo)
    case None
    with deq_None [OF assms, of c q'] Pair show ?thesis by simp
  next
    case (Some m)
    obtain s where "wait q c m = Some s"
      using deq_least [OF assms] Pair Some by blast
    then show ?thesis
      using wait_deq [OF assms, of c m q' c'] flight_deq [OF assms, of c m q' c'] Pair Some by auto
  qed
qed

lemma deq_then_ack:
  assumes "ok q" "deq c q = (Some m, q')"
    and "\<And>m'. m' \<in> flight q c \<Longrightarrow> QNotificationID m' \<noteq> QNotificationID m"
  shows "flight (ack c (QNotificationID m) q') c = flight q c"
proof -
  have ok': "ok q'"
    using ok_deq [OF assms(1), of c] assms(2) by simp
  have fl: "flight q' c = insert m (flight q c)"
    using flight_deq [OF assms(1,2)] by simp
  have "m \<notin> flight (ack c (QNotificationID m) q') c"
    using assms(3) fl by (intro flight_ack_removes [OF ok']) auto
  moreover have "flight q c \<subseteq> flight (ack c (QNotificationID m) q') c"
    using flight_ack_keeps [OF ok'] fl assms(3) by auto
  ultimately show ?thesis
    using flight_ack [OF ok', of c "QNotificationID m"] fl by auto
qed

lemma drain_all:
  assumes "ok q" "card (dom (wait q c)) \<le> n" "drain deq c n q = (ms, q')"
  shows "set ms = dom (wait q c) \<and> distinct ms \<and> wait q' c = Map.empty \<and>
         sorted_wrt (\<lambda>m m'. the (wait q c m) \<le> the (wait q c m')) ms"
  using assms
proof (induction n arbitrary: q ms)
  case 0
  then show ?case
    using finite_wait [OF \<open>ok q\<close>] by (auto simp: fun_eq_iff domIff)
next
  case (Suc n)
  show ?case
  proof (cases "deq c q")
    case (Pair mo q1)
    show ?thesis
    proof (cases mo)
      case None
      with deq_None [OF Suc.prems(1), of c q1] Pair Suc.prems(3) show ?thesis by auto
    next
      case (Some m)
      obtain ms1 where ms1: "drain deq c n q1 = (ms1, q')" "ms = m # ms1"
        using Suc.prems(3) Pair Some by (auto split: prod.splits)
      have q1: "ok q1" "wait q1 c = (wait q c)(m := None)"
        using ok_deq [OF Suc.prems(1), of c] wait_deq [OF Suc.prems(1), of c m q1] Pair Some by auto
      obtain s where s: "wait q c m = Some s" "\<And>m' s'. wait q c m' = Some s' \<Longrightarrow> s \<le> s'"
        using deq_least [OF Suc.prems(1)] Pair Some by blast
      have dom1: "dom (wait q1 c) = dom (wait q c) - {m}"
        by (auto simp: q1)
      then have "card (dom (wait q1 c)) \<le> n"
        using Suc.prems(2) s(1) finite_wait [OF Suc.prems(1), of c]
        by (simp add: card_Diff_singleton_if domI)
      note IH = Suc.IH [OF q1(1) this ms1(1)]
      have mem: "m \<in> dom (wait q c)"
        using s(1) by auto
      have le: "the (wait q c m) \<le> the (wait q c x)" if "x \<in> set ms1" for x
      proof -
        from that IH dom1 obtain s' where "wait q c x = Some s'" by auto
        with s show ?thesis by simp
      qed
      have eq: "the (wait q1 c x) = the (wait q c x)" if "x \<in> set ms1" for x
        using that IH dom1 by (auto simp: q1)
      have "sorted_wrt (\<lambda>m m'. the (wait q1 c m) \<le> the (wait q1 c m')) ms1"
        using IH by simp
      then have "sorted_wrt (\<lambda>m m'. the (wait q c m) \<le> the (wait q c m')) ms1"
        by (rule sorted_wrt_mono_rel [rotated]) (simp add: eq)
      then show ?thesis
        using IH mem le dom1 ms1(2) by auto
    qed
  qed
qed

end

section \<open>The Redis queue keeps the contract\<close>

lemma waiting_zadd:
  assumes "queue_ok r"
  shows "waiting (zadd_message t m r) c =
         (if c = QChannel m then (waiting r c)(m \<mapsto> calcScore (QPriority m) t) else waiting r c)"
proof (cases "c = QChannel m")
  case True
  show ?thesis
    by (rule ext)
       (use assms True in \<open>auto simp: waiting_def zadd_message_def Let_def zset.score_zadd queue_ok_zset\<close>)
next
  case False
  then show ?thesis
    by (auto simp: waiting_def zadd_message_def Let_def fun_eq_iff)
qed

lemma in_flight_zadd [simp]: "in_flight (zadd_message t m r) c = in_flight r c"
  by (simp add: in_flight_def zadd_message_def Let_def)

lemma waiting_member:
  assumes "queue_ok r" "zset_score (zsets r (queueKeyPrefix @ c)) x = Some s"
  obtains m where "x = marshal_message m" "QChannel m = c" "waiting r c m = Some s"
proof -
  have "ZEntry s x \<in> set (zsets r (queueKeyPrefix @ c))"
    using zset_score_in [OF queue_ok_zset [OF assms(1)]] assms(2) by simp
  then obtain m where "x = marshal_message m" "QChannel m = c"
    using assms(1) unfolding queue_ok_def by fastforce
  with assms(2) that show ?thesis by (simp add: waiting_def)
qed

lemma waiting_channel: "queue_ok r \<Longrightarrow> waiting r c m = Some s \<Longrightarrow> QChannel m = c"
  unfolding waiting_def by (erule waiting_member) auto

lemma in_flight_channel: "queue_ok r \<Longrightarrow> m \<in> in_flight r c \<Longrightarrow> QChannel m = c"
  unfolding in_flight_def queue_ok_def by fastforce

text \<open>What a successful call of \<open>Dequeue\<close> finds and does.\<close>

definition deq_ok :: "Channel \<Rightarrow> redis \<Rightarrow> QueueMessage option \<times> redis" where
  "deq_ok c r = (case Dequeue None c r of (Inr mo, r') \<Rightarrow> (mo, r') | (Inl _, r') \<Rightarrow> (None, r'))"

lemma Dequeue_None_empty:
  assumes "zset_first (zsets r (queueKeyPrefix @ c)) = None"
  shows "Dequeue None c r = (Inr None, r)"
  using assms by (simp add: Dequeue_def dequeueScript_def Let_def)

lemma Dequeue_None_first:
  assumes "queue_ok r" "zset_first (zsets r (queueKeyPrefix @ c)) = Some x"
  obtains m where "x = marshal_message m" "QChannel m = c"
    and "Dequeue None c r = (Inr (Some m),
           r\<lparr>zsets := (zsets r)(queueKeyPrefix @ c := zset_rem x (zsets r (queueKeyPrefix @ c))),
             rsets := (rsets r)(processingKeyPrefix @ c := sadd x (rsets r (processingKeyPrefix @ c)))\<rparr>)"
proof -
  obtain s where "zset_score (zsets r (queueKeyPrefix @ c)) x = Some s"
    using zset_first_least [OF queue_ok_zset [OF assms(1)] assms(2)] by blast
  then obtain m where "x = marshal_message m" "QChannel m = c"
    by (rule waiting_member [OF assms(1)])
  then show ?thesis
    using that assms(2) by (simp add: Dequeue_def dequeueScript_def Let_def)
qed

lemma Dequeue_never_errs: "queue_ok r \<Longrightarrow> \<exists>mo r'. Dequeue None c r = (Inr mo, r')"
  using Dequeue_None_empty Dequeue_None_first by (metis not_None_eq)

definition ack_ok :: "Channel \<Rightarrow> string \<Rightarrow> redis \<Rightarrow> redis" where
  "ack_ok c i r = snd (Acknowledge None None c i r)"

lemma find_names:
  assumes "find (names_notification i) xs = Some x" "\<forall>x\<in>set xs. \<exists>m. x = marshal_message m"
  obtains m where "x = marshal_message m" "QNotificationID m = i" "x \<in> set xs"
  using find_SomeD [OF assms(1)] assms(2) that by (fastforce simp: names_notification_def)

lemma Acknowledge_ok:
  "Acknowledge None None c i r =
     (None, case find (names_notification i) (rsets r (processingKeyPrefix @ c)) of
              None \<Rightarrow> r
            | Some x \<Rightarrow> r\<lparr>rsets := (rsets r)(processingKeyPrefix @ c :=
                          srem x (rsets r (processingKeyPrefix @ c)))\<rparr>)"
  by (simp add: Acknowledge_def Let_def split: option.split)

lemma queue_ok_srem:
  assumes "queue_ok r"
  shows "queue_ok (r\<lparr>rsets := (rsets r)(k := srem x (rsets r k))\<rparr>)"
  using assms by (auto simp: queue_ok_def redis_ok_def keeps)

lemma queue_ok_Acknowledge [keeps]:
  assumes "queue_ok r"
  shows "queue_ok (snd (Acknowledge f1 f2 c i r))"
proof -
  let ?k = "processingKeyPrefix @ c"
  have "queue_ok (snd (exec f2 (\<lambda>r. Inr ((), r\<lparr>rsets := (rsets r)(?k := srem x (rsets r ?k))\<rparr>)) r))" for x
    by (rule exec_keeps [where I = queue_ok, OF assms]) (auto simp: queue_ok_srem assms)
  then have upd: "queue_ok (snd (case exec f2 (\<lambda>r. Inr ((), r\<lparr>rsets := (rsets r)(?k := srem x (rsets r ?k))\<rparr>)) r
      of (res, r) \<Rightarrow> (err_of res, r)))" for x
    by (simp add: case_prod_beta)
  show ?thesis
  proof (cases "query f1 (rsets r ?k)")
    case (Inl e)
    with assms show ?thesis by (simp add: Acknowledge_def)
  next
    case (Inr members)
    with assms upd show ?thesis
      by (cases "find (names_notification i) members") (simp_all add: Acknowledge_def Let_def)
  qed
qed

lemma queue_ok_Dequeue [keeps]:
  assumes "queue_ok r"
  shows "queue_ok (snd (Dequeue f c r))"
proof -
  let ?stmt = "\<lambda>r. Inr (dequeueScript (queueKeyPrefix @ c) (processingKeyPrefix @ c) r)
      :: err + string option \<times> redis"
  have "queue_ok (snd (exec f ?stmt r))"
    by (rule exec_keeps [where I = queue_ok, OF assms])
       (metis Inr_inject assms queue_ok_script snd_conv)
  then show ?thesis
    by (auto simp: Dequeue_def Let_def split: prod.split option.split)
qed

interpretation redis_queue: message_queue zadd_message deq_ok ack_ok waiting in_flight queue_ok
proof unfold_locales
  fix q q' :: redis and c c' :: Channel and m :: QueueMessage and t :: time and i :: string
  show "in_flight (zadd_message t m q) c = in_flight q c"
    by simp
  show "waiting (ack_ok c i q) c' = waiting q c'"
    by (auto simp: ack_ok_def Acknowledge_ok waiting_def fun_eq_iff split: option.split)
  assume ok: "queue_ok q"
  show "waiting (zadd_message t m q) c =
      (if c = QChannel m then (waiting q c)(m \<mapsto> calcScore (QPriority m) t) else waiting q c)"
    using ok by (rule waiting_zadd)
  show "waiting q c = Map.empty \<and> q' = q" if "deq_ok c q = (None, q')"
  proof (cases "zset_first (zsets q (queueKeyPrefix @ c))")
    case None
    with that have "q' = q"
      by (simp add: deq_ok_def Dequeue_None_empty)
    moreover have "zset_score (zsets q (queueKeyPrefix @ c)) = Map.empty"
      using zset.zfirst_None [OF queue_ok_zset [OF ok]] None by blast
    ultimately show ?thesis
      by (simp add: waiting_def fun_eq_iff)
  next
    case (Some x)
    obtain m' where "Dequeue None c q = (Inr (Some m'),
         q\<lparr>zsets := (zsets q)(queueKeyPrefix @ c := zset_rem x (zsets q (queueKeyPrefix @ c))),
           rsets := (rsets q)(processingKeyPrefix @ c := sadd x (rsets q (processingKeyPrefix @ c)))\<rparr>)"
      by (rule Dequeue_None_first [OF ok Some])
    with that show ?thesis
      by (simp add: deq_ok_def)
  qed
  have first: "\<exists>x. zset_first (zsets q (queueKeyPrefix @ c)) = Some x \<and> x = marshal_message m \<and>
      q' = q\<lparr>zsets := (zsets q)(queueKeyPrefix @ c := zset_rem x (zsets q (queueKeyPrefix @ c))),
             rsets := (rsets q)(processingKeyPrefix @ c := sadd x (rsets q (processingKeyPrefix @ c)))\<rparr>"
    if "deq_ok c q = (Some m, q')"
  proof (cases "zset_first (zsets q (queueKeyPrefix @ c))")
    case None
    with that show ?thesis
      by (simp add: deq_ok_def Dequeue_None_empty)
  next
    case (Some x)
    obtain m' where "x = marshal_message m'" "Dequeue None c q = (Inr (Some m'),
         q\<lparr>zsets := (zsets q)(queueKeyPrefix @ c := zset_rem x (zsets q (queueKeyPrefix @ c))),
           rsets := (rsets q)(processingKeyPrefix @ c := sadd x (rsets q (processingKeyPrefix @ c)))\<rparr>)"
      by (rule Dequeue_None_first [OF ok Some])
    with that Some show ?thesis
      by (auto simp: deq_ok_def)
  qed
  show "\<exists>s. waiting q c m = Some s \<and> (\<forall>m' s'. waiting q c m' = Some s' \<longrightarrow> s \<le> s')"
    if "deq_ok c q = (Some m, q')"
    using first [OF that] zset.zfirst_least [OF queue_ok_zset [OF ok]]
      zset.zfirst_Some [OF queue_ok_zset [OF ok]]
    unfolding waiting_def by (metis option.inject)
  show "waiting q' c' = (if c' = c then (waiting q c)(m := None) else waiting q c')"
    if "deq_ok c q = (Some m, q')"
    using first [OF that] by (auto simp: waiting_def fun_eq_iff zset.score_zrem queue_ok_zset ok)
  show "in_flight q' c' = (if c' = c then insert m (in_flight q c) else in_flight q c')"
    if "deq_ok c q = (Some m, q')"
    using first [OF that] by (auto simp: in_flight_def)
  have members: "\<forall>x\<in>set (rsets q (processingKeyPrefix @ c)). \<exists>m. x = marshal_message m"
    using ok unfolding queue_ok_def by blast
  show "in_flight (ack_ok c i q) c \<subseteq> in_flight q c"
    by (auto simp: ack_ok_def Acknowledge_ok in_flight_def split: option.splits)
  show "m \<in> in_flight (ack_ok c i q) c'"
    if "m \<in> in_flight q c'" "c' \<noteq> c \<or> QNotificationID m \<noteq> i"
    using that
    by (auto simp: ack_ok_def Acknowledge_ok in_flight_def elim!: find_names [OF _ members] split: option.splits)
  show "m \<notin> in_flight (ack_ok c i q) c"
    if "m \<in> in_flight q c" "QNotificationID m = i"
      and uniq: "\<And>m'. m' \<in> in_flight q c \<Longrightarrow> QNotificationID m' = i \<Longrightarrow> m' = m"
  proof (cases "find (names_notification i) (rsets q (processingKeyPrefix @ c))")
    case None
    then have "\<not> names_notification i (marshal_message m)"
      using that(1) by (auto simp: find_None_iff in_flight_def)
    with that(2) show ?thesis by (simp add: names_notification_def)
  next
    case (Some x)
    then obtain m' where "x = marshal_message m'" "QNotificationID m' = i"
        "x \<in> set (rsets q (processingKeyPrefix @ c))"
      by (rule find_names [OF _ members])
    with uniq [of m'] have "x = marshal_message m"
      by (simp add: in_flight_def)
    with Some show ?thesis
      by (simp add: ack_ok_def Acknowledge_ok in_flight_def)
  qed
  show "finite (dom (waiting q c))"
  proof -
    have "finite (marshal_message -` dom (zset_score (zsets q (queueKeyPrefix @ c))))"
      by (rule finite_vimageI) (simp_all add: zset.finite_score queue_ok_zset ok inj_def)
    moreover have "dom (waiting q c) = marshal_message -` dom (zset_score (zsets q (queueKeyPrefix @ c)))"
      by (auto simp: waiting_def)
    ultimately show ?thesis by simp
  qed
  show "queue_ok (zadd_message t m q)"
    using ok by (rule queue_ok_zadd)
  show "queue_ok (snd (deq_ok c q))"
    using queue_ok_Dequeue [OF ok, of None c] by (auto simp: deq_ok_def split: prod.split sum.split)
  show "queue_ok (ack_ok c i q)"
    using ok by (simp add: ack_ok_def keeps)
qed

lemma Dequeue_state:
  "queue_ok r \<Longrightarrow> snd (Dequeue f c r) = r \<or> snd (Dequeue f c r) = snd (deq_ok c r)"
  using Dequeue_never_errs [of r c]
  by (auto simp: Dequeue_def deq_ok_def exec_def Let_def split: prod.splits option.splits sum.splits)

lemma Dequeue_message:
  assumes "queue_ok r" "Dequeue f c r = (Inr (Some m), r')"
  shows "f = None" "deq_ok c r = (Some m, r')" "\<exists>s. waiting r c m = Some s" "QChannel m = c"
proof -
  show f: "f = None"
    using assms(2) by (auto simp: Dequeue_def exec_def Let_def split: prod.splits option.splits sum.splits)
  then show d: "deq_ok c r = (Some m, r')" using assms(2) by (simp add: deq_ok_def)
  show "\<exists>s. waiting r c m = Some s"
    using redis_queue.deq_least [OF assms(1) d] by blast
  then show "QChannel m = c" using waiting_channel [OF assms(1)] by blast
qed

section \<open>Commands that are sent again\<close>

text \<open>
  The client library sends a command again when its answer is lost, up to three times. That does
  no harm to an \<open>Enqueue\<close> and to an \<open>Acknowledge\<close>; a script of \<open>Dequeue\<close> that ran twice has taken a
  message that nobody gets, and that stays among those being processed.
\<close>

lemma zset_add_again: "zset_ok z \<Longrightarrow> zset_add s m (zset_add s m z) = zset_add s m z"
proof -
  assume "zset_ok z"
  then have "sorted (zset_rem m z)" using zset_ok_rem by (auto simp: zset_ok_def)
  then have "filter (\<lambda>e. zmember e \<noteq> m) (insort (ZEntry s m) (zset_rem m z)) = zset_rem m z"
    using filter_insort_triv [of "\<lambda>e. zmember e \<noteq> m" "ZEntry s m" "\<lambda>e. e" "zset_rem m z"]
    by (simp add: zset_rem_def)
  then show ?thesis by (simp add: zset_add_def zset_rem_def)
qed

lemma enqueue_again: "queue_ok r \<Longrightarrow> zadd_message t m (zadd_message t m r) = zadd_message t m r"
  by (simp add: zadd_message_def Let_def zset_add_again queue_ok_zset)

lemma srem_again: "srem m (srem m s) = srem m s"
  by (simp add: srem_def)

lemma dequeue_again_loses:
  assumes ok: "queue_ok r" and q: "q = queueKeyPrefix @ c" "p = processingKeyPrefix @ c"
    and first: "dequeueScript q p r = (Some a, r1)" and second: "dequeueScript q p r1 = (res, r2)"
  shows "res \<noteq> Some a" "a \<in> set (rsets r2 p)" "zset_score (zsets r2 q) a = None"
proof -
  let ?z = "zset_rem a (zsets r q)"
  have r1: "zsets r1 q = ?z" "a \<in> set (rsets r1 p)"
    using first by (auto simp: dequeueScript_def split: option.splits)
  have gone: "a \<notin> zmember ` set ?z" by (auto simp: zset_rem_def)
  then show "res \<noteq> Some a"
    using second r1(1) by (cases ?z) (auto simp: dequeueScript_def)
  show "a \<in> set (rsets r2 p)"
    using second r1(2) by (auto simp: dequeueScript_def split: option.splits)
  have "a \<notin> zmember ` set (zsets r2 q)"
    using second r1(1) gone by (auto simp: dequeueScript_def zset_rem_def split: option.splits)
  then show "zset_score (zsets r2 q) a = None" by (simp add: zset_score_None)
qed

section \<open>Scores\<close>

text \<open>
  Times the score's arithmetic is exact for and that leave each priority a band of its own:
  from 1970 until \<open>10 ^ 13\<close> milliseconds later, in the year 2286.
\<close>

definition score_time :: "time \<Rightarrow> bool" where
  "score_time t \<longleftrightarrow> 0 \<le> t \<and> t < 10 ^ 19"

lemma score_time_ms: "score_time t \<Longrightarrow> 0 \<le> t sdiv 1000000 \<and> t sdiv 1000000 < 10 ^ 13"
  by (auto simp: score_time_def signed_divide_int_def sgn_if)

lemma calcScore_band:
  "score_time t \<Longrightarrow> calcScore p t div 10 ^ 13 = p \<and> calcScore p t mod 10 ^ 13 = t sdiv 1000000"
  using score_time_ms [of t] by (simp add: calcScore_def div_add1_eq)

lemma calcScore_exact:
  assumes "score_time t" "valid_priority p"
  shows "0 \<le> calcScore p t \<and> calcScore p t < 2 ^ 53"
  using assms score_time_ms [of t] by (auto simp: calcScore_def valid_priority_def priority_defs)

definition scores_ok :: "redis \<Rightarrow> bool" where
  "scores_ok r \<longleftrightarrow>
     (\<forall>c m s. waiting r c m = Some s \<longrightarrow> (\<exists>t. score_time t \<and> s = calcScore (QPriority m) t))"

lemma scores_ok_empty [simp]: "scores_ok redis_empty"
  by (simp add: scores_ok_def waiting_def redis_empty_def zset_score_def)

lemma scores_ok_zadd [keeps]:
  "queue_ok r \<Longrightarrow> scores_ok r \<Longrightarrow> score_time t \<Longrightarrow> scores_ok (zadd_message t m r)"
  unfolding scores_ok_def by (auto simp: waiting_zadd split: if_splits)

lemma scores_ok_deq [keeps]:
  assumes "queue_ok r" "scores_ok r"
  shows "scores_ok (snd (deq_ok c r))"
proof (cases "deq_ok c r")
  case (Pair mo r')
  show ?thesis
  proof (cases mo)
    case None
    with redis_queue.deq_None [OF assms(1), of c r'] Pair assms(2) show ?thesis by simp
  next
    case (Some m)
    have "waiting r' c' m' = Some s \<Longrightarrow> waiting r c' m' = Some s" for c' m' s
      using redis_queue.wait_deq [OF assms(1), of c m r' c'] Pair Some by (auto split: if_splits)
    with assms(2) Pair show ?thesis
      unfolding scores_ok_def by fastforce
  qed
qed

section \<open>Properties of the queue\<close>


text \<open>
  Draining: as many calls of \<open>Dequeue\<close> as there are waiting messages return every one of
  them, each once, in the order of their scores, and leave the queue empty.
\<close>

theorem drain_in_order:
  assumes "queue_ok r" "card (dom (waiting r c)) \<le> n" "drain deq_ok c n r = (ms, r')"
  shows "set ms = dom (waiting r c) \<and> distinct ms \<and> waiting r' c = Map.empty \<and>
         sorted_wrt (\<lambda>m m'. the (waiting r c m) \<le> the (waiting r c m')) ms"
  using assms by (rule redis_queue.drain_all)

text \<open>
  Nothing is lost between the queue and the processing set: whether the script's call
  fails, before or after it ran, every message that was waiting or in flight still is, on every
  channel, and no other message is. But a failed call is never reported: it looks like an empty
  queue.
\<close>

theorem dequeue_keeps_messages:
  assumes "queue_ok r"
  shows "dom (waiting (snd (Dequeue f c r)) c') \<union> in_flight (snd (Dequeue f c r)) c' =
         dom (waiting r c') \<union> in_flight r c' \<and>
         (f \<noteq> None \<longrightarrow> fst (Dequeue f c r) = Inr None)"
proof -
  note Dequeue_state [OF assms, of f c]
  then have "dom (waiting (snd (Dequeue f c r)) c') \<union> in_flight (snd (Dequeue f c r)) c' =
         dom (waiting r c') \<union> in_flight r c'"
    using redis_queue.deq_no_loss [OF assms, of c c'] by metis
  moreover have "fst (Dequeue f c r) = Inr None" if "f \<noteq> None"
    using that by (auto simp: Dequeue_def exec_def Let_def split: prod.splits)
  ultimately show ?thesis by blast
qed

text \<open>
  A message taken and acknowledged leaves the processing set as it was, provided no other
  message in flight on the channel bears its notification's id.
\<close>

theorem dequeue_then_acknowledge:
  assumes "queue_ok r" "Dequeue None c r = (Inr (Some m), r')"
    and "\<forall>m'\<in>in_flight r c. QNotificationID m' \<noteq> QNotificationID m"
  shows "fst (Acknowledge None None c (QNotificationID m) r') = None \<and>
         in_flight (snd (Acknowledge None None c (QNotificationID m) r')) c = in_flight r c"
proof -
  have deq: "deq_ok c r = (Some m, r')"
    by (simp add: deq_ok_def assms(2))
  have "in_flight (snd (Acknowledge None None c (QNotificationID m) r')) c = in_flight r c"
    using redis_queue.deq_then_ack [OF assms(1) deq] assms(3) by (simp add: ack_ok_def)
  then show ?thesis
    by (simp add: Acknowledge_ok)
qed

section \<open>A sample queue\<close>

text \<open>
  Two messages of the sms channel, the urgent one enqueued last: the concrete queue at which
  the properties above are instantiated.
\<close>

definition sample_message :: "string \<Rightarrow> int \<Rightarrow> QueueMessage" where
  "sample_message i p =
     \<lparr>QNotificationID = i, QChannel = ChannelSMS, QPriority = p, TraceParent = []\<rparr>"

definition sample_queue :: redis where
  "sample_queue =
     zadd_message 7000000 (sample_message ''b'' 0) (zadd_message 5000000 (sample_message ''a'' 2) redis_empty)"

lemma sample_queue_ok [simp]: "queue_ok sample_queue" "scores_ok sample_queue"
  by (simp_all add: sample_queue_def keeps score_time_def)

lemma sample_message_eq [simp]: "sample_message i p = sample_message j q \<longleftrightarrow> i = j \<and> p = q"
  by (auto simp: sample_message_def)

lemma sample_queue_zset:
  "zsets sample_queue (queueKeyPrefix @ ChannelSMS) =
     [ZEntry 7 (marshal_message (sample_message ''b'' 0)),
      ZEntry 20000000000005 (marshal_message (sample_message ''a'' 2))]"
  by (simp add: sample_queue_def zadd_message_def Let_def sample_message_def redis_empty_def
      zset_add_def zset_rem_def calcScore_def signed_divide_int_def less_eq_zentry_def)

lemma sample_queue_dequeue:
  "\<exists>r'. Dequeue None ChannelSMS sample_queue = (Inr (Some (sample_message ''b'' 0)), r')"
  by (simp add: Dequeue_def dequeueScript_def sample_queue_zset Let_def)

lemma sample_queue_waiting: "dom (waiting sample_queue ChannelSMS) = {sample_message ''a'' 2, sample_message ''b'' 0}"
  by (auto simp: sample_queue_def redis_queue.wait_enq keeps)
     (auto simp: sample_message_def waiting_def redis_empty_def zset_score_def)

lemma sample_queue_in_flight: "in_flight sample_queue c = {}"
  by (simp add: sample_queue_def) (simp add: in_flight_def redis_empty_def)


theorem drain_in_order_witness:
  "\<exists>ms r'. drain deq_ok ChannelSMS 2 sample_queue = (ms, r') \<and>
     set ms = {sample_message ''a'' 2, sample_message ''b'' 0}"
proof -
  obtain ms r' where d: "drain deq_ok ChannelSMS 2 sample_queue = (ms, r')"
    by (cases "drain deq_ok ChannelSMS 2 sample_queue")
  have "card (dom (waiting sample_queue ChannelSMS)) \<le> 2"
    by (simp add: sample_queue_waiting)
  with drain_in_order [OF sample_queue_ok(1) _ d] d show ?thesis
    by (auto simp: sample_queue_waiting)
qed

theorem dequeue_keeps_messages_witness:
  "dom (waiting (snd (Dequeue (Some (Text ''timeout'', 1)) ChannelSMS sample_queue)) ChannelSMS) \<union>
   in_flight (snd (Dequeue (Some (Text ''timeout'', 1)) ChannelSMS sample_queue)) ChannelSMS =
     {sample_message ''a'' 2, sample_message ''b'' 0}"
  using dequeue_keeps_messages [OF sample_queue_ok(1), of "Some (Text ''timeout'', 1)" ChannelSMS ChannelSMS]
  by (simp add: sample_queue_waiting sample_queue_in_flight)

theorem dequeue_then_acknowledge_witness:
  "\<exists>r'. Dequeue None ChannelSMS sample_queue = (Inr (Some (sample_message ''b'' 0)), r') \<and>
     in_flight (snd (Acknowledge None None ChannelSMS ''b'' r')) ChannelSMS = {}"
proof -
  obtain r' where d: "Dequeue None ChannelSMS sample_queue = (Inr (Some (sample_message ''b'' 0)), r')"
    using sample_queue_dequeue by blast
  with dequeue_then_acknowledge [OF sample_queue_ok(1) d] show ?thesis
    by (auto simp: sample_queue_in_flight) (simp add: sample_message_def)
qed

end
