(* ===== verification/Circuit_Breaker.thy ===== *)
theory Circuit_Breaker
  imports Domain
begin

text \<open>
  The circuit breaker of \<open>pkg/circuitbreaker/breaker.go\<close>. Each method holds the mutex for its
  whole body, so a breaker's history is a sequence of calls, each with the time it reads.
\<close>

section \<open>State and operations\<close>

datatype State = StateClosed | StateOpen | StateHalfOpen

fun State_String :: "State \<Rightarrow> string" where
  "State_String StateClosed = ''closed''"
| "State_String StateOpen = ''open''"
| "State_String StateHalfOpen = ''half_open''"

record CircuitBreaker =
  state :: State
  failureCount :: int
  successCount :: int
  failureThreshold :: int
  successThreshold :: int
  resetTimeout :: duration
  halfOpenMax :: int
  halfOpenCount :: int
  lastFailure :: time

definition cb_New :: "int \<Rightarrow> int \<Rightarrow> int \<Rightarrow> duration \<Rightarrow> CircuitBreaker" where
  "cb_New ft st hm rt =
     \<lparr>state = StateClosed, failureCount = 0, successCount = 0, failureThreshold = ft,
      successThreshold = st, resetTimeout = rt, halfOpenMax = hm, halfOpenCount = 0,
      lastFailure = zero_time\<rparr>"

definition cb_Allow :: "time \<Rightarrow> CircuitBreaker \<Rightarrow> bool \<times> CircuitBreaker" where
  "cb_Allow now cb =
     (case state cb of
        StateClosed \<Rightarrow> (True, cb)
      | StateOpen \<Rightarrow>
          (if time_Sub now (lastFailure cb) > resetTimeout cb
           then (True, cb\<lparr>state := StateHalfOpen, halfOpenCount := 1, successCount := 0\<rparr>)
           else (False, cb))
      | StateHalfOpen \<Rightarrow>
          (if halfOpenCount cb < halfOpenMax cb
           then (True, cb\<lparr>halfOpenCount := halfOpenCount cb + 1\<rparr>)
           else (False, cb)))"

definition cb_RecordSuccess :: "CircuitBreaker \<Rightarrow> CircuitBreaker" where
  "cb_RecordSuccess cb =
     (case state cb of
        StateClosed \<Rightarrow> cb\<lparr>failureCount := 0\<rparr>
      | StateOpen \<Rightarrow> cb
      | StateHalfOpen \<Rightarrow>
          (let cb = cb\<lparr>successCount := successCount cb + 1\<rparr>
           in if successCount cb \<ge> successThreshold cb
              then cb\<lparr>state := StateClosed, failureCount := 0, successCount := 0\<rparr>
              else cb))"

definition cb_RecordFailure :: "time \<Rightarrow> CircuitBreaker \<Rightarrow> CircuitBreaker" where
  "cb_RecordFailure now cb =
     (let cb = cb\<lparr>lastFailure := now\<rparr>
      in case state cb of
           StateClosed \<Rightarrow>
             (let cb = cb\<lparr>failureCount := failureCount cb + 1\<rparr>
              in if failureCount cb \<ge> failureThreshold cb then cb\<lparr>state := StateOpen\<rparr> else cb)
         | StateOpen \<Rightarrow> cb
         | StateHalfOpen \<Rightarrow> cb\<lparr>state := StateOpen, halfOpenCount := 0\<rparr>)"

definition cb_State :: "CircuitBreaker \<Rightarrow> State" where
  "cb_State cb = state cb"

definition cb_Counts :: "CircuitBreaker \<Rightarrow> int \<times> int" where
  "cb_Counts cb = (failureCount cb, successCount cb)"

lemmas cb_defs = cb_Allow_def cb_RecordSuccess_def cb_RecordFailure_def

section \<open>Histories of calls\<close>

datatype cb_event = EvAllow time | EvSuccess | EvFailure time

fun cb_step :: "CircuitBreaker \<Rightarrow> cb_event \<Rightarrow> CircuitBreaker" where
  "cb_step cb (EvAllow now) = snd (cb_Allow now cb)"
| "cb_step cb EvSuccess = cb_RecordSuccess cb"
| "cb_step cb (EvFailure now) = cb_RecordFailure now cb"

abbreviation cb_run :: "CircuitBreaker \<Rightarrow> cb_event list \<Rightarrow> CircuitBreaker" where
  "cb_run \<equiv> foldl cb_step"

text \<open>The answers the \<open>Allow\<close> calls of a history get.\<close>

fun cb_answers :: "CircuitBreaker \<Rightarrow> cb_event list \<Rightarrow> bool list" where
  "cb_answers cb [] = []"
| "cb_answers cb (EvAllow now # es) =
     fst (cb_Allow now cb) # cb_answers (snd (cb_Allow now cb)) es"
| "cb_answers cb (e # es) = cb_answers (cb_step cb e) es"

section \<open>The counters' invariant\<close>

text \<open>
  The counters stay between 0 and their thresholds, so no counter wraps; the configuration is
  never written; and the state says where the counters stand.
\<close>

definition cb_wf :: "CircuitBreaker \<Rightarrow> bool" where
  "cb_wf cb \<longleftrightarrow>
     0 < failureThreshold cb \<and> 0 < successThreshold cb \<and> 0 < halfOpenMax cb \<and>
     0 \<le> failureCount cb \<and> failureCount cb \<le> failureThreshold cb \<and>
     0 \<le> successCount cb \<and> successCount cb < successThreshold cb \<and>
     0 \<le> halfOpenCount cb \<and> halfOpenCount cb \<le> halfOpenMax cb \<and>
     (state cb = StateClosed \<longrightarrow> failureCount cb < failureThreshold cb) \<and>
     (state cb \<noteq> StateClosed \<longrightarrow> failureCount cb = failureThreshold cb) \<and>
     (state cb = StateHalfOpen \<longrightarrow> 0 < halfOpenCount cb)"

lemma cb_wf_New:
  "0 < ft \<Longrightarrow> 0 < st \<Longrightarrow> 0 < hm \<Longrightarrow> cb_wf (cb_New ft st hm rt)"
  by (simp add: cb_wf_def cb_New_def)

lemma cb_wf_Allow [keeps]: "cb_wf cb \<Longrightarrow> cb_wf (snd (cb_Allow now cb))"
  by (auto simp: cb_wf_def cb_Allow_def split: State.split)

lemma cb_wf_RecordSuccess [keeps]: "cb_wf cb \<Longrightarrow> cb_wf (cb_RecordSuccess cb)"
  by (auto simp: cb_wf_def cb_RecordSuccess_def Let_def split: State.split)

lemma cb_wf_RecordFailure [keeps]: "cb_wf cb \<Longrightarrow> cb_wf (cb_RecordFailure now cb)"
  by (auto simp: cb_wf_def cb_RecordFailure_def Let_def split: State.split)

lemma cb_wf_step [keeps]: "cb_wf cb \<Longrightarrow> cb_wf (cb_step cb e)"
  by (cases e) (auto intro: keeps)

interpretation breaker_machine: machine cb_step cb_wf
  by unfold_locales (rule cb_wf_step)

text \<open>Nothing writes a breaker's configuration.\<close>

definition cb_config :: "CircuitBreaker \<Rightarrow> int \<times> int \<times> int \<times> duration" where
  "cb_config cb = (failureThreshold cb, successThreshold cb, halfOpenMax cb, resetTimeout cb)"

lemma cb_config_step [simp]: "cb_config (cb_step cb e) = cb_config cb"
  by (cases e) (auto simp: cb_config_def cb_defs Let_def split: State.split)

lemma cb_config_run [simp]: "cb_config (cb_run cb es) = cb_config cb"
  by (induction es arbitrary: cb) auto

lemma cb_config_New [simp]: "cb_config (cb_New ft st hm rt) = (ft, st, hm, rt)"
  by (simp add: cb_config_def cb_New_def)

section \<open>What a breaker promises\<close>

text \<open>
  The abstract breaker: closed after so many failures in a row, open since a time, or probing
  with so many requests admitted and so many successes seen. It has no stale counters; the
  refinement below says the ones the record still carries are never read.
\<close>

datatype phase = Closed int | Opened time | Probing int int

fun phase_step :: "int \<times> int \<times> int \<times> duration \<Rightarrow> phase \<Rightarrow> cb_event \<Rightarrow> phase" where
  "phase_step (ft, st, hm, rt) (Closed n) (EvAllow t) = Closed n"
| "phase_step (ft, st, hm, rt) (Closed n) EvSuccess = Closed 0"
| "phase_step (ft, st, hm, rt) (Closed n) (EvFailure t) =
     (if n + 1 \<ge> ft then Opened t else Closed (n + 1))"
| "phase_step (ft, st, hm, rt) (Opened u) (EvAllow t) =
     (if time_Sub t u > rt then Probing 1 0 else Opened u)"
| "phase_step (ft, st, hm, rt) (Opened u) EvSuccess = Opened u"
| "phase_step (ft, st, hm, rt) (Opened u) (EvFailure t) = Opened t"
| "phase_step (ft, st, hm, rt) (Probing a k) (EvAllow t) =
     (if a < hm then Probing (a + 1) k else Probing a k)"
| "phase_step (ft, st, hm, rt) (Probing a k) EvSuccess =
     (if k + 1 \<ge> st then Closed 0 else Probing a (k + 1))"
| "phase_step (ft, st, hm, rt) (Probing a k) (EvFailure t) = Opened t"

fun phase_admits :: "int \<times> int \<times> int \<times> duration \<Rightarrow> phase \<Rightarrow> time \<Rightarrow> bool" where
  "phase_admits (ft, st, hm, rt) (Closed n) t \<longleftrightarrow> True"
| "phase_admits (ft, st, hm, rt) (Opened u) t \<longleftrightarrow> time_Sub t u > rt"
| "phase_admits (ft, st, hm, rt) (Probing a k) t \<longleftrightarrow> a < hm"

definition cb_phase :: "CircuitBreaker \<Rightarrow> phase" where
  "cb_phase cb =
     (case state cb of
        StateClosed \<Rightarrow> Closed (failureCount cb)
      | StateOpen \<Rightarrow> Opened (lastFailure cb)
      | StateHalfOpen \<Rightarrow> Probing (halfOpenCount cb) (successCount cb))"

lemma cb_phase_iff:
  "cb_phase cb = Closed n \<longleftrightarrow> state cb = StateClosed \<and> failureCount cb = n"
  "cb_phase cb = Opened u \<longleftrightarrow> state cb = StateOpen \<and> lastFailure cb = u"
  "cb_phase cb = Probing a k \<longleftrightarrow>
     state cb = StateHalfOpen \<and> halfOpenCount cb = a \<and> successCount cb = k"
  by (auto simp: cb_phase_def split: State.splits)

lemma cb_phase_step: "cb_phase (cb_step cb e) = phase_step (cb_config cb) (cb_phase cb) e"
  by (cases e; cases "state cb")
     (auto simp: cb_phase_def cb_config_def cb_defs Let_def)

lemma cb_phase_admits: "fst (cb_Allow now cb) = phase_admits (cb_config cb) (cb_phase cb) now"
  by (cases "state cb") (auto simp: cb_phase_def cb_config_def cb_Allow_def)

fun phase_answers :: "int \<times> int \<times> int \<times> duration \<Rightarrow> phase \<Rightarrow> cb_event list \<Rightarrow> bool list" where
  "phase_answers c p [] = []"
| "phase_answers c p (EvAllow now # es) =
     phase_admits c p now # phase_answers c (phase_step c p (EvAllow now)) es"
| "phase_answers c p (e # es) = phase_answers c (phase_step c p e) es"

lemma cb_phase_run:
  "cb_phase (cb_run cb es) = foldl (phase_step (cb_config cb)) (cb_phase cb) es"
  by (induction es arbitrary: cb) (auto simp: cb_phase_step)

lemma cb_phase_answers: "cb_answers cb es = phase_answers (cb_config cb) (cb_phase cb) es"
proof (induction es arbitrary: cb)
  case Nil
  then show ?case by simp
next
  case (Cons e es)
  then show ?case
    using cb_phase_step [of cb e] cb_config_step [of cb e]
    by (cases e) (auto simp: cb_phase_admits)
qed

text \<open>
  Closed: the failures since the last success, counted over the history.
\<close>

fun count_failure :: "int \<Rightarrow> cb_event \<Rightarrow> int" where
  "count_failure n (EvAllow t) = n"
| "count_failure n EvSuccess = 0"
| "count_failure n (EvFailure t) = n + 1"

definition trailing_failures :: "cb_event list \<Rightarrow> int" where
  "trailing_failures es = foldl count_failure 0 es"

lemma closed_run:
  assumes "0 < ft" "\<And>n. n < length es \<Longrightarrow> foldl count_failure k (take n es) < ft"
  shows "(foldl count_failure k es < ft \<longrightarrow>
            foldl (phase_step (ft, st, hm, rt)) (Closed k) es =
              Closed (foldl count_failure k es)) \<and>
         (\<not> foldl count_failure k es < ft \<longrightarrow> k < ft \<longrightarrow>
            (\<exists>t. last es = EvFailure t \<and>
                foldl (phase_step (ft, st, hm, rt)) (Closed k) es = Opened t))
         \<and> list_all id (phase_answers (ft, st, hm, rt) (Closed k) es)"
  using assms
proof (induction es arbitrary: k)
  case Nil
  then show ?case by simp
next
  case (Cons e es)
  have IH: "\<And>n. n < length es \<Longrightarrow> foldl count_failure (count_failure k e) (take n es) < ft"
    using Cons.prems(2) [of "Suc _"] by simp
  show ?case
  proof (cases "es = []")
    case True
    with Cons.prems(1) show ?thesis by (cases e) auto
  next
    case False
    then have "count_failure k e < ft"
      using IH [of 0] by simp
    then show ?thesis
      using Cons.IH [OF Cons.prems(1) IH] False by (cases e) auto
  qed
qed

text \<open>Open: each \<open>Allow\<close> comes no later than the reset timeout after the last failure.\<close>

fun before_reset :: "duration \<Rightarrow> time \<Rightarrow> cb_event list \<Rightarrow> bool" where
  "before_reset rt u [] \<longleftrightarrow> True"
| "before_reset rt u (EvAllow t # es) \<longleftrightarrow> time_Sub t u \<le> rt \<and> before_reset rt u es"
| "before_reset rt u (EvSuccess # es) \<longleftrightarrow> before_reset rt u es"
| "before_reset rt u (EvFailure t # es) \<longleftrightarrow> before_reset rt t es"

lemma open_run:
  "before_reset rt u es \<Longrightarrow>
     (\<exists>v. foldl (phase_step (ft, st, hm, rt)) (Opened u) es = Opened v) \<and>
     list_all Not (phase_answers (ft, st, hm, rt) (Opened u) es)"
proof (induction es arbitrary: u)
  case Nil
  then show ?case by simp
next
  case (Cons e es)
  then show ?case by (cases e) auto
qed

text \<open>
  Half-open, without a failure: requests are admitted up to the limit, and it takes the success
  threshold to close.
\<close>

fun is_failure :: "cb_event \<Rightarrow> bool" where
  "is_failure (EvFailure t) = True"
| "is_failure _ = False"

fun is_allow :: "cb_event \<Rightarrow> bool" where
  "is_allow (EvAllow t) = True"
| "is_allow _ = False"

definition successes :: "cb_event list \<Rightarrow> int" where
  "successes es = int (count_list es EvSuccess)"

definition admitted :: "bool list \<Rightarrow> int" where
  "admitted bs = int (count_list bs True)"

lemma successes_simps [simp]:
  "successes [] = 0"
  "successes (EvSuccess # es) = successes es + 1"
  "successes (EvAllow t # es) = successes es"
  "successes (EvFailure t # es) = successes es"
  "successes (es @ es') = successes es + successes es'"
  by (simp_all add: successes_def)

lemma successes_nonneg [simp]: "0 \<le> successes es"
  by (simp add: successes_def)

lemma admitted_simps [simp]:
  "admitted [] = 0"
  "admitted (True # bs) = admitted bs + 1"
  "admitted (False # bs) = admitted bs"
  by (simp_all add: admitted_def)

lemma probing_run:
  assumes "a \<le> hm" "list_all (\<lambda>e. \<not> is_failure e) es" "k + successes es < st"
  shows "\<exists>a'. foldl (phase_step (ft, st, hm, rt)) (Probing a k) es = Probing a' (k + successes es) \<and>
           a \<le> a' \<and> a' \<le> hm \<and> admitted (phase_answers (ft, st, hm, rt) (Probing a k) es) = a' - a"
  using assms
proof (induction es arbitrary: a k)
  case Nil
  then show ?case by simp
next
  case (Cons e es)
  show ?case
  proof (cases e)
    case (EvAllow t)
    show ?thesis
    proof (cases "a < hm")
      case True
      with Cons.prems EvAllow Cons.IH [of "a + 1" k] show ?thesis by auto
    next
      case False
      with Cons.prems EvAllow Cons.IH [of a k] show ?thesis by auto
    qed
  next
    case EvSuccess
    have "\<not> st \<le> k + 1"
      using Cons.prems(3) successes_nonneg [of es] EvSuccess by (simp del: successes_nonneg)
    with Cons.prems EvSuccess Cons.IH [of a "k + 1"] show ?thesis
      by (auto simp: algebra_simps)
  next
    case (EvFailure t)
    with Cons.prems show ?thesis by simp
  qed
qed

lemma probing_exhausted:
  "foldl (phase_step (ft, st, hm, rt)) (Probing hm k) (map EvAllow ts) = Probing hm k \<and>
   list_all Not (phase_answers (ft, st, hm, rt) (Probing hm k) (map EvAllow ts))"
  by (induction ts) auto

section \<open>Properties of the breaker\<close>

text \<open>
  C18. For every history of calls, the breaker is in the phase that the abstract breaker reaches
  and gives the same answers: the counters a phase does not use never influence it.
\<close>

theorem breaker_refines_phases:
  "cb_phase (cb_run cb es) = foldl (phase_step (cb_config cb)) (cb_phase cb) es \<and>
   cb_answers cb es = phase_answers (cb_config cb) (cb_phase cb) es"
  by (simp add: cb_phase_run cb_phase_answers)

text \<open>
  C19. A new breaker with positive limits keeps, through any history, its configuration and all
  its counters between 0 and their limits; so no counter overflows, whatever the calls.
\<close>

theorem breaker_counters_bounded:
  assumes "0 < ft" "0 < st" "0 < hm"
  shows "cb_wf (cb_run (cb_New ft st hm rt) es) \<and>
         cb_config (cb_run (cb_New ft st hm rt) es) = (ft, st, hm, rt)"
  using assms by (simp add: breaker_machine.run_inv cb_wf_New)

theorem breaker_counters_bounded_witness:
  "(0::int) < 5 \<and> cb_wf (cb_run (cb_New 5 3 3 30000000000) [EvFailure 1, EvAllow 2, EvSuccess])"
  using breaker_counters_bounded [of 5 3 3 30000000000 "[EvFailure 1, EvAllow 2, EvSuccess]"] by simp

text \<open>
  A new breaker opens exactly when the failures since the last success reach the threshold:
  until then it is closed, counts them, and admits every request; the call that reaches the
  threshold opens it, with the time of that failure.
\<close>

theorem breaker_opens_at_threshold:
  assumes "0 < ft" "\<And>n. n < length es \<Longrightarrow> trailing_failures (take n es) < ft"
  shows "(if trailing_failures es < ft
          then state (cb_run (cb_New ft st hm rt) es) = StateClosed \<and>
               failureCount (cb_run (cb_New ft st hm rt) es) = trailing_failures es
          else \<exists>t. last es = EvFailure t \<and>
               state (cb_run (cb_New ft st hm rt) es) = StateOpen \<and>
               lastFailure (cb_run (cb_New ft st hm rt) es) = t) \<and>
         list_all id (cb_answers (cb_New ft st hm rt) es)"
proof -
  have ph: "cb_phase (cb_New ft st hm rt) = Closed 0"
    by (simp add: cb_phase_iff cb_New_def)
  note run = closed_run [where k = 0, OF assms [unfolded trailing_failures_def]]
  show ?thesis
    using run [of st hm rt] assms(1)
    by (auto simp: cb_phase_answers ph trailing_failures_def cb_phase_iff [symmetric] cb_phase_run)
qed

theorem breaker_opens_at_threshold_witness:
  "state (cb_run (cb_New 2 1 1 10) [EvAllow 1, EvFailure 1, EvFailure 2]) = StateOpen"
proof -
  have "trailing_failures (take n [EvAllow 1, EvFailure 1, EvFailure 2]) < 2" if "n < 3" for n
  proof -
    from that have "n = 0 \<or> n = 1 \<or> n = 2" by linarith
    then show ?thesis by (auto simp: trailing_failures_def numeral_2_eq_2)
  qed
  then show ?thesis
    using breaker_opens_at_threshold [of 2 "[EvAllow 1, EvFailure 1, EvFailure 2]" 1 1 10]
    by (simp add: trailing_failures_def)
qed

text \<open>
  An open breaker stays open and rejects every request as long as each comes within the
  reset timeout of the latest failure reported; the first request after that is admitted and
  starts probing.
\<close>

theorem breaker_open_rejects:
  assumes "state cb = StateOpen" "before_reset (resetTimeout cb) (lastFailure cb) es"
  shows "state (cb_run cb es) = StateOpen \<and> list_all Not (cb_answers cb es) \<and>
         (let cb' = cb_run cb es
          in time_Sub t (lastFailure cb') > resetTimeout cb \<longrightarrow>
               fst (cb_Allow t cb') \<and> cb_phase (snd (cb_Allow t cb')) = Probing 1 0)"
proof -
  obtain ft st hm rt where c: "cb_config cb = (ft, st, hm, rt)"
    by (cases "cb_config cb")
  then have rt: "resetTimeout cb = rt"
    by (simp add: cb_config_def)
  have ph: "cb_phase cb = Opened (lastFailure cb)"
    using assms(1) by (simp add: cb_phase_iff)
  obtain v where v: "foldl (phase_step (ft, st, hm, rt)) (Opened (lastFailure cb)) es = Opened v"
    and rej: "list_all Not (phase_answers (ft, st, hm, rt) (Opened (lastFailure cb)) es)"
    using open_run assms(2) rt by blast
  have run: "cb_phase (cb_run cb es) = Opened v"
    by (simp add: cb_phase_run c ph v)
  have cfg: "resetTimeout (cb_run cb es) = rt"
    using cb_config_run [of cb es] c by (simp add: cb_config_def)
  show ?thesis
    using run rej cfg rt
    by (auto simp: cb_phase_answers c ph cb_phase_iff cb_Allow_def)
qed

theorem breaker_open_rejects_witness:
  "state (cb_run (cb_run (cb_New 1 1 1 10) [EvFailure 5]) [EvAllow 15, EvFailure 16, EvAllow 26])
     = StateOpen"
proof -
  have "state (cb_run (cb_New 1 1 1 10) [EvFailure 5]) = StateOpen"
    and "before_reset (resetTimeout (cb_run (cb_New 1 1 1 10) [EvFailure 5]))
           (lastFailure (cb_run (cb_New 1 1 1 10) [EvFailure 5])) [EvAllow 15, EvFailure 16, EvAllow 26]"
    by (simp_all add: cb_defs cb_New_def Let_def time_Sub_def sat64_def)
  then show ?thesis
    using breaker_open_rejects by blast
qed

text \<open>
  While a half-open breaker sees no failure and too few successes to close, it stays
  half-open, counts the successes, and admits at most the probes its limit leaves.
\<close>

theorem breaker_probe_limit:
  assumes "state cb = StateHalfOpen" "halfOpenCount cb \<le> halfOpenMax cb"
    and "list_all (\<lambda>e. \<not> is_failure e) es"
    and "successCount cb + successes es < successThreshold cb"
  shows "state (cb_run cb es) = StateHalfOpen \<and>
         successCount (cb_run cb es) = successCount cb + successes es \<and>
         halfOpenCount (cb_run cb es) = halfOpenCount cb + admitted (cb_answers cb es) \<and>
         halfOpenCount (cb_run cb es) \<le> halfOpenMax cb"
proof -
  obtain ft st hm rt where c: "cb_config cb = (ft, st, hm, rt)"
    by (cases "cb_config cb")
  then have lim: "halfOpenMax cb = hm" "successThreshold cb = st"
    by (simp_all add: cb_config_def)
  have ph: "cb_phase cb = Probing (halfOpenCount cb) (successCount cb)"
    using assms(1) by (simp add: cb_phase_iff)
  obtain a' where a': "foldl (phase_step (ft, st, hm, rt))
        (Probing (halfOpenCount cb) (successCount cb)) es = Probing a' (successCount cb + successes es)"
      "a' \<le> hm"
      "admitted (phase_answers (ft, st, hm, rt)
        (Probing (halfOpenCount cb) (successCount cb)) es) = a' - halfOpenCount cb"
    using probing_run [OF assms(2,3,4) [unfolded lim], of ft rt] by blast
  have "cb_phase (cb_run cb es) = Probing a' (successCount cb + successes es)"
    by (simp add: cb_phase_run c ph a'(1))
  with a' show ?thesis
    by (simp add: cb_phase_iff cb_phase_answers c ph lim)
qed

text \<open>
  A half-open breaker whose probes are all handed out is stuck: however late the requests
  come, it rejects them all and never changes. Only a result reported for an earlier request
  can move it, and a request that ends without reporting one (as a rate-limited delivery does)
  takes its probe with it.
\<close>

theorem breaker_exhausted_is_stuck:
  assumes "state cb = StateHalfOpen" "halfOpenCount cb = halfOpenMax cb"
  shows "cb_run cb (map EvAllow ts) = cb \<and> list_all Not (cb_answers cb (map EvAllow ts))"
proof -
  have "cb_run cb (map EvAllow ts) = cb"
    by (induction ts) (auto simp: cb_Allow_def assms)
  moreover have "list_all Not (cb_answers cb (map EvAllow ts))"
    by (induction ts) (auto simp: cb_Allow_def assms)
  ultimately show ?thesis ..
qed


text \<open>
  The witnesses share one breaker: one failure has opened it and, the timeout over, one request
  has made it half-open.
\<close>

definition probing_breaker :: "int \<Rightarrow> CircuitBreaker" where
  "probing_breaker hm = cb_run (cb_New 1 2 hm 10) [EvFailure 5, EvAllow 16]"

lemma probing_breaker_fields [simp]:
  "state (probing_breaker hm) = StateHalfOpen"
  "halfOpenCount (probing_breaker hm) = 1"
  "halfOpenMax (probing_breaker hm) = hm"
  "successCount (probing_breaker hm) = 0"
  "successThreshold (probing_breaker hm) = 2"
  by (simp_all add: probing_breaker_def cb_defs cb_New_def Let_def time_Sub_def sat64_def)

theorem breaker_probe_limit_witness:
  "state (cb_run (probing_breaker 3) [EvAllow 17, EvSuccess, EvAllow 18]) = StateHalfOpen"
  using breaker_probe_limit [of "probing_breaker 3" "[EvAllow 17, EvSuccess, EvAllow 18]"] by simp

theorem breaker_exhausted_is_stuck_witness:
  "cb_run (probing_breaker 1) (map EvAllow [17, 1000000]) = probing_breaker 1"
  using breaker_exhausted_is_stuck [of "probing_breaker 1" "[17, 1000000]"] by simp


end
