(* ===== verification/Metrics.thy ===== *)
theory Metrics
  imports Job_Queue Circuit_Breaker Float64
begin

text \<open>
  \<open>internal/adapter/handler/metrics.go\<close>: the collector that counts deliveries in Redis and the
  report of the endpoint \<open>/metrics\<close>.
\<close>

section \<open>The collector\<close>

definition metricsKeyDelivered :: string where "metricsKeyDelivered = ''metrics:delivered''"
definition metricsKeyFailed :: string where "metricsKeyFailed = ''metrics:failed''"
definition metricsKeyLatencySum :: string where "metricsKeyLatencySum = ''metrics:latency_sum''"
definition metricsKeyProcessed :: string where "metricsKeyProcessed = ''metrics:processed''"

lemmas metrics_keys = metricsKeyDelivered_def metricsKeyFailed_def metricsKeyLatencySum_def
  metricsKeyProcessed_def

text \<open>\<open>INCRBY\<close> refuses to overflow and then leaves the counter alone.\<close>

definition incr_by :: "string \<Rightarrow> int \<Rightarrow> redis \<Rightarrow> redis" where
  "incr_by key k r =
     (let v = counters r key + k
      in if int64_range v then r\<lparr>counters := (counters r)(key := v)\<rparr> else r)"

definition RecordDelivery :: "err fault \<Rightarrow> int \<Rightarrow> redis \<Rightarrow> redis" where
  "RecordDelivery f latencyMs r =
     snd (pipeline f [incr_by metricsKeyDelivered 1, incr_by metricsKeyLatencySum latencyMs,
                      incr_by metricsKeyProcessed 1] r)"

definition RecordFailure :: "err fault \<Rightarrow> redis \<Rightarrow> redis" where
  "RecordFailure f r =
     snd (pipeline f [incr_by metricsKeyFailed 1, incr_by metricsKeyProcessed 1] r)"

text \<open>The counters are all the collector touches.\<close>

definition same_but_counters :: "redis \<Rightarrow> redis \<Rightarrow> bool" where
  "same_but_counters r r' \<longleftrightarrow>
     zsets r' = zsets r \<and> rsets r' = rsets r \<and> expiry r' = expiry r"

lemma incr_by_frame: "same_but_counters r t \<Longrightarrow> same_but_counters r (incr_by k v t)"
  by (simp add: same_but_counters_def incr_by_def Let_def)

lemma same_but_counters_refl [simp]: "same_but_counters r r"
  by (simp add: same_but_counters_def)

lemma RecordDelivery_frame: "same_but_counters r (RecordDelivery f l r)"
  unfolding RecordDelivery_def
  by (rule pipeline_keeps [where I = "same_but_counters r"]) (auto intro: incr_by_frame)

lemma RecordFailure_frame: "same_but_counters r (RecordFailure f r)"
  unfolding RecordFailure_def
  by (rule pipeline_keeps [where I = "same_but_counters r"]) (auto intro: incr_by_frame)

lemma metrics_zsets [simp]:
  "zsets (RecordDelivery f l r) = zsets r" "zsets (RecordFailure f r) = zsets r"
  "rsets (RecordDelivery f l r) = rsets r" "rsets (RecordFailure f r) = rsets r"
  using RecordDelivery_frame [of r f l] RecordFailure_frame [of r f]
  by (simp_all add: same_but_counters_def)

lemma queue_ok_metrics [keeps]:
  "queue_ok r \<Longrightarrow> queue_ok (RecordDelivery f l r)" "queue_ok r \<Longrightarrow> queue_ok (RecordFailure f r)"
  by (simp_all add: queue_ok_def redis_ok_def)

section \<open>What the counters say\<close>

text \<open>The calls of the collector, a delivery with its latency; none of them fails.\<close>

datatype metrics_call = Delivered int | Failed

fun record_call :: "metrics_call \<Rightarrow> redis \<Rightarrow> redis" where
  "record_call (Delivered l) r = RecordDelivery None l r"
| "record_call Failed r = RecordFailure None r"

definition latencies :: "metrics_call list \<Rightarrow> int list" where
  "latencies cs = List.map_filter (\<lambda>c. case c of Delivered l \<Rightarrow> Some l | Failed \<Rightarrow> None) cs"

lemma latencies_simps [simp]:
  "latencies [] = []" "latencies (Delivered l # cs) = l # latencies cs" "latencies (Failed # cs) = latencies cs"
  by (simp_all add: latencies_def List.map_filter_simps)

lemma latencies_append: "latencies (cs @ cs') = latencies cs @ latencies cs'"
  by (induction cs) (auto simp: latencies_def List.map_filter_def)

lemma length_latencies: "length (latencies cs) \<le> length cs"
  by (simp add: latencies_def List.map_filter_def)

lemma incr_by_counter:
  "0 \<le> counters r key + k \<Longrightarrow> counters r key + k < 2 ^ 63 \<Longrightarrow>
     counters (incr_by key k r) = (counters r)(key := counters r key + k)"
  by (simp add: incr_by_def int64_range_def Let_def)

lemma distinct_metrics_keys [simp]:
  "metricsKeyDelivered \<noteq> metricsKeyFailed" "metricsKeyDelivered \<noteq> metricsKeyLatencySum"
  "metricsKeyDelivered \<noteq> metricsKeyProcessed" "metricsKeyFailed \<noteq> metricsKeyLatencySum"
  "metricsKeyFailed \<noteq> metricsKeyProcessed" "metricsKeyLatencySum \<noteq> metricsKeyProcessed"
  by (simp_all add: metrics_keys)

lemmas metrics_keys_differ [simp] = distinct_metrics_keys [THEN not_sym]

lemma record_call_counters:
  assumes "\<forall>key. 0 \<le> counters r key" "\<forall>key. key \<noteq> metricsKeyLatencySum \<longrightarrow> counters r key + 1 < 2 ^ 63"
    and "\<forall>l. c = Delivered l \<longrightarrow> 0 \<le> l \<and> counters r metricsKeyLatencySum + l < 2 ^ 63"
  shows "counters (record_call c r) = (case c of
      Delivered l \<Rightarrow> (counters r)(metricsKeyDelivered := counters r metricsKeyDelivered + 1,
        metricsKeyLatencySum := counters r metricsKeyLatencySum + l,
        metricsKeyProcessed := counters r metricsKeyProcessed + 1)
    | Failed \<Rightarrow> (counters r)(metricsKeyFailed := counters r metricsKeyFailed + 1,
        metricsKeyProcessed := counters r metricsKeyProcessed + 1))"
proof -
  have i: "0 \<le> counters r key + 1" for key using assms(1) by (simp add: add_nonneg_nonneg)
  have j: "counters r metricsKeyDelivered + 1 < 2 ^ 63" "counters r metricsKeyFailed + 1 < 2 ^ 63"
    "counters r metricsKeyProcessed + 1 < 2 ^ 63"
    using assms(2) distinct_metrics_keys by metis+
  show ?thesis
  proof (cases c)
    case (Delivered l)
    with assms(1,3) have "0 \<le> counters r metricsKeyLatencySum + l" by (simp add: add_nonneg_nonneg)
    with Delivered assms(3) i j show ?thesis
      by (simp add: RecordDelivery_def pipeline_def incr_by_counter [of _ _ 1] incr_by_counter [of _ _ l])
  next
    case Failed
    with i j show ?thesis by (simp add: RecordFailure_def pipeline_def incr_by_counter)
  qed
qed

text \<open>The counters count the calls, while they do not overflow.\<close>

lemma metrics_counts:
  assumes "\<forall>l\<in>set (latencies cs). 0 \<le> l" and "counters r = (\<lambda>_. 0)"
    and "int (length cs) < 2 ^ 63" "sum_list (latencies cs) < 2 ^ 63"
  shows "counters (fold record_call cs r) metricsKeyDelivered = int (length (latencies cs)) \<and>
    counters (fold record_call cs r) metricsKeyFailed = int (length cs) - int (length (latencies cs)) \<and>
    counters (fold record_call cs r) metricsKeyLatencySum = sum_list (latencies cs) \<and>
    counters (fold record_call cs r) metricsKeyProcessed = int (length cs) \<and>
    (\<forall>key. 0 \<le> counters (fold record_call cs r) key \<and>
       (key \<noteq> metricsKeyLatencySum \<longrightarrow> counters (fold record_call cs r) key \<le> int (length cs)))"
  using assms
proof (induction cs rule: rev_induct)
  case (snoc c cs)
  let ?r = "fold record_call cs r"
  have l: "latencies (cs @ [c]) = latencies cs @ latencies [c]" by (rule latencies_append)
  have nn: "0 \<le> sum_list (latencies [c])"
    using snoc.prems(1) unfolding l by (intro sum_list_nonneg) auto
  have pre: "\<forall>l\<in>set (latencies cs). 0 \<le> l" "int (length cs) < 2 ^ 63" "sum_list (latencies cs) < 2 ^ 63"
    using snoc.prems nn unfolding l by auto
  note IH = snoc.IH [OF pre(1) snoc.prems(2) pre(2,3)]
  have s: "counters (record_call c ?r) = (case c of
      Delivered l \<Rightarrow> (counters ?r)(metricsKeyDelivered := counters ?r metricsKeyDelivered + 1,
        metricsKeyLatencySum := counters ?r metricsKeyLatencySum + l,
        metricsKeyProcessed := counters ?r metricsKeyProcessed + 1)
    | Failed \<Rightarrow> (counters ?r)(metricsKeyFailed := counters ?r metricsKeyFailed + 1,
        metricsKeyProcessed := counters ?r metricsKeyProcessed + 1))"
  proof (rule record_call_counters)
    show "\<forall>key. 0 \<le> counters ?r key" using IH by blast
    show "\<forall>key. key \<noteq> metricsKeyLatencySum \<longrightarrow> counters ?r key + 1 < 2 ^ 63"
      using IH snoc.prems(3) by (auto intro: le_less_trans [OF add_right_mono])
    show "\<forall>l. c = Delivered l \<longrightarrow> 0 \<le> l \<and> counters ?r metricsKeyLatencySum + l < 2 ^ 63"
      using IH snoc.prems(1,4) unfolding l by auto
  qed
  show ?case
    unfolding fold_append fold.simps comp_def id_def s l
    using IH snoc.prems(1) sum_list_nonneg [of "latencies cs"] length_latencies [of cs] unfolding l
    by (cases c) (auto simp: add_nonneg_nonneg intro: order_trans)
qed simp

section \<open>The endpoint\<close>

record MetricsReport =
  queue_depth :: "(string \<times> int) list"
  delivered :: int
  failed :: int
  total_processed :: int
  avg_latency_ms :: rat
  circuit_breakers :: "(string \<times> string) list"
  mtimestamp :: time

definition get_counter :: "err fault \<Rightarrow> string \<Rightarrow> redis \<Rightarrow> int" where
  "get_counter f key r = (case query f (counters r key) of Inl _ \<Rightarrow> 0 | Inr v \<Rightarrow> v)"

text \<open>
  \<open>fdepth\<close> and \<open>fget\<close> are the faults of the calls for each channel and each key; a breaker
  map without an entry for a channel leaves it out.
\<close>

definition metrics_Get ::
    "(Channel \<Rightarrow> err fault) \<Rightarrow> (string \<Rightarrow> err fault) \<Rightarrow> time \<Rightarrow> (Channel \<Rightarrow> CircuitBreaker option) \<Rightarrow>
       redis \<Rightarrow> MetricsReport" where
  "metrics_Get fdepth fget now breakers r =
     (let channels = [ChannelSMS, ChannelEmail, ChannelPush];
          depths = List.map_filter (\<lambda>ch. case QueueDepth (fdepth ch) ch r of
              Inl _ \<Rightarrow> None | Inr n \<Rightarrow> Some (ch, n)) channels;
          states = List.map_filter (\<lambda>ch. case breakers ch of
              None \<Rightarrow> None | Some b \<Rightarrow> Some (ch, State_String (cb_State b))) channels;
          latencySum = get_counter (fget metricsKeyLatencySum) metricsKeyLatencySum r;
          totalProcessed = get_counter (fget metricsKeyProcessed) metricsKeyProcessed r
      in \<lparr>queue_depth = depths,
          delivered = get_counter (fget metricsKeyDelivered) metricsKeyDelivered r,
          failed = get_counter (fget metricsKeyFailed) metricsKeyFailed r,
          total_processed = totalProcessed,
          avg_latency_ms = (if totalProcessed > 0
             then fl64 (fl64 (of_int latencySum) / fl64 (of_int totalProcessed)) else 0),
          circuit_breakers = states, mtimestamp = now\<rparr>)"

text \<open>
  The average divides by all calls: failures add no latency and lower it.
\<close>

lemma average_counts_failures:
  assumes "counters r = (\<lambda>_. 0)"
  shows "avg_latency_ms (metrics_Get fd (\<lambda>_. None) now bs
      (fold record_call [Delivered 100, Failed, Failed, Failed] r)) = fl64 (fl64 100 / fl64 4)"
  using metrics_counts [of "[Delivered 100, Failed, Failed, Failed]" r] assms
  by (simp add: metrics_Get_def get_counter_def Let_def del: fold.simps)

end
