(* ===== verification/Database.thy ===== *)
theory Database
  imports Domain "HOL-Library.AList"
begin

text \<open>
  The PostgreSQL tables of \<open>internal/adapter/repository/postgres/migrations\<close>: the rows as the
  code's records, and the column types with the values they refuse or change. A table is the
  list of its rows in the order of insertion; rows that an \<open>ORDER BY\<close> does not separate are
  given in that order, and no property depends on it.
\<close>

section \<open>Text columns\<close>

text \<open>
  A text value is valid UTF-8 without the byte 0. \<open>utf8_char\<close> takes one legal character off
  a list of bytes.
\<close>

definition cont :: "nat \<Rightarrow> nat \<Rightarrow> nat \<Rightarrow> bool" where
  "cont lo hi b \<longleftrightarrow> lo \<le> b \<and> b \<le> hi"

fun utf8_tail :: "nat \<Rightarrow> nat \<Rightarrow> nat \<Rightarrow> nat list \<Rightarrow> nat list option" where
  "utf8_tail 0 lo hi s = Some s"
| "utf8_tail (Suc k) lo hi [] = None"
| "utf8_tail (Suc k) lo hi (b # s) = (if cont lo hi b then utf8_tail k 128 191 s else None)"

fun utf8_char :: "nat list \<Rightarrow> nat list option" where
  "utf8_char [] = None"
| "utf8_char (b # s) =
     (if b = 0 then None
      else if b < 128 then Some s
      else if b < 194 then None
      else if b < 224 then utf8_tail 1 128 191 s
      else if b = 224 then utf8_tail 2 160 191 s
      else if b = 237 then utf8_tail 2 128 159 s
      else if b < 240 then utf8_tail 2 128 191 s
      else if b = 240 then utf8_tail 3 144 191 s
      else if b < 244 then utf8_tail 3 128 191 s
      else if b = 244 then utf8_tail 3 128 143 s
      else None)"

lemma utf8_tail_length: "utf8_tail k lo hi s = Some s' \<Longrightarrow> length s' \<le> length s"
  by (induction k lo hi s rule: utf8_tail.induct) (auto split: if_splits)

lemma utf8_char_length: "utf8_char s = Some s' \<Longrightarrow> length s' < length s"
  by (cases s) (auto split: if_splits dest: utf8_tail_length)

text \<open>The number of characters, or none if the value is refused.\<close>

function utf8_length :: "nat list \<Rightarrow> nat option" where
  "utf8_length s =
     (if s = [] then Some 0
      else case utf8_char s of None \<Rightarrow> None | Some s' \<Rightarrow> map_option Suc (utf8_length s'))"
  by pat_completeness auto
termination
  by (relation "measure length") (auto dest: utf8_char_length)

declare utf8_length.simps [simp del]

lemma utf8_length_Nil [simp]: "utf8_length [] = Some 0"
  by (simp add: utf8_length.simps)

lemma utf8_length_Cons [simp]:
  "utf8_length (b # s) =
     (case utf8_char (b # s) of None \<Rightarrow> None | Some s' \<Rightarrow> map_option Suc (utf8_length s'))"
  by (subst utf8_length.simps) simp

definition text_length :: "string \<Rightarrow> nat option" where
  "text_length s = utf8_length (map of_char s)"

definition text_ok :: "string \<Rightarrow> bool" where
  "text_ok s \<longleftrightarrow> text_length s \<noteq> None"

lemma text_ok_Nil [simp]: "text_ok []"
  by (simp add: text_ok_def text_length_def)

text \<open>Printable ASCII is fine, a character a byte.\<close>

definition ascii :: "string \<Rightarrow> bool" where
  "ascii s \<longleftrightarrow> list_all (\<lambda>c. 0 < (of_char c :: nat) \<and> (of_char c :: nat) < 128) s"

lemma ascii_length: "ascii s \<Longrightarrow> text_length s = Some (length s)"
  by (induction s) (auto simp: ascii_def text_length_def)

lemma ascii_text_ok: "ascii s \<Longrightarrow> text_ok s"
  by (simp add: text_ok_def ascii_length)

text \<open>
  A \<open>VARCHAR(n)\<close> column refuses a longer value, unless what is beyond \<open>n\<close> characters is
  all spaces, which are cut off.
\<close>

definition varchar_ok :: "nat \<Rightarrow> string \<Rightarrow> bool" where
  "varchar_ok n s =
     (case text_length s of
        None \<Rightarrow> False
      | Some l \<Rightarrow> list_all (\<lambda>c. c = CHR '' '') (drop (length s - (l - n)) s))"

definition varchar :: "nat \<Rightarrow> string \<Rightarrow> string" where
  "varchar n s =
     (case text_length s of None \<Rightarrow> s | Some l \<Rightarrow> take (length s - (l - n)) s)"

lemma varchar_ok_short: "text_length s = Some l \<Longrightarrow> l \<le> n \<Longrightarrow> varchar_ok n s"
  by (simp add: varchar_ok_def)

lemma varchar_short: "text_length s = Some l \<Longrightarrow> l \<le> n \<Longrightarrow> varchar n s = s"
  by (simp add: varchar_def)

text \<open>Cutting off spaces at the end leaves a legal value; a legal value has no byte 0.\<close>

lemma utf8_tail_space:
  "128 \<le> lo \<Longrightarrow> utf8_tail k lo hi (s @ [32]) = Some s' \<Longrightarrow>
     \<exists>t. utf8_tail k lo hi s = Some t \<and> s' = t @ [32]"
proof (induction k lo hi s arbitrary: s' rule: utf8_tail.induct)
  case (2 k lo hi)
  then show ?case by (simp add: cont_def)
qed (auto split: if_splits)

lemma utf8_char_space:
  assumes "utf8_char (b # s @ [32]) = Some s'"
  shows "\<exists>t. utf8_char (b # s) = Some t \<and> s' = t @ [32]"
  using assms utf8_tail_space [of _ _ _ s s'] by (auto split: if_splits)

lemma utf8_length_space: "utf8_length (s @ [32]) = Some l \<Longrightarrow> \<exists>m. utf8_length s = Some m \<and> l = Suc m"
proof (induction s arbitrary: l rule: length_induct)
  case (1 s)
  show ?case
  proof (cases s)
    case Nil
    with "1.prems" show ?thesis by simp
  next
    case (Cons b t)
    with "1.prems" obtain s' where s': "utf8_char (b # t @ [32]) = Some s'"
      by (auto split: option.splits)
    with utf8_char_space obtain u where u: "utf8_char (b # t) = Some u" "s' = u @ [32]" by blast
    from "1.prems" Cons s' obtain k where k: "utf8_length s' = Some k" "l = Suc k"
      by auto
    have "length u < length s" using utf8_char_length [OF u(1)] Cons by simp
    with "1.IH" k(1) u(2) obtain m where "utf8_length u = Some m" "k = Suc m" by blast
    with u(1) k(2) Cons show ?thesis by simp
  qed
qed

lemma text_length_take:
  "text_length s = Some l \<Longrightarrow> k \<le> length s \<Longrightarrow> list_all (\<lambda>c. c = CHR '' '') (drop (length s - k) s) \<Longrightarrow>
     text_length (take (length s - k) s) = Some (l - k) \<and> k \<le> l"
proof (induction k)
  case 0
  then show ?case by simp
next
  case (Suc k)
  let ?i = "length s - Suc k"
  have i: "?i < length s" "Suc ?i = length s - k" using Suc.prems(2) by auto
  have d: "drop ?i s = s ! ?i # drop (length s - k) s"
    using Cons_nth_drop_Suc [OF i(1)] i(2) by simp
  with Suc.prems have sp: "s ! ?i = CHR '' ''" "list_all (\<lambda>c. c = CHR '' '') (drop (length s - k) s)"
    by simp_all
  with Suc have IH: "text_length (take (length s - k) s) = Some (l - k)" "k \<le> l" by auto
  have "take (length s - k) s = take ?i s @ [CHR '' '']"
    using take_Suc_conv_app_nth [OF i(1)] i(2) sp(1) by simp
  with IH(1) have "utf8_length (map of_char (take ?i s) @ [32]) = Some (l - k)"
    by (simp add: text_length_def)
  from utf8_length_space [OF this] IH(2) show ?case
    by (auto simp: text_length_def)
qed

lemma utf8_length_le: "utf8_length b = Some m \<Longrightarrow> m \<le> length b"
proof (induction b arbitrary: m rule: length_induct)
  case (1 b)
  show ?case
  proof (cases b)
    case (Cons x t)
    with "1.prems" obtain u k where u: "utf8_char b = Some u" "utf8_length u = Some k" "m = Suc k"
      by (auto split: option.splits simp del: utf8_char.simps)
    with "1.IH" utf8_char_length [OF u(1)] have "k \<le> length u" by blast
    with u(3) utf8_char_length [OF u(1)] show ?thesis by simp
  qed (use "1.prems" in simp)
qed

lemma varchar_kept:
  assumes "varchar_ok n s"
  shows "varchar_ok n (varchar n s)" "text_ok (varchar n s)"
proof -
  obtain l where l: "text_length s = Some l" "list_all (\<lambda>c. c = CHR '' '') (drop (length s - (l - n)) s)"
    using assms by (auto simp: varchar_ok_def split: option.splits)
  have "l \<le> length s" using l(1) utf8_length_le by (fastforce simp: text_length_def)
  then have "l - n \<le> length s" by simp
  from text_length_take [OF l(1) this l(2)]
  have "text_length (varchar n s) = Some (l - (l - n))" by (simp add: varchar_def l)
  then show "varchar_ok n (varchar n s)" "text_ok (varchar n s)"
    by (auto simp: text_ok_def intro: varchar_ok_short)
qed

lemma varchar_ok_text: "varchar_ok n s \<Longrightarrow> text_ok s"
  by (auto simp: varchar_ok_def text_ok_def split: option.splits)

lemma utf8_tail_0: "128 \<le> lo \<Longrightarrow> utf8_tail k lo hi s = Some t \<Longrightarrow> 0 \<in> set s \<Longrightarrow> 0 \<in> set t"
  by (induction k lo hi s rule: utf8_tail.induct) (auto simp: cont_def split: if_splits)

lemma utf8_char_0: "utf8_char s = Some t \<Longrightarrow> 0 \<in> set s \<Longrightarrow> 0 \<in> set t"
  by (cases s) (auto split: if_splits dest: utf8_tail_0 [rotated])

lemma utf8_length_0: "0 \<in> set s \<Longrightarrow> utf8_length s = None"
proof (induction s rule: length_induct)
  case (1 s)
  show ?case
  proof (cases s)
    case (Cons b t)
    show ?thesis
    proof (cases "utf8_char s")
      case (Some u)
      with 1 have "utf8_length u = None" by (metis utf8_char_0 utf8_char_length)
      with Some Cons show ?thesis by simp
    qed (use Cons in simp)
  qed (use "1.prems" in simp)
qed

text \<open>A nullable column holds null or a value its type takes.\<close>

definition nullable :: "('a \<Rightarrow> bool) \<Rightarrow> 'a option \<Rightarrow> bool" where
  "nullable P x = (case x of None \<Rightarrow> True | Some y \<Rightarrow> P y)"

lemma nullable_simps [simp]: "nullable P None" "nullable P (Some y) = P y"
  by (simp_all add: nullable_def)

section \<open>Other columns\<close>

definition smallint :: "int \<Rightarrow> bool" where
  "smallint x \<longleftrightarrow> - 32768 \<le> x \<and> x \<le> 32767"

definition integer_ok :: "int \<Rightarrow> bool" where
  "integer_ok x \<longleftrightarrow> - (2 ^ 31) \<le> x \<and> x < 2 ^ 31"

text \<open>A timestamp is kept to the microsecond.\<close>

definition timestamptz :: "time \<Rightarrow> time" where
  "timestamptz t = t div 1000 * 1000"

lemma timestamptz_idem [simp]: "timestamptz (timestamptz t) = timestamptz t"
  by (simp add: timestamptz_def)

lemma timestamptz_bounds: "timestamptz t \<le> t \<and> t < timestamptz t + 1000"
  by (simp add: timestamptz_def) presburger

text \<open>
  A \<open>JSONB\<close> column refuses strings with the character 0, which \<open>json.Marshal\<close> writes as an
  escape; every other string has been through \<open>encoding/json\<close> and is valid UTF-8.
\<close>

definition no_nul :: "string \<Rightarrow> bool" where
  "no_nul s \<longleftrightarrow> list_all (\<lambda>c. c \<noteq> CHR 0x00) s"

lemma text_ok_no_nul: "text_ok s \<Longrightarrow> no_nul s"
proof (rule ccontr)
  assume "text_ok s" "\<not> no_nul s"
  then have "CHR 0x00 \<in> set s" by (auto simp: no_nul_def list_all_iff)
  then have "of_char CHR 0x00 \<in> of_char ` set s" by (rule imageI)
  then have "(0::nat) \<in> set (map of_char s)" by simp
  then have "utf8_length (map of_char s) = None" by (rule utf8_length_0)
  with \<open>text_ok s\<close> show False by (simp add: text_ok_def text_length_def)
qed

fun json_ok :: "json \<Rightarrow> bool" where
  "json_ok (JString s) \<longleftrightarrow> no_nul s"
| "json_ok (JArray vs) \<longleftrightarrow> list_all json_ok vs"
| "json_ok (JObject kvs) \<longleftrightarrow> list_all (\<lambda>kv. no_nul (fst kv) \<and> json_ok (snd kv)) kvs"
| "json_ok _ \<longleftrightarrow> True"

definition jsonb_ok :: "json_map \<Rightarrow> bool" where
  "jsonb_ok m = nullable (\<lambda>kvs. list_all (\<lambda>kv. no_nul (fst kv) \<and> json_ok (snd kv)) kvs) m"

section \<open>The database\<close>

record db =
  notifications :: "Notification list"
  templates :: "Template list"
  delivery_attempts :: "DeliveryAttempt list"
  dead_letter_queue :: "DeadLetterEntry list"

definition empty_db :: db where
  "empty_db = \<lparr>notifications = [], templates = [], delivery_attempts = [],
     dead_letter_queue = []\<rparr>"

text \<open>The server's answer to a row that a constraint refuses.\<close>

definition constraint_violation :: "string \<Rightarrow> err" where
  "constraint_violation c = Text (''ERROR: '' @ c)"

lemma constraint_violation_Is [simp]: "errors_Is (constraint_violation c) d = False"
  by (simp add: constraint_violation_def)

text \<open>A page of a result: \<open>LIMIT l OFFSET o\<close>, which refuses a negative offset.\<close>

definition page_of :: "int \<Rightarrow> int \<Rightarrow> 'a list \<Rightarrow> err + 'a list" where
  "page_of l off xs =
     (if off < 0 then Inl (Text ''ERROR: OFFSET must not be negative'')
      else Inr (take (nat l) (drop (nat off) xs)))"

section \<open>A table by its primary key\<close>

text \<open>
  What the services rely on of a table: a row is found by its key, \<open>INSERT\<close> adds a row whose
  key was free or fails, and \<open>UPDATE ... WHERE\<close> rewrites the rows its condition selects and
  no other. \<open>stored\<close> is a row as its columns keep it, \<open>legal\<close> says that an assignment
  leaves the key alone and satisfies the constraints.
\<close>

locale sql_table =
  fixes look :: "'s \<Rightarrow> 'k \<Rightarrow> 'r option"
    and key :: "'r \<Rightarrow> 'k"
    and stored :: "'r \<Rightarrow> 'r"
    and insert_row :: "'r \<Rightarrow> 's \<Rightarrow> 'e + (unit \<times> 's)"
    and change :: "('r \<Rightarrow> bool) \<Rightarrow> ('r \<Rightarrow> 'r) \<Rightarrow> 's \<Rightarrow> 's"
    and legal :: "('r \<Rightarrow> 'r) \<Rightarrow> bool"
    and inv :: "'s \<Rightarrow> bool"
  assumes look_key: "look s k = Some r \<Longrightarrow> key r = k"
    and insert_fresh: "insert_row r s = Inr (u, s') \<Longrightarrow> look s (key r) = None"
    and look_insert: "insert_row r s = Inr (u, s') \<Longrightarrow> look s' = (look s)(key r \<mapsto> stored r)"
    and insert_inv: "inv s \<Longrightarrow> insert_row r s = Inr (u, s') \<Longrightarrow> inv s'"
    and look_change:
      "legal g \<Longrightarrow> look (change P g s) k = map_option (\<lambda>r. if P r then g r else r) (look s k)"
    and change_inv: "inv s \<Longrightarrow> legal g \<Longrightarrow> inv (change P g s)"
begin

lemma insert_once:
  assumes "insert_row r s = Inr (u, s')" "key r' = key r"
  shows "\<exists>e. insert_row r' s' = Inl e"
proof (cases "insert_row r' s'")
  case (Inr v)
  obtain w t where "insert_row r' s' = Inr (w, t)"
    using Inr by (cases v) auto
  from insert_fresh [OF this] look_insert [OF assms(1)] assms(2) show ?thesis by simp
qed simp

lemma change_key:
  assumes "legal g"
  shows "look (change (\<lambda>r. key r = k \<and> P r) g s) =
     (case look s k of
        None \<Rightarrow> look s
      | Some r \<Rightarrow> if P r then (look s)(k \<mapsto> g r) else look s)"
proof
  fix j
  show "look (change (\<lambda>r. key r = k \<and> P r) g s) j =
     (case look s k of
        None \<Rightarrow> look s
      | Some r \<Rightarrow> if P r then (look s)(k \<mapsto> g r) else look s) j"
    using look_key [of s j] look_key [of s k]
    by (cases "look s j"; cases "j = k") (auto simp: look_change [OF assms] split: option.split)
qed

lemma change_dom: "legal g \<Longrightarrow> dom (look (change P g s)) = dom (look s)"
  by (auto simp: dom_def look_change)

end

text \<open>The view of a list of rows by a key without duplicates.\<close>

definition by_key :: "('r \<Rightarrow> 'k) \<Rightarrow> 'r list \<Rightarrow> 'k \<Rightarrow> 'r option" where
  "by_key f rows k = find (\<lambda>r. f r = k) rows"

lemma by_key_Nil [simp]: "by_key f [] k = None"
  by (simp add: by_key_def)

lemma by_key_Cons [simp]: "by_key f (r # rows) k = (if f r = k then Some r else by_key f rows k)"
  by (simp add: by_key_def)

lemma by_key_SomeD: "by_key f rows k = Some r \<Longrightarrow> r \<in> set rows \<and> f r = k"
  unfolding by_key_def by (rule find_SomeD)

lemma by_key_None_iff: "by_key f rows k = None \<longleftrightarrow> k \<notin> f ` set rows"
  by (simp add: by_key_def find_None_iff_notin)

lemma by_key_mem: "distinct (map f rows) \<Longrightarrow> r \<in> set rows \<Longrightarrow> by_key f rows (f r) = Some r"
  unfolding by_key_def by (rule find_Some_unique)

lemma by_key_snoc:
  "f r \<notin> f ` set rows \<Longrightarrow> by_key f (rows @ [r]) = (by_key f rows)(f r \<mapsto> r)"
  by (induction rows) (auto simp: fun_eq_iff)

lemma by_key_map:
  "(\<And>r. f (g r) = f r) \<Longrightarrow> by_key f (map g rows) k = map_option g (by_key f rows k)"
  by (induction rows) auto


end
