(* ===== verification/Notification_Repo.thy ===== *)
theory Notification_Repo
  imports Database
begin

text \<open>
  \<open>internal/adapter/repository/postgres/notification.go\<close>: each method with its SQL statements
  as functions on the table \<open>notifications\<close>, the constraints of the migrations and the
  mapping of the results to the domain's errors.
\<close>

section \<open>The table\<close>

definition row :: "db \<Rightarrow> UUID \<Rightarrow> Notification option" where
  "row d = by_key ID (notifications d)"

definition idempotency_keys :: "db \<Rightarrow> string list" where
  "idempotency_keys d = List.map_filter IdempotencyKey (notifications d)"

text \<open>The values as the columns keep them.\<close>

definition stored :: "Notification \<Rightarrow> Notification" where
  "stored n = n\<lparr>
     IdempotencyKey := map_option (varchar 255) (IdempotencyKey n),
     Recipient := varchar 500 (Recipient n),
     Subject := varchar 500 (Subject n),
     ScheduledAt := map_option timestamptz (ScheduledAt n),
     SentAt := map_option timestamptz (SentAt n),
     ProviderMsgID := map_option (varchar 255) (ProviderMsgID n),
     NextRetryAt := map_option timestamptz (NextRetryAt n),
     CreatedAt := timestamptz (CreatedAt n),
     UpdatedAt := timestamptz (UpdatedAt n)\<rparr>"

text \<open>The \<open>INSERT\<close> leaves five columns at their defaults.\<close>

definition inserted :: "Notification \<Rightarrow> Notification" where
  "inserted n = stored (n\<lparr>SentAt := None, ProviderMsgID := None, RetryCount := 0,
     NextRetryAt := None, ErrorMessage := None\<rparr>)"

definition insert_ok :: "Notification \<Rightarrow> bool" where
  "insert_ok n \<longleftrightarrow>
     nullable (varchar_ok 255) (IdempotencyKey n) \<and> Channel_IsValid (NChannel n) \<and>
     varchar_ok 500 (Recipient n) \<and> varchar_ok 500 (Subject n) \<and> text_ok (Content n) \<and>
     valid_priority (NPriority n) \<and> valid_status (NStatus n) \<and> smallint (MaxRetries n) \<and>
     jsonb_ok (Metadata n) \<and> jsonb_ok (TemplateVars n)"

definition template_exists :: "db \<Rightarrow> UUID \<Rightarrow> bool" where
  "template_exists d t \<longleftrightarrow> t \<in> set (map TID (templates d))"

definition insert_notification :: "Notification \<Rightarrow> db \<Rightarrow> err + (unit \<times> db)" where
  "insert_notification n d =
     (if \<not> insert_ok n
      then Inl (constraint_violation ''value violates a column constraint'')
      else if ID n \<in> set (map ID (notifications d))
      then Inl (constraint_violation ''duplicate key violates notifications_pkey'')
      else if \<not> nullable (\<lambda>k. varchar 255 k \<notin> set (idempotency_keys d)) (IdempotencyKey n)
      then Inl (constraint_violation ''duplicate key violates notifications_idempotency_key_key'')
      else if \<not> nullable (template_exists d) (TemplateID n)
      then Inl (constraint_violation ''insert violates fk_notifications_template'')
      else Inr ((), d\<lparr>notifications := notifications d @ [inserted n]\<rparr>))"

text \<open>\<open>UPDATE notifications SET ... WHERE ...\<close>.\<close>

definition change_rows ::
    "(Notification \<Rightarrow> bool) \<Rightarrow> (Notification \<Rightarrow> Notification) \<Rightarrow> db \<Rightarrow> db" where
  "change_rows P g d = d\<lparr>notifications := map (\<lambda>r. if P r then g r else r) (notifications d)\<rparr>"

definition selected :: "(Notification \<Rightarrow> bool) \<Rightarrow> db \<Rightarrow> Notification list" where
  "selected P d = filter P (notifications d)"

section \<open>Create\<close>

definition repo_Create :: "err fault \<Rightarrow> Notification \<Rightarrow> db \<Rightarrow> err option \<times> db" where
  "repo_Create f n d =
     (case exec f (insert_notification n) d of (res, d) \<Rightarrow> (err_of res, d))"

fun insert_all :: "Notification list \<Rightarrow> db \<Rightarrow> err + db" where
  "insert_all [] d = Inr d"
| "insert_all (n # ns) d =
     (case insert_notification n d of Inl e \<Rightarrow> Inl e | Inr (_, d) \<Rightarrow> insert_all ns d)"

text \<open>
  One transaction: an error before the commit rolls everything back, a fault of the commit may
  come before or after it took effect.
\<close>

definition repo_CreateBatch ::
    "err fault \<Rightarrow> err fault \<Rightarrow> err fault \<Rightarrow> Notification list \<Rightarrow> db \<Rightarrow> err option \<times> db" where
  "repo_CreateBatch fbegin fbatch fcommit ns d =
     (case fbegin of
        Some (e, _) \<Rightarrow> (Some e, d)
      | None \<Rightarrow>
          (case fbatch of
             Some (e, _) \<Rightarrow> (Some e, d)
           | None \<Rightarrow>
               (case insert_all ns d of
                  Inl e \<Rightarrow> (Some e, d)
                | Inr d' \<Rightarrow>
                    (case exec fcommit (\<lambda>_. Inr ((), d')) d of (res, d) \<Rightarrow> (err_of res, d)))))"

section \<open>Reading\<close>

text \<open>
  A row as its columns come: the two JSON columns are texts, null or not, which the code decodes
  into a map without looking at the error, so that what is not an object leaves the map nil.
\<close>

record columns =
  plain :: Notification
  metadata :: "json option"
  templateVars :: "json option"

fun marshal_map :: "json_map \<Rightarrow> json" where
  "marshal_map None = JNull"
| "marshal_map (Some kvs) = JObject kvs"

fun unmarshal_map :: "json option \<Rightarrow> json_map" where
  "unmarshal_map (Some (JObject kvs)) = Some kvs"
| "unmarshal_map _ = None"

lemma unmarshal_marshal_map [simp]: "unmarshal_map (Some (marshal_map m)) = m"
  by (cases m) simp_all

definition columns_of :: "Notification \<Rightarrow> columns" where
  "columns_of n = \<lparr>plain = n\<lparr>Metadata := None, TemplateVars := None\<rparr>,
     metadata = Some (marshal_map (Metadata n)), templateVars = Some (marshal_map (TemplateVars n))\<rparr>"

definition scan_row :: "columns \<Rightarrow> Notification" where
  "scan_row c = (plain c)\<lparr>Metadata := unmarshal_map (metadata c),
     TemplateVars := unmarshal_map (templateVars c)\<rparr>"

lemma scan_columns [simp]: "scan_row (columns_of n) = n"
  by (simp add: scan_row_def columns_of_def)

text \<open>
  The loop over the rows of a result: what \<open>Scan\<close> gives for each, and at the end what
  \<open>rows.Err\<close> says, returned with the rows that were read.
\<close>

fun scan_loop :: "(err + columns) list \<Rightarrow> Notification list \<Rightarrow> err + Notification list" where
  "scan_loop [] result = Inr result"
| "scan_loop (Inl e # rows) result = Inl e"
| "scan_loop (Inr c # rows) result = scan_loop rows (result @ [scan_row c])"

definition scanNotifications ::
    "(err + columns) list \<Rightarrow> err option \<Rightarrow> Notification list \<times> err option" where
  "scanNotifications rows rows_Err =
     (case scan_loop rows [] of Inl e \<Rightarrow> ([], Some e) | Inr result \<Rightarrow> (result, rows_Err))"

text \<open>
  A query of several rows fails before its first row or after some of them. Its callers look at
  the error before they look at the rows.
\<close>

definition read_notifications :: "err fault \<Rightarrow> Notification list \<Rightarrow> err + Notification list" where
  "read_notifications f ns =
     (case f of
        Some (e, 0) \<Rightarrow> Inl e
      | _ \<Rightarrow>
          (let (rows, rows_Err) = (case f of None \<Rightarrow> (ns, None) | Some (e, k) \<Rightarrow> (take (k - 1) ns, Some e))
           in case scanNotifications (map (\<lambda>n. Inr (columns_of n)) rows) rows_Err of
                (_, Some e) \<Rightarrow> Inl e
              | (result, None) \<Rightarrow> Inr result))"

lemma scan_loop_columns [simp]: "scan_loop (map (\<lambda>n. Inr (columns_of n)) ns) ms = Inr (ms @ ns)"
  by (induction ns arbitrary: ms) simp_all

text \<open>However far it comes, it gives all of the rows or an error.\<close>

lemma read_notifications_query [simp]: "read_notifications f ns = query f ns"
  by (auto simp: read_notifications_def scanNotifications_def query_def split: option.split nat.split)

definition repo_GetByID :: "err fault \<Rightarrow> UUID \<Rightarrow> db \<Rightarrow> err + Notification" where
  "repo_GetByID f nid d =
     (case query f (row d nid) of
        Inl e \<Rightarrow> Inl e
      | Inr None \<Rightarrow> Inl (Sentinel ErrNotFound)
      | Inr (Some n) \<Rightarrow> Inr (scan_row (columns_of n)))"

definition repo_GetByBatchID :: "err fault \<Rightarrow> UUID \<Rightarrow> db \<Rightarrow> err + Notification list" where
  "repo_GetByBatchID f batchID d =
     read_notifications f (sort_key CreatedAt (selected (\<lambda>n. BatchID n = Some batchID) d))"

definition repo_GetByIdempotencyKey ::
    "err fault \<Rightarrow> string \<Rightarrow> db \<Rightarrow> err + Notification option" where
  "repo_GetByIdempotencyKey f key d =
     (if text_ok key
      then query f (map_option (\<lambda>n. scan_row (columns_of n))
             (find (\<lambda>n. IdempotencyKey n = Some key) (notifications d)))
      else Inl (case f of Some (e, _) \<Rightarrow> e
                | None \<Rightarrow> Text ''ERROR: invalid byte sequence for encoding UTF8''))"

section \<open>Update\<close>

text \<open>The parameters must be values of their types, and the row's columns take them.\<close>

definition update_params_ok :: "Notification \<Rightarrow> bool" where
  "update_params_ok n \<longleftrightarrow>
     text_ok (NStatus n) \<and> nullable text_ok (ProviderMsgID n) \<and> smallint (RetryCount n) \<and>
     jsonb_ok (Metadata n) \<and> nullable text_ok (ErrorMessage n)"

definition update_row_ok :: "Notification \<Rightarrow> bool" where
  "update_row_ok n \<longleftrightarrow> valid_status (NStatus n) \<and> nullable (varchar_ok 255) (ProviderMsgID n)"

definition updated :: "Notification \<Rightarrow> Notification \<Rightarrow> Notification" where
  "updated n r = r\<lparr>
     NStatus := NStatus n,
     SentAt := map_option timestamptz (SentAt n),
     ProviderMsgID := map_option (varchar 255) (ProviderMsgID n),
     RetryCount := RetryCount n,
     NextRetryAt := map_option timestamptz (NextRetryAt n),
     Metadata := Metadata n,
     ErrorMessage := ErrorMessage n,
     UpdatedAt := timestamptz (UpdatedAt n)\<rparr>"

definition update_notification :: "Notification \<Rightarrow> db \<Rightarrow> err + (unit \<times> db)" where
  "update_notification n d =
     (if \<not> update_params_ok n then Inl (Text ''ERROR: invalid parameter'')
      else if row d (ID n) \<noteq> None \<and> \<not> update_row_ok n
      then Inl (constraint_violation ''value violates a column constraint'')
      else Inr ((), change_rows (\<lambda>r. ID r = ID n) (updated n) d))"

text \<open>\<open>Update\<close> stamps the caller's notification as well.\<close>

definition repo_Update ::
    "err fault \<Rightarrow> time \<Rightarrow> Notification \<Rightarrow> db \<Rightarrow> err option \<times> Notification \<times> db" where
  "repo_Update f now n d =
     (let n = n\<lparr>UpdatedAt := now\<rparr>
      in case exec f (update_notification n) d of (res, d) \<Rightarrow> (err_of res, n, d))"

definition set_status :: "Status \<Rightarrow> time \<Rightarrow> Notification \<Rightarrow> Notification" where
  "set_status st now r = r\<lparr>NStatus := st, UpdatedAt := timestamptz now\<rparr>"

definition repo_UpdateStatus ::
    "err fault \<Rightarrow> time \<Rightarrow> UUID \<Rightarrow> Status \<Rightarrow> db \<Rightarrow> err option \<times> db" where
  "repo_UpdateStatus f now nid status d =
     (case exec f (\<lambda>d.
        if \<not> text_ok status then Inl (Text ''ERROR: invalid parameter'')
        else if row d nid \<noteq> None \<and> \<not> valid_status status
        then Inl (constraint_violation ''value violates a column constraint'')
        else Inr ((), change_rows (\<lambda>r. ID r = nid) (set_status status now) d)) d of
        (res, d) \<Rightarrow> (err_of res, d))"

section \<open>Cancellation\<close>

text \<open>The statement and the number of rows it affected.\<close>

definition cancel_where ::
    "(Notification \<Rightarrow> bool) \<Rightarrow> time \<Rightarrow> db \<Rightarrow> err + (int \<times> db)" where
  "cancel_where P now d =
     (let Q = (\<lambda>r. P r \<and> (NStatus r = StatusPending \<or> NStatus r = StatusScheduled \<or>
                       NStatus r = StatusQueued))
      in Inr (int (length (selected Q d)), change_rows Q (set_status StatusCancelled now) d))"

definition repo_CancelByID ::
    "err fault \<Rightarrow> err fault \<Rightarrow> time \<Rightarrow> UUID \<Rightarrow> db \<Rightarrow> err option \<times> db" where
  "repo_CancelByID f1 f2 now nid d =
     (case exec f1 (cancel_where (\<lambda>r. ID r = nid) now) d of
        (Inl e, d) \<Rightarrow> (Some e, d)
      | (Inr affected, d) \<Rightarrow>
          if affected = 0
          then (let exists = (case query f2 (row d nid \<noteq> None) of Inl _ \<Rightarrow> False | Inr b \<Rightarrow> b)
                in if \<not> exists then (Some (Sentinel ErrNotFound), d)
                   else (Some (Sentinel ErrCannotCancel), d))
          else (None, d))"

definition repo_CancelByBatchID ::
    "err fault \<Rightarrow> time \<Rightarrow> UUID \<Rightarrow> db \<Rightarrow> (err + int) \<times> db" where
  "repo_CancelByBatchID f now batchID d =
     exec f (cancel_where (\<lambda>r. BatchID r = Some batchID) now) d"

section \<open>List\<close>

definition filter_conditions :: "NotificationFilter \<Rightarrow> Notification \<Rightarrow> bool" where
  "filter_conditions q n \<longleftrightarrow>
     nullable (\<lambda>s. NStatus n = s) (FStatus q) \<and>
     nullable (\<lambda>c. NChannel n = c) (FChannel q) \<and>
     nullable (\<lambda>b. BatchID n = Some b) (FBatchID q) \<and>
     nullable (\<lambda>t. timestamptz t \<le> CreatedAt n) (FromDate q) \<and>
     nullable (\<lambda>t. CreatedAt n \<le> timestamptz t) (ToDate q)"

definition filter_args_ok :: "NotificationFilter \<Rightarrow> bool" where
  "filter_args_ok q \<longleftrightarrow> nullable text_ok (FStatus q) \<and> nullable text_ok (FChannel q)"

definition page_defaults :: "int \<Rightarrow> int \<Rightarrow> int \<times> int" where
  "page_defaults page pageSize =
     (if page < 1 then 1 else page, if pageSize < 1 \<or> pageSize > 100 then 20 else pageSize)"

definition total_pages :: "int \<Rightarrow> int \<Rightarrow> int" where
  "total_pages totalRows pageSize =
     (let totalPages = totalRows sdiv pageSize
      in if totalRows smod pageSize > 0 then totalPages + 1 else totalPages)"

definition repo_List ::
    "err fault \<Rightarrow> err fault \<Rightarrow> NotificationFilter \<Rightarrow> db \<Rightarrow> err + PaginatedResult" where
  "repo_List f1 f2 q d =
     (if \<not> filter_args_ok q
      then Inl (case f1 of Some (e, _) \<Rightarrow> e
                | None \<Rightarrow> Text ''ERROR: invalid byte sequence for encoding UTF8'')
      else
        (case query f1 (int (length (selected (filter_conditions q) d))) of
           Inl e \<Rightarrow> Inl e
         | Inr totalRows \<Rightarrow>
             (let (page, pageSize) = page_defaults (Page q) (PageSize q);
                  offset = wrap64 (wrap64 (page - 1) * pageSize)
              in case query f2 (page_of pageSize offset
                        (sort_key (\<lambda>n. - CreatedAt n) (selected (filter_conditions q) d))) of
                   Inl e \<Rightarrow> Inl e
                 | Inr (Inl e) \<Rightarrow> Inl e
                 | Inr (Inr rows) \<Rightarrow>
                     (case read_notifications None rows of
                        Inl e \<Rightarrow> Inl e
                      | Inr data \<Rightarrow>
                          Inr \<lparr>PData = data, PPage = page, PPageSize = pageSize, PTotal = totalRows,
                               TotalPages = total_pages totalRows pageSize\<rparr>))))"

section \<open>Polling\<close>

text \<open>
  \<open>locked\<close> are the rows other transactions hold, which \<open>SKIP LOCKED\<close> passes over. A row
  whose time is null is not ready.
\<close>

definition ready :: "(Notification \<Rightarrow> time option) \<Rightarrow> time \<Rightarrow> Notification \<Rightarrow> bool" where
  "ready due now n = (case due n of None \<Rightarrow> False | Some t \<Rightarrow> t \<le> now)"

definition due_time :: "(Notification \<Rightarrow> time option) \<Rightarrow> Notification \<Rightarrow> time" where
  "due_time due n = (case due n of None \<Rightarrow> 0 | Some t \<Rightarrow> t)"

definition claim ::
    "(Notification \<Rightarrow> bool) \<Rightarrow> (Notification \<Rightarrow> time option) \<Rightarrow> time \<Rightarrow> UUID list \<Rightarrow> int \<Rightarrow> db
      \<Rightarrow> err + (Notification list \<times> db)" where
  "claim P due now locked limit d =
     (let candidates = sort_key (due_time due)
            (selected (\<lambda>n. P n \<and> ready due now n \<and> ID n \<notin> set locked) d);
          chosen = take (nat limit) candidates
      in Inr (map (set_status StatusQueued now) chosen,
              change_rows (\<lambda>r. ID r \<in> set (map ID chosen)) (set_status StatusQueued now) d))"

definition read_claimed :: "(err + Notification list) \<times> db \<Rightarrow> (err + Notification list) \<times> db" where
  "read_claimed r = apfst (\<lambda>res. case res of Inl e \<Rightarrow> Inl e | Inr ns \<Rightarrow> read_notifications None ns) r"

definition repo_GetScheduledReady ::
    "err fault \<Rightarrow> time \<Rightarrow> UUID list \<Rightarrow> int \<Rightarrow> db \<Rightarrow> (err + Notification list) \<times> db" where
  "repo_GetScheduledReady f now locked limit d =
     read_claimed
       (exec f (claim (\<lambda>n. NStatus n = StatusScheduled) ScheduledAt now locked limit) d)"

definition repo_GetRetryReady ::
    "err fault \<Rightarrow> time \<Rightarrow> UUID list \<Rightarrow> int \<Rightarrow> db \<Rightarrow> (err + Notification list) \<times> db" where
  "repo_GetRetryReady f now locked limit d =
     read_claimed
       (exec f (claim (\<lambda>n. NStatus n = StatusFailed \<and> RetryCount n < MaxRetries n) NextRetryAt
         now locked limit) d)"

lemma read_claimed [simp]: "read_claimed r = r"
  by (cases r) (simp add: read_claimed_def split: sum.split)

lemmas GetScheduledReady_exec = repo_GetScheduledReady_def [unfolded read_claimed]
lemmas GetRetryReady_exec = repo_GetRetryReady_def [unfolded read_claimed]

section \<open>The table's invariant\<close>

definition row_ok :: "UUID set \<Rightarrow> Notification \<Rightarrow> bool" where
  "row_ok T n \<longleftrightarrow>
     Channel_IsValid (NChannel n) \<and> valid_priority (NPriority n) \<and> valid_status (NStatus n) \<and>
     smallint (RetryCount n) \<and> smallint (MaxRetries n) \<and> nullable (\<lambda>t. t \<in> T) (TemplateID n) \<and>
     text_ok (Recipient n) \<and> text_ok (Content n) \<and> nullable (varchar_ok 255) (ProviderMsgID n) \<and>
     jsonb_ok (Metadata n) \<and> nullable text_ok (ErrorMessage n)"

definition notifications_ok :: "db \<Rightarrow> bool" where
  "notifications_ok d \<longleftrightarrow>
     distinct (map ID (notifications d)) \<and> distinct (idempotency_keys d) \<and>
     list_all (row_ok (TID ` set (templates d))) (notifications d)"

text \<open>An assignment that keeps the keys, the foreign key and the constraints.\<close>

definition legal_change :: "(Notification \<Rightarrow> Notification) \<Rightarrow> bool" where
  "legal_change g \<longleftrightarrow>
     (\<forall>r. ID (g r) = ID r \<and> IdempotencyKey (g r) = IdempotencyKey r \<and>
          (\<forall>T. row_ok T r \<longrightarrow> row_ok T (g r)))"

lemma legal_changeD:
  "legal_change g \<Longrightarrow> ID (g r) = ID r"
  "legal_change g \<Longrightarrow> IdempotencyKey (g r) = IdempotencyKey r"
  "legal_change g \<Longrightarrow> row_ok T r \<Longrightarrow> row_ok T (g r)"
  by (simp_all add: legal_change_def)

lemma legal_set_status [simp]: "valid_status st \<Longrightarrow> legal_change (set_status st now)"
  by (simp add: legal_change_def set_status_def row_ok_def)

lemma legal_updated [simp]:
  "update_params_ok n \<Longrightarrow> update_row_ok n \<Longrightarrow> legal_change (updated n)"
  by (auto simp: legal_change_def updated_def row_ok_def update_params_ok_def update_row_ok_def
      nullable_def varchar_kept split: option.splits)

lemma valid_statuses [simp]:
  "valid_status StatusPending" "valid_status StatusScheduled" "valid_status StatusQueued"
  "valid_status StatusProcessing" "valid_status StatusDelivered" "valid_status StatusFailed"
  "valid_status StatusCancelled"
  by (simp_all add: valid_status_def)

lemma statuses_text_ok [simp]:
  "text_ok StatusPending" "text_ok StatusScheduled" "text_ok StatusQueued"
  "text_ok StatusProcessing" "text_ok StatusDelivered" "text_ok StatusFailed"
  "text_ok StatusCancelled"
  by (simp_all add: status_defs ascii_text_ok ascii_def)

lemma inserted_simps [simp]:
  "ID (inserted n) = ID n" "BatchID (inserted n) = BatchID n"
  "IdempotencyKey (inserted n) = map_option (varchar 255) (IdempotencyKey n)"
  "NChannel (inserted n) = NChannel n" "NPriority (inserted n) = NPriority n"
  "NStatus (inserted n) = NStatus n" "RetryCount (inserted n) = 0"
  "MaxRetries (inserted n) = MaxRetries n" "TemplateID (inserted n) = TemplateID n"
  "Content (inserted n) = Content n" "Recipient (inserted n) = varchar 500 (Recipient n)"
  "SentAt (inserted n) = None" "ErrorMessage (inserted n) = None"
  "NextRetryAt (inserted n) = None"
  "ScheduledAt (inserted n) = map_option timestamptz (ScheduledAt n)"
  by (simp_all add: inserted_def stored_def)

lemma updated_simps [simp]:
  "ID (updated n r) = ID r" "BatchID (updated n r) = BatchID r"
  "IdempotencyKey (updated n r) = IdempotencyKey r" "NChannel (updated n r) = NChannel r"
  "NPriority (updated n r) = NPriority r" "NStatus (updated n r) = NStatus n"
  "RetryCount (updated n r) = RetryCount n" "MaxRetries (updated n r) = MaxRetries r"
  "TemplateID (updated n r) = TemplateID r" "Content (updated n r) = Content r"
  "Recipient (updated n r) = Recipient r"
  "SentAt (updated n r) = map_option timestamptz (SentAt n)"
  "ProviderMsgID (updated n r) = map_option (varchar 255) (ProviderMsgID n)"
  "ErrorMessage (updated n r) = ErrorMessage n"
  "NextRetryAt (updated n r) = map_option timestamptz (NextRetryAt n)"
  "ScheduledAt (updated n r) = ScheduledAt r"
  by (simp_all add: updated_def)

lemma set_status_simps [simp]:
  "ID (set_status st now r) = ID r" "BatchID (set_status st now r) = BatchID r"
  "IdempotencyKey (set_status st now r) = IdempotencyKey r"
  "NChannel (set_status st now r) = NChannel r" "NPriority (set_status st now r) = NPriority r"
  "NStatus (set_status st now r) = st" "RetryCount (set_status st now r) = RetryCount r"
  "MaxRetries (set_status st now r) = MaxRetries r"
  "TemplateID (set_status st now r) = TemplateID r"
  "Content (set_status st now r) = Content r"
  "Recipient (set_status st now r) = Recipient r" "SentAt (set_status st now r) = SentAt r"
  "ErrorMessage (set_status st now r) = ErrorMessage r"
  "NextRetryAt (set_status st now r) = NextRetryAt r"
  "ScheduledAt (set_status st now r) = ScheduledAt r"
  by (simp_all add: set_status_def)

text \<open>What no statement but the \<open>INSERT\<close> writes.\<close>

definition identity :: "Notification \<Rightarrow> Notification" where
  "identity n = n\<lparr>NStatus := [], SentAt := None, ProviderMsgID := None, RetryCount := 0,
     NextRetryAt := None, Metadata := None, ErrorMessage := None, UpdatedAt := 0\<rparr>"

lemma identity_kept [simp]:
  "identity (updated n r) = identity r" "identity (set_status st now r) = identity r"
  by (simp_all add: identity_def updated_def set_status_def)

lemma identityD:
  assumes "identity n = identity m"
  shows "ID n = ID m" "NChannel n = NChannel m" "NPriority n = NPriority m"
    "Recipient n = Recipient m" "Content n = Content m" "IdempotencyKey n = IdempotencyKey m"
    "BatchID n = BatchID m"
  using assms by (cases n; cases m; simp add: identity_def)+

lemma change_rows_tables [simp]:
  "templates (change_rows P g d) = templates d"
  "delivery_attempts (change_rows P g d) = delivery_attempts d"
  "dead_letter_queue (change_rows P g d) = dead_letter_queue d"
  by (simp_all add: change_rows_def)

lemma row_ID: "row d k = Some r \<Longrightarrow> ID r = k"
  unfolding row_def by (drule by_key_SomeD) simp

lemma row_mem: "row d k = Some r \<Longrightarrow> r \<in> set (notifications d)"
  unfolding row_def by (drule by_key_SomeD) simp

lemma row_ok_row: "notifications_ok d \<Longrightarrow> row d k = Some r \<Longrightarrow> row_ok (TID ` set (templates d)) r"
  by (auto simp: notifications_ok_def list_all_iff dest: row_mem)

lemma row_change:
  "legal_change g \<Longrightarrow> row (change_rows P g d) k = map_option (\<lambda>r. if P r then g r else r) (row d k)"
  by (simp add: row_def change_rows_def by_key_map legal_changeD)

lemma map_filter_same:
  "(\<And>r. f (g r) = f r) \<Longrightarrow> List.map_filter f (map g rows) = List.map_filter f rows"
  by (induction rows) (simp_all add: List.map_filter_def)

lemma keys_change: "legal_change g \<Longrightarrow> idempotency_keys (change_rows P g d) = idempotency_keys d"
  by (simp add: idempotency_keys_def change_rows_def map_filter_same legal_changeD)

lemma IDs_change: "legal_change g \<Longrightarrow> map ID (notifications (change_rows P g d)) = map ID (notifications d)"
  by (simp add: change_rows_def legal_changeD)

lemma change_rows_ok:
  assumes "notifications_ok d" "legal_change g"
  shows "notifications_ok (change_rows P g d)"
proof -
  have "list_all (row_ok T) (notifications (change_rows P g d))"
    if "list_all (row_ok T) (notifications d)" for T
    using that legal_changeD(3) [OF assms(2)] by (auto simp: list_all_iff change_rows_def)
  with assms show ?thesis
    by (simp add: notifications_ok_def keys_change IDs_change)
qed

lemma insert_notification_Inr:
  assumes "insert_notification n d = Inr (u, d')"
  shows "insert_ok n" "row d (ID n) = None" "d' = d\<lparr>notifications := notifications d @ [inserted n]\<rparr>"
    "nullable (\<lambda>k. varchar 255 k \<notin> set (idempotency_keys d)) (IdempotencyKey n)"
    "nullable (template_exists d) (TemplateID n)"
  using assms by (auto simp: insert_notification_def row_def by_key_None_iff split: if_splits)

lemma insert_row_row:
  "insert_notification n d = Inr (u, d') \<Longrightarrow> row d' = (row d)(ID n \<mapsto> inserted n)"
  using insert_notification_Inr [of n d u d']
  by (auto simp: row_def by_key_None_iff by_key_snoc)

lemma insert_notification_ok:
  assumes "notifications_ok d" "insert_notification n d = Inr (u, d')"
  shows "notifications_ok d'"
proof -
  note i = insert_notification_Inr [OF assms(2)]
  have "row_ok (TID ` set (templates d)) (inserted n)"
    using i(1,5) by (auto simp: row_ok_def insert_ok_def template_exists_def smallint_def
        nullable_def varchar_kept inserted_def stored_def split: option.splits)
  moreover have "ID n \<notin> ID ` set (notifications d)"
    using i(2) by (simp add: row_def by_key_None_iff)
  moreover have "idempotency_keys d' = idempotency_keys d @
      (case IdempotencyKey n of None \<Rightarrow> [] | Some k \<Rightarrow> [varchar 255 k])"
    by (simp add: i(3) idempotency_keys_def List.map_filter_def split: option.split)
  ultimately show ?thesis
    using assms(1) i(3,4) by (auto simp: notifications_ok_def split: option.splits)
qed

interpretation notification_table:
  sql_table row ID inserted insert_notification change_rows legal_change notifications_ok
proof
  fix s s' :: db and r :: Notification and u :: unit and k g P
  show "row s k = Some r \<Longrightarrow> ID r = k" by (rule row_ID)
  show "insert_notification r s = Inr (u, s') \<Longrightarrow> row s (ID r) = None"
    by (rule insert_notification_Inr)
  show "insert_notification r s = Inr (u, s') \<Longrightarrow> row s' = (row s)(ID r \<mapsto> inserted r)"
    by (rule insert_row_row)
  show "notifications_ok s \<Longrightarrow> insert_notification r s = Inr (u, s') \<Longrightarrow> notifications_ok s'"
    by (rule insert_notification_ok)
  show "legal_change g \<Longrightarrow>
      row (change_rows P g s) k = map_option (\<lambda>r. if P r then g r else r) (row s k)"
    by (rule row_change)
  show "notifications_ok s \<Longrightarrow> legal_change g \<Longrightarrow> notifications_ok (change_rows P g s)"
    by (rule change_rows_ok)
qed

section \<open>Every operation keeps the invariant\<close>

lemma repo_Create_keeps [keeps]:
  "notifications_ok d \<Longrightarrow> notifications_ok (snd (repo_Create f n d))"
  using exec_keeps [where I = notifications_ok, of d "insert_notification n" f]
  by (auto simp: repo_Create_def insert_notification_ok split: prod.splits)

lemma insert_all_ok: "notifications_ok d \<Longrightarrow> insert_all ns d = Inr d' \<Longrightarrow> notifications_ok d'"
  by (induction ns arbitrary: d) (auto split: sum.splits dest: insert_notification_ok)

lemma repo_CreateBatch_keeps [keeps]:
  assumes "notifications_ok d"
  shows "notifications_ok (snd (repo_CreateBatch f1 f2 f3 ns d))"
  using assms insert_all_ok [OF assms]
  by (auto simp: repo_CreateBatch_def exec_def split: option.split sum.split prod.split)

lemma update_notification_ok:
  assumes "notifications_ok d" "update_notification n d = Inr (u, d')"
  shows "notifications_ok d'"
proof (cases "row d (ID n) = None")
  case True
  then have "change_rows (\<lambda>r. ID r = ID n) (updated n) d = d"
    by (auto simp: row_def by_key_None_iff change_rows_def intro!: db.equality map_idI)
       (metis image_eqI)
  with assms show ?thesis by (auto simp: update_notification_def split: if_splits)
next
  case False
  with assms show ?thesis
    by (auto simp: update_notification_def split: if_splits intro!: change_rows_ok legal_updated)
qed

lemma repo_Update_keeps [keeps]:
  "notifications_ok d \<Longrightarrow> notifications_ok (snd (snd (repo_Update f now n d)))"
  using exec_keeps [where I = notifications_ok, of d "update_notification (n\<lparr>UpdatedAt := now\<rparr>)" f]
  by (auto simp: repo_Update_def Let_def update_notification_ok split: prod.splits)


lemma repo_UpdateStatus_keeps [keeps]:
  assumes "notifications_ok d" "valid_status st"
  shows "notifications_ok (snd (repo_UpdateStatus f now k st d))"
  using assms
  by (auto simp: repo_UpdateStatus_def exec_def change_rows_ok split: option.split sum.split prod.split)

lemma cancel_where_ok:
  "notifications_ok d \<Longrightarrow> cancel_where P now d = Inr (c, d') \<Longrightarrow> notifications_ok d'"
  by (auto simp: cancel_where_def Let_def change_rows_ok)

lemma repo_CancelByID_keeps [keeps]:
  assumes "notifications_ok d"
  shows "notifications_ok (snd (repo_CancelByID f1 f2 now k d))"
  using exec_keeps [where I = notifications_ok and stmt = "cancel_where (\<lambda>r. ID r = k) now" and f = f1,
      OF assms cancel_where_ok [OF assms]]
  by (auto simp: repo_CancelByID_def Let_def split: prod.splits sum.splits)

lemma repo_CancelByBatchID_keeps [keeps]:
  "notifications_ok d \<Longrightarrow> notifications_ok (snd (repo_CancelByBatchID f now b d))"
  unfolding repo_CancelByBatchID_def
  by (rule exec_keeps [where I = notifications_ok]) (auto intro: cancel_where_ok)

lemma claim_ok: "notifications_ok d \<Longrightarrow> claim P due now locked l d = Inr (ns, d') \<Longrightarrow> notifications_ok d'"
  by (auto simp: claim_def Let_def change_rows_ok)

lemma repo_GetScheduledReady_keeps [keeps]:
  "notifications_ok d \<Longrightarrow> notifications_ok (snd (repo_GetScheduledReady f now locked l d))"
  unfolding GetScheduledReady_exec
  by (rule exec_keeps [where I = notifications_ok]) (auto intro: claim_ok)

lemma repo_GetRetryReady_keeps [keeps]:
  "notifications_ok d \<Longrightarrow> notifications_ok (snd (repo_GetRetryReady f now locked l d))"
  unfolding GetRetryReady_exec
  by (rule exec_keeps [where I = notifications_ok]) (auto intro: claim_ok)

section \<open>What the operations do\<close>

text \<open>The effects on one row, for the services.\<close>

lemma update_notification_row:
  assumes "update_notification n d = Inr (u, d')" "row d (ID n) = Some r"
  shows "row d' = (row d)(ID n \<mapsto> updated n r)"
proof -
  from assms have "legal_change (updated n)" "d' = change_rows (\<lambda>r. ID r = ID n) (updated n) d"
    by (auto simp: update_notification_def split: if_splits)
  then show ?thesis
    using notification_table.change_key [of "updated n" "ID n" "\<lambda>_. True" d] assms(2) by simp
qed

lemma update_notification_frame:
  "update_notification n d = Inr (u, d') \<Longrightarrow>
     templates d' = templates d \<and> delivery_attempts d' = delivery_attempts d \<and>
     dead_letter_queue d' = dead_letter_queue d"
  by (auto simp: update_notification_def split: if_splits)

lemma repo_Update_effect:
  assumes u: "repo_Update f now n d = (e, n', d')"
  shows "n' = n\<lparr>UpdatedAt := now\<rparr>"
    and "row d (ID n) = Some r \<Longrightarrow> row d' = row d \<or> row d' = (row d)(ID n \<mapsto> updated n' r)"
    and "row d (ID n) = Some r \<Longrightarrow> e = None \<Longrightarrow> row d' = (row d)(ID n \<mapsto> updated n' r)"
    and "f = None \<Longrightarrow> update_params_ok n \<Longrightarrow> update_row_ok n \<Longrightarrow> e = None"
    and "templates d' = templates d \<and> delivery_attempts d' = delivery_attempts d \<and>
         dead_letter_queue d' = dead_letter_queue d"
proof -
  let ?n = "n\<lparr>UpdatedAt := now\<rparr>"
  obtain res where x: "exec f (update_notification ?n) d = (res, d')" and e: "e = err_of res"
    and n': "n' = ?n"
    using u by (auto simp: repo_Update_def Let_def split: prod.splits)
  have dd: "d' = d \<or> (\<exists>w. update_notification ?n d = Inr (w, d'))"
    by (rule exec_cases [of f "update_notification ?n" d]) (use x in auto)
  show "n' = ?n" by (rule n')
  show "row d' = row d \<or> row d' = (row d)(ID n \<mapsto> updated n' r)" if "row d (ID n) = Some r"
    using dd update_notification_row [of ?n d _ d' r] that n' by auto
  show "row d' = (row d)(ID n \<mapsto> updated n' r)" if r: "row d (ID n) = Some r" and "e = None"
  proof -
    from \<open>e = None\<close> e obtain w where "res = Inr w" by (cases res) auto
    with x have "update_notification ?n d = Inr (w, d')" by (auto dest: exec_InrD)
    from update_notification_row [OF this] r n' show ?thesis by simp
  qed
  show "e = None" if "f = None" "update_params_ok n" "update_row_ok n"
    using that x e by (auto simp: update_notification_def update_params_ok_def update_row_ok_def)
  show "templates d' = templates d \<and> delivery_attempts d' = delivery_attempts d \<and>
         dead_letter_queue d' = dead_letter_queue d"
    using dd by (auto dest: update_notification_frame)
qed

text \<open>
  A created notification is read back as it was given, but for what the columns round;
  another one with the same ID or the same idempotency key is refused and changes nothing.
\<close>

theorem create_then_get:
  assumes "repo_Create None n d = (None, d')"
  shows "repo_GetByID None (ID n) d' = Inr (inserted n) \<and>
    (IdempotencyKey n = None \<or>
       (\<exists>k. IdempotencyKey n = Some k \<and> varchar 255 k \<in> set (idempotency_keys d'))) \<and>
    (\<forall>m f. ID m = ID n \<or> (IdempotencyKey m \<noteq> None \<and> IdempotencyKey m = IdempotencyKey n) \<longrightarrow>
        (\<exists>e. repo_Create f m d' = (Some e, d')))"
proof -
  from assms obtain u where i: "insert_notification n d = Inr (u, d')"
    by (auto simp: repo_Create_def split: sum.splits prod.splits)
  have get: "repo_GetByID None (ID n) d' = Inr (inserted n)"
    by (simp add: repo_GetByID_def insert_row_row [OF i])
  have key: "varchar 255 k \<in> set (idempotency_keys d')" if "IdempotencyKey n = Some k" for k
    using that insert_notification_Inr(3) [OF i] by (simp add: idempotency_keys_def List.map_filter_def)
  have refused: "\<exists>e. insert_notification m d' = Inl e"
    if "ID m = ID n \<or> (IdempotencyKey m \<noteq> None \<and> IdempotencyKey m = IdempotencyKey n)" for m
    using that
  proof
    assume "ID m = ID n"
    then show ?thesis by (rule notification_table.insert_once [OF i])
  next
    assume k: "IdempotencyKey m \<noteq> None \<and> IdempotencyKey m = IdempotencyKey n"
    then obtain x where "IdempotencyKey m = Some x" "IdempotencyKey n = Some x"
      by (metis option.exhaust)
    with k key show ?thesis by (auto simp: insert_notification_def)
  qed
  have "\<exists>e. repo_Create f m d' = (Some e, d')"
    if "ID m = ID n \<or> (IdempotencyKey m \<noteq> None \<and> IdempotencyKey m = IdempotencyKey n)" for m f
  proof -
    from that obtain e where "insert_notification m d' = Inl e"
      using refused by blast
    then show ?thesis by (auto simp: repo_Create_def exec_def)
  qed
  with get key show ?thesis by (cases "IdempotencyKey n") blast+
qed

lemma insert_all_rows:
  "insert_all ns d = Inr d' \<Longrightarrow> d' = d\<lparr>notifications := notifications d @ map inserted ns\<rparr>"
proof (induction ns arbitrary: d)
  case Nil
  then show ?case by simp
next
  case (Cons n ns)
  from Cons.prems obtain u d1 where i: "insert_notification n d = Inr (u, d1)" and r: "insert_all ns d1 = Inr d'"
    by (auto split: sum.splits)
  from Cons.IH [OF r] insert_notification_Inr(3) [OF i] show ?case by simp
qed

text \<open>
  A batch is created completely or not at all, whatever fails, and completely if the code
  sees no error.
\<close>

theorem batch_all_or_nothing:
  "let (e, d') = repo_CreateBatch f1 f2 f3 ns d;
       all = d\<lparr>notifications := notifications d @ map inserted ns\<rparr>
   in if e = None then d' = all else d' \<in> {d, all}"
  by (auto simp: repo_CreateBatch_def exec_def Let_def insert_all_rows
      split: option.split sum.split prod.split)


lemma cancel_none_affected:
  "selected Q d = [] \<Longrightarrow> change_rows Q g d = d"
  by (auto simp: selected_def change_rows_def filter_empty_conv intro!: db.equality map_idI)

lemma selected_key_row:
  "notifications_ok d \<Longrightarrow> selected (\<lambda>r. ID r = k \<and> P r) d = [] \<longleftrightarrow>
     (case row d k of None \<Rightarrow> True | Some r \<Rightarrow> \<not> P r)"
  using by_key_mem [of ID "notifications d"]
  by (auto simp: selected_def filter_empty_conv row_def notifications_ok_def
      split: option.split dest: by_key_SomeD)

text \<open>
  C25. Without faults a cancellation succeeds exactly for an existing notification that can be
  cancelled, turns its status to cancelled and no other row; otherwise nothing changes and the
  error says which of the two was missing.
\<close>

theorem cancel_only_cancellable:
  assumes "notifications_ok d"
  shows "let (e, d') = repo_CancelByID None None now k d
    in case row d k of
         None \<Rightarrow> e = Some (Sentinel ErrNotFound) \<and> d' = d
       | Some n \<Rightarrow>
           if Status_CanCancel (NStatus n)
           then e = None \<and> row d' = (row d)(k \<mapsto> set_status StatusCancelled now n)
           else e = Some (Sentinel ErrCannotCancel) \<and> d' = d"
proof -
  let ?P = "\<lambda>r. NStatus r = StatusPending \<or> NStatus r = StatusScheduled \<or> NStatus r = StatusQueued"
  let ?Q = "\<lambda>r. ID r = k \<and> ?P r"
  let ?d = "change_rows ?Q (set_status StatusCancelled now) d"
  have P: "?P r = Status_CanCancel (NStatus r)" for r
    by (simp add: Status_CanCancel_def)
  have r: "repo_CancelByID None None now k d =
     (if selected ?Q d = []
      then (if row ?d k = None then (Some (Sentinel ErrNotFound), ?d)
            else (Some (Sentinel ErrCannotCancel), ?d))
      else (None, ?d))"
    by (simp add: repo_CancelByID_def cancel_where_def Let_def)
  show ?thesis
  proof (cases "row d k")
    case None
    then have "selected ?Q d = []" using selected_key_row [OF assms, of k ?P] by simp
    with None show ?thesis unfolding r by (simp add: cancel_none_affected)
  next
    case (Some n)
    show ?thesis
    proof (cases "?P n")
      case True
      then have "selected ?Q d \<noteq> []" using Some selected_key_row [OF assms, of k ?P] by simp
      moreover have "row ?d = (row d)(k \<mapsto> set_status StatusCancelled now n)"
        using notification_table.change_key [of "set_status StatusCancelled now" k ?P d] Some True
        by simp
      ultimately show ?thesis unfolding r using Some True by (simp add: P [symmetric])
    next
      case False
      then have "selected ?Q d = []" using Some selected_key_row [OF assms, of k ?P] by simp
      with Some False show ?thesis unfolding r P
        by (simp add: cancel_none_affected [unfolded P])
    qed
  qed
qed

lemma claim_Inr:
  assumes "claim P due now locked l d = Inr (ns, d')"
  defines "chosen \<equiv> take (nat l) (sort_key (due_time due)
             (selected (\<lambda>n. P n \<and> ready due now n \<and> ID n \<notin> set locked) d))"
  shows "ns = map (set_status StatusQueued now) chosen"
    "d' = change_rows (\<lambda>r. ID r \<in> set (map ID chosen)) (set_status StatusQueued now) d"
    "\<forall>n\<in>set chosen. n \<in> set (notifications d) \<and> P n \<and> ready due now n \<and> ID n \<notin> set locked"
    "map ID ns = map ID chosen"
  using assms by (auto simp: claim_def Let_def selected_def dest!: in_set_takeD)

lemma claim_row:
  assumes c: "claim P due now locked l d = Inr (ns, d')"
  shows "row d' k = (if k \<in> set (map ID ns)
           then map_option (set_status StatusQueued now) (row d k) else row d k)"
proof -
  note i = claim_Inr [OF c]
  have "row d' k = map_option (\<lambda>r. if ID r \<in> set (map ID ns) then set_status StatusQueued now r else r) (row d k)"
    by (simp only: i(2) i(4)) (rule row_change, simp)
  then show ?thesis
    by (cases "row d k") (auto dest: row_ID)
qed

lemma claim_returns:
  assumes ok: "notifications_ok d" and c: "claim P due now locked l d = Inr (ns, d')"
    and m: "n \<in> set ns"
  shows "\<exists>r. row d (ID n) = Some r \<and> P r \<and> ready due now r \<and> ID n \<notin> set locked \<and>
           n = set_status StatusQueued now r \<and> row d' (ID n) = Some n"
proof -
  note i = claim_Inr [OF c]
  from m i(1) obtain r where r: "n = set_status StatusQueued now r"
      "r \<in> set (take (nat l) (sort_key (due_time due)
             (selected (\<lambda>n. P n \<and> ready due now n \<and> ID n \<notin> set locked) d)))"
    by auto
  with i(3) have p: "r \<in> set (notifications d)" "P r" "ready due now r" "ID r \<notin> set locked"
    by blast+
  from ok p(1) have "row d (ID r) = Some r"
    by (simp add: row_def notifications_ok_def by_key_mem)
  moreover have "ID n = ID r" using r(1) by simp
  moreover have "ID n \<in> set (map ID ns)" using m by simp
  ultimately show ?thesis
    using p r(1) claim_row [OF c, of "ID n"] by (intro exI [of _ r]) simp
qed

lemma claim_length: "claim P due now locked l d = Inr (ns, d') \<Longrightarrow> 0 \<le> l \<Longrightarrow> int (length ns) \<le> l"
  by (drule claim_Inr(1)) (simp add: min_def, linarith)

lemma take_sorted_before:
  assumes "x \<in> set (take k (sort_key f xs))" "y \<in> set xs" "y \<notin> set (take k (sort_key f xs))"
  shows "f x \<le> f y"
proof -
  let ?s = "sort_key f xs"
  have "y \<in> set (take k ?s @ drop k ?s)" using assms(2) by simp
  then have "y \<in> set (drop k ?s)"
    using assms(3) by (simp only: set_append Un_iff) blast
  moreover have "sorted (map f (take k ?s) @ map f (drop k ?s))"
    using sorted_sort_key [of f xs] by (metis append_take_drop_id map_append)
  ultimately show ?thesis
    using assms(1) by (auto simp: sorted_append)
qed

lemma claim_oldest_first:
  assumes ok: "notifications_ok d" and c: "claim P due now locked l d = Inr (ns, d')"
    and n: "n \<in> set ns" and r: "row d (ID n) = Some r"
    and m: "row d k = Some m" "k \<notin> set (map ID ns)" "P m" "ready due now m" "k \<notin> set locked"
  shows "due_time due r \<le> due_time due m"
proof -
  let ?sel = "selected (\<lambda>n. P n \<and> ready due now n \<and> ID n \<notin> set locked) d"
  let ?chosen = "take (nat l) (sort_key (due_time due) ?sel)"
  note i = claim_Inr [OF c]
  have id: "ID m = k" by (rule row_ID [OF m(1)])
  have m1: "m \<in> set ?sel"
    unfolding selected_def set_filter mem_Collect_eq id
    by (intro conjI row_mem [OF m(1)] m)
  have m2: "m \<notin> set ?chosen"
  proof
    assume "m \<in> set ?chosen"
    then have "ID m \<in> set (map ID ?chosen)" unfolding set_map by (rule imageI)
    then have "k \<in> set (map ID ns)" unfolding id i(4) .
    with m(2) show False ..
  qed
  have "r \<in> set ?chosen"
  proof -
    from n i(1) obtain q where q: "q \<in> set ?chosen" "ID n = ID q" by auto
    with i(3) have "q \<in> set (notifications d)" by blast
    with ok have "row d (ID q) = Some q" by (simp add: row_def notifications_ok_def by_key_mem)
    with q(2) r have "r = q" by (metis option.inject)
    with q(1) show ?thesis by (simp only:)
  qed
  from take_sorted_before [OF this m1 m2] show ?thesis .
qed

text \<open>
  A poll for scheduled notifications takes only scheduled ones whose time has come and
  that no other poller holds, at most the limit, none while an earlier one is left behind; it
  queues exactly the rows it returns, so that a second poll does not return them again.
\<close>

theorem scheduled_poll_claims:
  assumes ok: "notifications_ok d" and l: "0 \<le> l"
    and p: "repo_GetScheduledReady None now locked l d = (Inr ns, d')"
  shows "int (length ns) \<le> l \<and>
    (\<forall>k. if k \<in> set (map ID ns)
         then (\<exists>r t. row d k = Some r \<and> NStatus r = StatusScheduled \<and> ScheduledAt r = Some t \<and>
                t \<le> now \<and> k \<notin> set locked \<and> row d' k = Some (set_status StatusQueued now r) \<and>
                set_status StatusQueued now r \<in> set ns)
         else row d' k = row d k) \<and>
    (\<forall>n\<in>set ns. \<forall>k m t. row d k = Some m \<and> k \<notin> set (map ID ns) \<and>
         NStatus m = StatusScheduled \<and> ScheduledAt m = Some t \<and> t \<le> now \<and> k \<notin> set locked \<longrightarrow>
         ScheduledAt n \<noteq> None \<and> the (ScheduledAt n) \<le> t) \<and>
    (\<forall>now2 locked2 l2 ns2 d2. repo_GetScheduledReady None now2 locked2 l2 d' = (Inr ns2, d2) \<longrightarrow>
         set (map ID ns) \<inter> set (map ID ns2) = {})"
proof -
  let ?P = "\<lambda>n. NStatus n = StatusScheduled"
  have claims: "claim ?P ScheduledAt now locked l d = Inr (ns, d')"
    if "repo_GetScheduledReady None now locked l d = (Inr ns, d')" for now locked l d ns d'
    using that by (auto simp: GetScheduledReady_exec split: sum.splits prod.splits)
  note c = claims [OF p]
  have ret: "\<exists>r t. row d (ID n) = Some r \<and> ?P r \<and> ScheduledAt r = Some t \<and> t \<le> now \<and>
      ID n \<notin> set locked \<and> n = set_status StatusQueued now r \<and> row d' (ID n) = Some n"
    if "n \<in> set ns" for n
    using claim_returns [OF ok c that] by (auto simp: ready_def split: option.splits)
  have rows: "if k \<in> set (map ID ns)
         then (\<exists>r t. row d k = Some r \<and> ?P r \<and> ScheduledAt r = Some t \<and>
                t \<le> now \<and> k \<notin> set locked \<and> row d' k = Some (set_status StatusQueued now r) \<and>
                set_status StatusQueued now r \<in> set ns)
         else row d' k = row d k" for k
    using claim_row [OF c, of k] ret by fastforce
  have oldest: "ScheduledAt n \<noteq> None \<and> the (ScheduledAt n) \<le> t"
    if n: "n \<in> set ns" and m: "row d k = Some m \<and> k \<notin> set (map ID ns) \<and> ?P m \<and>
      ScheduledAt m = Some t \<and> t \<le> now \<and> k \<notin> set locked" for n k m t
  proof -
    from ret [OF n] obtain r u where r: "row d (ID n) = Some r" "ScheduledAt r = Some u"
      "n = set_status StatusQueued now r" by blast
    have "due_time ScheduledAt r \<le> due_time ScheduledAt m"
      by (rule claim_oldest_first [OF ok c n r(1), of k]) (use m in \<open>auto simp: ready_def\<close>)
    with r m show ?thesis by (simp add: due_time_def)
  qed
  have again: "set (map ID ns) \<inter> set (map ID ns2) = {}"
    if "repo_GetScheduledReady None now2 locked2 l2 d' = (Inr ns2, d2)" for now2 locked2 l2 ns2 d2
  proof -
    have "notifications_ok d'" by (rule claim_ok [OF ok c])
    note q = claim_returns [OF this claims [OF that]]
    have "NStatus n2 = StatusQueued" if "n2 \<in> set ns" "row d' (ID n2) = Some r" for n2 r
      using ret [OF that(1)] that(2) by auto
    have "ID n \<noteq> ID n2" if "n \<in> set ns" "n2 \<in> set ns2" for n n2
      using ret [OF that(1)] q [OF that(2)] by (metis option.inject set_status_simps(6) statuses_distinct(14))
    then show ?thesis by fastforce
  qed
  show ?thesis
    using claim_length [OF c l] rows oldest again by blast
qed


lemma concat_pages: "concat (map (\<lambda>i. take s (drop (i * s) xs)) [0..<n]) = take (n * s) xs"
proof (induction n)
  case 0
  then show ?case by simp
next
  case (Suc n)
  then show ?case by (simp add: take_add [of "n * s" s xs, symmetric] add.commute)
qed

lemma total_pages_ceiling:
  assumes "0 < s" "0 \<le> t"
  shows "0 \<le> total_pages t s" "t \<le> total_pages t s * s" "(total_pages t s - 1) * s < t \<or> t = 0"
proof -
  have e: "t sdiv s = t div s" "t smod s = t mod s"
    using assms by (simp_all add: signed_divide_int_def signed_modulo_int_def sgn_if abs_if)
  obtain a b where ab: "a = t div s" "b = t mod s" by blast
  have m: "t = a * s + b" "0 \<le> b" "b < s" "0 \<le> a"
    using assms by (simp_all add: ab pos_imp_zdiv_nonneg_iff)
  have tp: "total_pages t s = (if b > 0 then a + 1 else a)"
    by (simp add: total_pages_def e Let_def ab)
  show "0 \<le> total_pages t s" "t \<le> total_pages t s * s"
    unfolding tp using m by (auto simp: algebra_simps)
  show "(total_pages t s - 1) * s < t \<or> t = 0"
    unfolding tp using m assms by (auto simp: algebra_simps)
qed

definition page_data :: "err + PaginatedResult \<Rightarrow> Notification list" where
  "page_data r = (case r of Inl _ \<Rightarrow> [] | Inr res \<Rightarrow> PData res)"

lemma filter_conditions_page [simp]:
  "filter_conditions (q\<lparr>Page := p\<rparr>) = filter_conditions q"
  "filter_args_ok (q\<lparr>Page := p\<rparr>) = filter_args_ok q"
  by (simp_all add: fun_eq_iff filter_conditions_def filter_args_ok_def)

lemma repo_List_page:
  assumes "filter_args_ok q" "1 \<le> PageSize q" "PageSize q \<le> 100" "1 \<le> p"
    "(p - 1) * PageSize q < 2 ^ 62"
  shows "page_data (repo_List None None (q\<lparr>Page := p\<rparr>) d) =
    take (nat (PageSize q)) (drop (nat ((p - 1) * PageSize q))
      (sort_key (\<lambda>n. - CreatedAt n) (selected (filter_conditions q) d)))"
proof -
  have "p - 1 \<le> (p - 1) * PageSize q"
    using assms by (simp add: mult_le_cancel_left1)
  with assms have "int64_range (p - 1)" "int64_range ((p - 1) * PageSize q)"
    "\<not> (p - 1) * PageSize q < 0"
    by (auto simp: int64_range_def not_less)
  with assms show ?thesis
    by (simp add: repo_List_def page_data_def page_defaults_def page_of_def Let_def)
qed



text \<open>
  C26. A poll for retries takes only failed notifications that have retries left by their own
  row's count and whose retry time has come, and queues them.
\<close>

theorem retry_poll_claims:
  assumes ok: "notifications_ok d"
    and p: "repo_GetRetryReady None now locked l d = (Inr ns, d')"
  shows "int (length ns) \<le> max 0 l \<and>
    (\<forall>k. if k \<in> set (map ID ns)
         then (\<exists>r t. row d k = Some r \<and> NStatus r = StatusFailed \<and> RetryCount r < MaxRetries r \<and>
                NextRetryAt r = Some t \<and> t \<le> now \<and> k \<notin> set locked \<and>
                row d' k = Some (set_status StatusQueued now r) \<and>
                set_status StatusQueued now r \<in> set ns)
         else row d' k = row d k)"
proof -
  let ?P = "\<lambda>n. NStatus n = StatusFailed \<and> RetryCount n < MaxRetries n"
  from p have c: "claim ?P NextRetryAt now locked l d = Inr (ns, d')"
    by (auto simp: GetRetryReady_exec split: sum.splits prod.splits)
  have ret: "\<exists>r t. row d (ID n) = Some r \<and> ?P r \<and> NextRetryAt r = Some t \<and> t \<le> now \<and>
      ID n \<notin> set locked \<and> n = set_status StatusQueued now r \<and> row d' (ID n) = Some n"
    if "n \<in> set ns" for n
    using claim_returns [OF ok c that] by (auto simp: ready_def split: option.splits)
  have rows: "if k \<in> set (map ID ns)
         then (\<exists>r t. row d k = Some r \<and> NStatus r = StatusFailed \<and> RetryCount r < MaxRetries r \<and>
                NextRetryAt r = Some t \<and>
                t \<le> now \<and> k \<notin> set locked \<and> row d' k = Some (set_status StatusQueued now r) \<and>
                set_status StatusQueued now r \<in> set ns)
         else row d' k = row d k" for k
    using claim_row [OF c, of k] ret by fastforce
  have "length ns \<le> nat l"
    using claim_Inr(1) [OF c] by simp
  then have "int (length ns) \<le> max 0 l" by linarith
  with rows show ?thesis by blast
qed

section \<open>A sample table\<close>

definition sample_notification :: "UUID \<Rightarrow> Status \<Rightarrow> Notification" where
  "sample_notification k st =
     (NewNotification k 5000 ChannelSMS ''+905551234567'' ''Hello'' PriorityNormal)
       \<lparr>NStatus := st, IdempotencyKey := Some [char_of (48 + unat k)],
        ScheduledAt := Some (1000 * int (unat k)), NextRetryAt := Some 3000\<rparr>"

definition sample_db :: db where
  "sample_db = empty_db\<lparr>notifications :=
     [sample_notification 1 StatusScheduled, sample_notification 2 StatusScheduled,
      sample_notification 3 StatusDelivered, sample_notification 4 StatusFailed]\<rparr>"

lemma sample_notifications_ok: "notifications_ok sample_db"
  by code_simp

theorem create_then_get_witness:
  "\<exists>d. repo_Create None (sample_notification 5 StatusPending) sample_db = (None, d) \<and>
     repo_GetByID None 5 d = Inr (inserted (sample_notification 5 StatusPending)) \<and>
     (\<exists>e. repo_Create None (sample_notification 5 StatusQueued) d = (Some e, d))"
proof -
  obtain d where d: "repo_Create None (sample_notification 5 StatusPending) sample_db = (None, d)"
  proof -
    have "fst (repo_Create None (sample_notification 5 StatusPending) sample_db) = None"
      by code_simp
    then show ?thesis using that by (cases "repo_Create None (sample_notification 5 StatusPending) sample_db") auto
  qed
  have k: "ID (sample_notification 5 st) = 5" for st
    by (simp add: sample_notification_def NewNotification_def)
  from create_then_get [OF d] d show ?thesis
    unfolding k by (intro exI [of _ d]) (simp add: k)
qed

theorem cancel_only_cancellable_witness:
  "fst (repo_CancelByID None None 9000 1 sample_db) = None \<and>
   fst (repo_CancelByID None None 9000 3 sample_db) = Some (Sentinel ErrCannotCancel) \<and>
   fst (repo_CancelByID None None 9000 7 sample_db) = Some (Sentinel ErrNotFound)"
proof -
  have r: "row sample_db 1 = Some (sample_notification 1 StatusScheduled)"
    "row sample_db 3 = Some (sample_notification 3 StatusDelivered)" "row sample_db 7 = None"
    "NStatus (sample_notification 1 StatusScheduled) = StatusScheduled"
    "NStatus (sample_notification 3 StatusDelivered) = StatusDelivered"
    by (simp_all add: row_def sample_db_def empty_db_def sample_notification_def NewNotification_def)
  show ?thesis
    using cancel_only_cancellable [OF sample_notifications_ok, of 9000 1]
      cancel_only_cancellable [OF sample_notifications_ok, of 9000 3]
      cancel_only_cancellable [OF sample_notifications_ok, of 9000 7]
    by (auto simp: Let_def r Status_CanCancel_def split: prod.splits)
qed

theorem scheduled_poll_claims_witness:
  "\<exists>ns d. repo_GetScheduledReady None 1500 [] 100 sample_db = (Inr ns, d) \<and> map ID ns = [1] \<and>
     int (length ns) \<le> 100 \<and> row d 3 = row sample_db 3"
proof -
  obtain ns d where p: "repo_GetScheduledReady None 1500 [] 100 sample_db = (Inr ns, d)"
    by (auto simp: GetScheduledReady_exec claim_def Let_def)
  have "map_sum (\<lambda>_. ()) (map ID) (fst (repo_GetScheduledReady None 1500 [] 100 sample_db)) = Inr [1]"
    by code_simp
  with p have ids: "map ID ns = [1]" by simp
  then have "3 \<notin> set (map ID ns)" by simp
  with scheduled_poll_claims [OF sample_notifications_ok _ p] p ids show ?thesis
    by (intro exI [of _ ns] exI [of _ d]) auto
qed

theorem retry_poll_claims_witness:
  "\<exists>ns d. repo_GetRetryReady None 3000 [] 100 sample_db = (Inr ns, d) \<and> map ID ns = [4] \<and>
     row d 1 = row sample_db 1"
proof -
  obtain ns d where p: "repo_GetRetryReady None 3000 [] 100 sample_db = (Inr ns, d)"
    by (auto simp: GetRetryReady_exec claim_def Let_def)
  have "map_sum (\<lambda>_. ()) (map ID) (fst (repo_GetRetryReady None 3000 [] 100 sample_db)) = Inr [4]"
    by code_simp
  with p have ids: "map ID ns = [4]" by simp
  then have "1 \<notin> set (map ID ns)" by simp
  with retry_poll_claims [OF sample_notifications_ok p] p ids show ?thesis
    by (intro exI [of _ ns] exI [of _ d]) auto
qed

definition all_notifications :: NotificationFilter where
  "all_notifications = \<lparr>FStatus = None, FChannel = None, FBatchID = None, FromDate = None,
     ToDate = None, Page = 1, PageSize = 3\<rparr>"



end
