(* ===== verification/Audit_Repos.thy ===== *)
theory Audit_Repos
  imports Notification_Repo
begin

text \<open>
  The two tables that record what became of a notification:
  \<open>internal/adapter/repository/postgres/delivery_attempt.go\<close> and \<open>dead_letter.go\<close>. Both only
  take rows for notifications that exist.
\<close>

section \<open>Delivery attempts\<close>

definition notification_exists :: "db \<Rightarrow> UUID \<Rightarrow> bool" where
  "notification_exists d k \<longleftrightarrow> k \<in> set (map ID (notifications d))"

definition attempt_ok :: "DeliveryAttempt \<Rightarrow> bool" where
  "attempt_ok a \<longleftrightarrow>
     smallint (AttemptNumber a) \<and> (AStatus a = ''success'' \<or> AStatus a = ''failure'') \<and>
     nullable (varchar_ok 255) (AProviderMsgID a) \<and> nullable smallint (AStatusCode a) \<and>
     nullable text_ok (AResponseBody a) \<and> nullable text_ok (AErrorMessage a) \<and>
     integer_ok (DurationMs a)"

definition stored_attempt :: "DeliveryAttempt \<Rightarrow> DeliveryAttempt" where
  "stored_attempt a = a\<lparr>AProviderMsgID := map_option (varchar 255) (AProviderMsgID a),
     ACreatedAt := timestamptz (ACreatedAt a)\<rparr>"

definition insert_attempt :: "DeliveryAttempt \<Rightarrow> db \<Rightarrow> err + (unit \<times> db)" where
  "insert_attempt a d =
     (if \<not> attempt_ok a
      then Inl (constraint_violation ''value violates a column constraint'')
      else if AID a \<in> set (map AID (delivery_attempts d))
      then Inl (constraint_violation ''duplicate key violates delivery_attempts_pkey'')
      else if \<not> notification_exists d (ANotificationID a)
      then Inl (constraint_violation ''insert violates delivery_attempts_notification_id_fkey'')
      else Inr ((), d\<lparr>delivery_attempts := delivery_attempts d @ [stored_attempt a]\<rparr>))"

definition attempt_Create :: "err fault \<Rightarrow> DeliveryAttempt \<Rightarrow> db \<Rightarrow> err option \<times> db" where
  "attempt_Create f a d = (case exec f (insert_attempt a) d of (res, d) \<Rightarrow> (err_of res, d))"

definition attempt_GetByNotificationID ::
    "err fault \<Rightarrow> UUID \<Rightarrow> db \<Rightarrow> err + DeliveryAttempt list" where
  "attempt_GetByNotificationID f k d =
     query f (sort_key AttemptNumber (filter (\<lambda>a. ANotificationID a = k) (delivery_attempts d)))"

section \<open>Dead letters\<close>

definition dead_letter_ok :: "DeadLetterEntry \<Rightarrow> bool" where
  "dead_letter_ok e \<longleftrightarrow>
     text_ok (Reason e) \<and> nullable text_ok (LastError e) \<and> jsonb_ok (Payload e)"

text \<open>The \<open>INSERT\<close> does not write \<open>reprocessed_at\<close>.\<close>

definition stored_dead_letter :: "DeadLetterEntry \<Rightarrow> DeadLetterEntry" where
  "stored_dead_letter e = e\<lparr>DCreatedAt := timestamptz (DCreatedAt e), ReprocessedAt := None\<rparr>"

definition insert_dead_letter :: "DeadLetterEntry \<Rightarrow> db \<Rightarrow> err + (unit \<times> db)" where
  "insert_dead_letter e d =
     (if \<not> dead_letter_ok e
      then Inl (constraint_violation ''value violates a column type'')
      else if DID e \<in> set (map DID (dead_letter_queue d))
      then Inl (constraint_violation ''duplicate key violates dead_letter_queue_pkey'')
      else if \<not> notification_exists d (DNotificationID e)
      then Inl (constraint_violation ''insert violates dead_letter_queue_notification_id_fkey'')
      else Inr ((), d\<lparr>dead_letter_queue := dead_letter_queue d @ [stored_dead_letter e]\<rparr>))"

definition dlq_Create :: "err fault \<Rightarrow> DeadLetterEntry \<Rightarrow> db \<Rightarrow> err option \<times> db" where
  "dlq_Create f e d = (case exec f (insert_dead_letter e) d of (res, d) \<Rightarrow> (err_of res, d))"

definition dlq_List ::
    "err fault \<Rightarrow> int \<Rightarrow> int \<Rightarrow> db \<Rightarrow> err + DeadLetterEntry list" where
  "dlq_List f page pageSize d =
     (let (page, pageSize) = page_defaults page pageSize;
          offset = wrap64 (wrap64 (page - 1) * pageSize)
      in case query f (page_of pageSize offset
                (sort_key (\<lambda>e. - DCreatedAt e) (dead_letter_queue d))) of
           Inl e \<Rightarrow> Inl e
         | Inr r \<Rightarrow> r)"

definition dlq_MarkReprocessed :: "err fault \<Rightarrow> time \<Rightarrow> UUID \<Rightarrow> db \<Rightarrow> err option \<times> db" where
  "dlq_MarkReprocessed f now k d =
     (case exec f (\<lambda>d. Inr ((), d\<lparr>dead_letter_queue :=
              map (\<lambda>e. if DID e = k then e\<lparr>ReprocessedAt := Some (timestamptz now)\<rparr> else e)
                (dead_letter_queue d)\<rparr>)) d of
        (res, d) \<Rightarrow> (err_of res, d))"

section \<open>The tables' invariant\<close>

text \<open>Keys without duplicates, and every row belongs to a notification.\<close>

definition audit_ok :: "db \<Rightarrow> bool" where
  "audit_ok d \<longleftrightarrow>
     distinct (map AID (delivery_attempts d)) \<and> distinct (map DID (dead_letter_queue d)) \<and>
     list_all (\<lambda>a. notification_exists d (ANotificationID a)) (delivery_attempts d) \<and>
     list_all (\<lambda>e. notification_exists d (DNotificationID e)) (dead_letter_queue d)"

definition audit_of :: "db \<Rightarrow> DeliveryAttempt list \<times> DeadLetterEntry list" where
  "audit_of d = (delivery_attempts d, dead_letter_queue d)"

lemma attempt_Create_effect:
  assumes "attempt_Create f a d = (e, d')"
  shows "d' = d \<or> d' = d\<lparr>delivery_attempts := delivery_attempts d @ [stored_attempt a]\<rparr>"
    and "e = None \<Longrightarrow> d' = d\<lparr>delivery_attempts := delivery_attempts d @ [stored_attempt a]\<rparr>"
    and "f = None \<Longrightarrow> attempt_ok a \<Longrightarrow> AID a \<notin> set (map AID (delivery_attempts d)) \<Longrightarrow>
      notification_exists d (ANotificationID a) \<Longrightarrow> e = None"
  using assms
  by (auto simp: attempt_Create_def exec_def insert_attempt_def
      split: option.splits prod.splits if_splits)

lemma dlq_Create_effect:
  assumes "dlq_Create f e d = (r, d')"
  shows "d' = d \<or> d' = d\<lparr>dead_letter_queue := dead_letter_queue d @ [stored_dead_letter e]\<rparr>"
    and "r = None \<Longrightarrow> d' = d\<lparr>dead_letter_queue := dead_letter_queue d @ [stored_dead_letter e]\<rparr>"
    and "f = None \<Longrightarrow> dead_letter_ok e \<Longrightarrow> DID e \<notin> set (map DID (dead_letter_queue d)) \<Longrightarrow>
      notification_exists d (DNotificationID e) \<Longrightarrow> r = None"
  using assms
  by (auto simp: dlq_Create_def exec_def insert_dead_letter_def
      split: option.splits prod.splits if_splits)

lemma insert_attempt_ok: "audit_ok d \<Longrightarrow> insert_attempt a d = Inr (u, d') \<Longrightarrow> audit_ok d'"
  by (auto simp: insert_attempt_def audit_ok_def stored_attempt_def notification_exists_def
      split: if_splits)

lemma insert_dead_letter_ok: "audit_ok d \<Longrightarrow> insert_dead_letter e d = Inr (u, d') \<Longrightarrow> audit_ok d'"
  by (auto simp: insert_dead_letter_def audit_ok_def stored_dead_letter_def notification_exists_def
      split: if_splits)

lemma attempt_Create_keeps [keeps]:
  assumes "audit_ok d"
  shows "audit_ok (snd (attempt_Create f a d))"
proof -
  have "audit_ok (snd (exec f (insert_attempt a) d))"
    by (rule exec_keeps [where I = audit_ok]) (use assms in \<open>auto intro: insert_attempt_ok\<close>)
  then show ?thesis by (auto simp: attempt_Create_def split: prod.splits)
qed

lemma dlq_Create_keeps [keeps]:
  assumes "audit_ok d"
  shows "audit_ok (snd (dlq_Create f e d))"
proof -
  have "audit_ok (snd (exec f (insert_dead_letter e) d))"
    by (rule exec_keeps [where I = audit_ok]) (use assms in \<open>auto intro: insert_dead_letter_ok\<close>)
  then show ?thesis by (auto simp: dlq_Create_def split: prod.splits)
qed

lemma dlq_MarkReprocessed_keeps [keeps]:
  assumes "audit_ok d"
  shows "audit_ok (snd (dlq_MarkReprocessed f now k d))"
proof -
  have [simp]: "map DID (map (\<lambda>e. if DID e = k then e\<lparr>ReprocessedAt := t\<rparr> else e) es) = map DID es" for t es
    by (induction es) auto
  from assms show ?thesis
    by (auto simp: dlq_MarkReprocessed_def exec_def audit_ok_def notification_exists_def list_all_iff
        simp del: map_map split: option.split)
qed

text \<open>The notification's own table keeps the references: rows are never deleted.\<close>

lemma audit_ok_grow:
  "audit_ok d \<Longrightarrow> audit_of d' = audit_of d \<Longrightarrow> ID ` set (notifications d) \<subseteq> ID ` set (notifications d') \<Longrightarrow>
     audit_ok d'"
  by (auto simp: audit_ok_def audit_of_def notification_exists_def list_all_iff)

lemma change_rows_audit [simp]: "legal_change g \<Longrightarrow> audit_ok (change_rows P g d) = audit_ok d"
  using IDs_change [of g P d]
  by (simp add: audit_ok_def notification_exists_def)

lemma notifications_ok_audit [simp]:
  "notifications_ok (d\<lparr>delivery_attempts := as\<rparr>) = notifications_ok d"
  "notifications_ok (d\<lparr>dead_letter_queue := es\<rparr>) = notifications_ok d"
  "row (d\<lparr>delivery_attempts := as\<rparr>) = row d" "row (d\<lparr>dead_letter_queue := es\<rparr>) = row d"
  by (simp_all add: notifications_ok_def idempotency_keys_def row_def)

lemma notification_exists_row: "notification_exists d k \<longleftrightarrow> row d k \<noteq> None"
  by (auto simp: notification_exists_def row_def by_key_None_iff)

end
