(* ===== verification/Template_Repo.thy ===== *)
theory Template_Repo
  imports Notification_Repo
begin

text \<open>
  \<open>internal/adapter/repository/postgres/template.go\<close>: the table \<open>templates\<close>, whose rows are
  never deleted (\<open>Delete\<close> clears \<open>active\<close>), so that notifications can refer to them.
\<close>

section \<open>The table\<close>

definition template_row :: "db \<Rightarrow> UUID \<Rightarrow> Template option" where
  "template_row d = by_key TID (templates d)"

definition variables_ok :: "TemplateVariable list \<Rightarrow> bool" where
  "variables_ok vs \<longleftrightarrow> list_all (\<lambda>v. no_nul (VName v) \<and> nullable no_nul (Default v)) vs"

definition template_ok :: "Template \<Rightarrow> bool" where
  "template_ok t \<longleftrightarrow>
     varchar_ok 255 (TName t) \<and> Channel_IsValid (TChannel t) \<and> varchar_ok 500 (TSubject t) \<and>
     text_ok (TContent t) \<and> variables_ok (Variables t)"

definition stored_template :: "Template \<Rightarrow> Template" where
  "stored_template t = t\<lparr>TName := varchar 255 (TName t), TSubject := varchar 500 (TSubject t),
     TCreatedAt := timestamptz (TCreatedAt t), TUpdatedAt := timestamptz (TUpdatedAt t)\<rparr>"

definition insert_template :: "Template \<Rightarrow> db \<Rightarrow> err + (unit \<times> db)" where
  "insert_template t d =
     (if \<not> template_ok t
      then Inl (constraint_violation ''value violates a column constraint'')
      else if TID t \<in> set (map TID (templates d))
      then Inl (constraint_violation ''duplicate key violates templates_pkey'')
      else if varchar 255 (TName t) \<in> set (map TName (templates d))
      then Inl (constraint_violation ''duplicate key violates templates_name_key'')
      else Inr ((), d\<lparr>templates := templates d @ [stored_template t]\<rparr>))"

definition change_templates :: "(Template \<Rightarrow> bool) \<Rightarrow> (Template \<Rightarrow> Template) \<Rightarrow> db \<Rightarrow> db" where
  "change_templates P g d = d\<lparr>templates := map (\<lambda>r. if P r then g r else r) (templates d)\<rparr>"

section \<open>Operations\<close>

definition trepo_Create :: "err fault \<Rightarrow> Template \<Rightarrow> db \<Rightarrow> err option \<times> db" where
  "trepo_Create f t d = (case exec f (insert_template t) d of (res, d) \<Rightarrow> (err_of res, d))"

definition trepo_GetByID :: "err fault \<Rightarrow> UUID \<Rightarrow> db \<Rightarrow> err + Template" where
  "trepo_GetByID f k d =
     (case query f (template_row d k) of
        Inl e \<Rightarrow> Inl e
      | Inr None \<Rightarrow> Inl (Sentinel ErrNotFound)
      | Inr (Some t) \<Rightarrow> Inr t)"

definition trepo_GetByName :: "err fault \<Rightarrow> string \<Rightarrow> db \<Rightarrow> err + Template" where
  "trepo_GetByName f name d =
     (if \<not> text_ok name
      then Inl (case f of Some (e, _) \<Rightarrow> e
                | None \<Rightarrow> Text ''ERROR: invalid byte sequence for encoding UTF8'')
      else
        (case query f (by_key TName (templates d) name) of
           Inl e \<Rightarrow> Inl e
         | Inr None \<Rightarrow> Inl (Sentinel ErrNotFound)
         | Inr (Some t) \<Rightarrow> Inr t))"

definition updated_template :: "Template \<Rightarrow> Template \<Rightarrow> Template" where
  "updated_template t r = r\<lparr>TName := varchar 255 (TName t), TChannel := TChannel t,
     TSubject := varchar 500 (TSubject t), TContent := TContent t, Variables := Variables t,
     Active := Active t, TUpdatedAt := timestamptz (TUpdatedAt t)\<rparr>"

definition update_template :: "Template \<Rightarrow> db \<Rightarrow> err + (unit \<times> db)" where
  "update_template t d =
     (if \<not> (text_ok (TName t) \<and> text_ok (TChannel t) \<and> text_ok (TSubject t) \<and>
            text_ok (TContent t) \<and> variables_ok (Variables t))
      then Inl (Text ''ERROR: invalid parameter'')
      else if template_row d (TID t) \<noteq> None \<and> \<not> template_ok t
      then Inl (constraint_violation ''value violates a column constraint'')
      else if template_row d (TID t) \<noteq> None \<and>
              varchar 255 (TName t) \<in> set (map TName (filter (\<lambda>r. TID r \<noteq> TID t) (templates d)))
      then Inl (constraint_violation ''duplicate key violates templates_name_key'')
      else Inr ((), change_templates (\<lambda>r. TID r = TID t) (updated_template t) d))"

definition trepo_Update ::
    "err fault \<Rightarrow> time \<Rightarrow> Template \<Rightarrow> db \<Rightarrow> err option \<times> Template \<times> db" where
  "trepo_Update f now t d =
     (let t = t\<lparr>TUpdatedAt := now\<rparr>
      in case exec f (update_template t) d of (res, d) \<Rightarrow> (err_of res, t, d))"

definition deactivate :: "time \<Rightarrow> Template \<Rightarrow> Template" where
  "deactivate now r = r\<lparr>Active := False, TUpdatedAt := timestamptz now\<rparr>"

definition trepo_Delete :: "err fault \<Rightarrow> time \<Rightarrow> UUID \<Rightarrow> db \<Rightarrow> err option \<times> db" where
  "trepo_Delete f now k d =
     (case exec f (\<lambda>d. Inr ((), change_templates (\<lambda>r. TID r = k) (deactivate now) d)) d of
        (res, d) \<Rightarrow> (err_of res, d))"

definition trepo_List ::
    "err fault \<Rightarrow> err fault \<Rightarrow> int \<Rightarrow> int \<Rightarrow> db \<Rightarrow> err + Template list \<times> int" where
  "trepo_List f1 f2 page pageSize d =
     (let (page, pageSize) = page_defaults page pageSize;
          active = filter Active (templates d)
      in case query f1 (int (length active)) of
           Inl e \<Rightarrow> Inl e
         | Inr totalRows \<Rightarrow>
             (let offset = wrap64 (wrap64 (page - 1) * pageSize)
              in case query f2 (page_of pageSize offset
                        (sort_key (\<lambda>t. - TCreatedAt t) active)) of
                   Inl e \<Rightarrow> Inl e
                 | Inr (Inl e) \<Rightarrow> Inl e
                 | Inr (Inr ts) \<Rightarrow> Inr (ts, totalRows)))"

section \<open>The table's invariant\<close>

definition templates_ok :: "db \<Rightarrow> bool" where
  "templates_ok d \<longleftrightarrow>
     distinct (map TID (templates d)) \<and> list_all (\<lambda>t. Channel_IsValid (TChannel t)) (templates d)"

definition names_ok :: "db \<Rightarrow> bool" where
  "names_ok d \<longleftrightarrow> distinct (map TName (templates d))"

definition legal_template_change :: "(Template \<Rightarrow> Template) \<Rightarrow> bool" where
  "legal_template_change g \<longleftrightarrow>
     (\<forall>r. TID (g r) = TID r \<and> (Channel_IsValid (TChannel r) \<longrightarrow> Channel_IsValid (TChannel (g r))))"

lemma insert_template_Inr:
  assumes "insert_template t d = Inr (u, d')"
  shows "template_ok t" "TID t \<notin> TID ` set (templates d)"
    "varchar 255 (TName t) \<notin> TName ` set (templates d)"
    "d' = d\<lparr>templates := templates d @ [stored_template t]\<rparr>"
  using assms by (auto simp: insert_template_def split: if_splits)

lemma TID_change:
  "legal_template_change g \<Longrightarrow> map TID (templates (change_templates P g d)) = map TID (templates d)"
  by (simp add: change_templates_def legal_template_change_def)

lemma stored_template_simps [simp]:
  "TID (stored_template t) = TID t" "TChannel (stored_template t) = TChannel t"
  "TName (stored_template t) = varchar 255 (TName t)"
  by (simp_all add: stored_template_def)

interpretation template_table:
  sql_table template_row TID stored_template insert_template change_templates
    legal_template_change templates_ok
proof
  fix s s' :: db and r :: Template and u :: unit and k g P
  show "template_row s k = Some r \<Longrightarrow> TID r = k"
    unfolding template_row_def by (drule by_key_SomeD) simp
  show "insert_template r s = Inr (u, s') \<Longrightarrow> template_row s (TID r) = None"
    by (drule insert_template_Inr(2)) (simp add: template_row_def by_key_None_iff)
  show "insert_template r s = Inr (u, s') \<Longrightarrow>
      template_row s' = (template_row s)(TID r \<mapsto> stored_template r)"
    using insert_template_Inr [of r s u s'] by_key_snoc [of TID "stored_template r" "templates s"]
    by (simp add: template_row_def)
  show "templates_ok s \<Longrightarrow> insert_template r s = Inr (u, s') \<Longrightarrow> templates_ok s'"
    using insert_template_Inr [of r s u s'] by (simp add: templates_ok_def template_ok_def)
  show "legal_template_change g \<Longrightarrow> template_row (change_templates P g s) k =
      map_option (\<lambda>r. if P r then g r else r) (template_row s k)"
    by (simp add: template_row_def change_templates_def by_key_map legal_template_change_def)
  assume "templates_ok s" "legal_template_change g"
  moreover from this have
    "list_all (\<lambda>t. Channel_IsValid (TChannel t)) (templates (change_templates P g s))"
    by (auto simp: templates_ok_def list_all_iff change_templates_def legal_template_change_def)
  ultimately show "templates_ok (change_templates P g s)"
    by (simp add: templates_ok_def TID_change)
qed

lemma template_row_ID: "template_row d k = Some t \<Longrightarrow> TID t = k"
  by (rule template_table.look_key)

lemma legal_deactivate [simp]: "legal_template_change (deactivate now)"
  by (simp add: legal_template_change_def deactivate_def)

lemma legal_updated_template [simp]:
  "Channel_IsValid (TChannel t) \<Longrightarrow> legal_template_change (updated_template t)"
  by (simp add: legal_template_change_def updated_template_def)

section \<open>The references of the notifications\<close>

lemma row_ok_mono: "row_ok T n \<Longrightarrow> T \<subseteq> T' \<Longrightarrow> row_ok T' n"
  by (cases "TemplateID n") (auto simp: row_ok_def)

lemma notifications_ok_templates:
  assumes "notifications_ok d" "TID ` set (templates d) \<subseteq> TID ` set (templates d')"
    "notifications d' = notifications d"
  shows "notifications_ok d'"
  using assms row_ok_mono [OF _ assms(2)]
  by (simp add: notifications_ok_def idempotency_keys_def list_all_iff)

lemma change_templates_none:
  "template_row d k = None \<Longrightarrow> change_templates (\<lambda>r. TID r = k) g d = d"
  by (auto simp: template_row_def by_key_None_iff change_templates_def intro!: db.equality map_idI)

lemma update_template_Inr:
  assumes "update_template t d = Inr (u, d')"
  shows "d' = change_templates (\<lambda>r. TID r = TID t) (updated_template t) d"
    "template_row d (TID t) = None \<Longrightarrow> d' = d"
    "template_row d (TID t) \<noteq> None \<Longrightarrow> legal_template_change (updated_template t)"
    "template_row d (TID t) \<noteq> None \<Longrightarrow>
       varchar 255 (TName t) \<notin> TName ` {r \<in> set (templates d). TID r \<noteq> TID t}"
  using assms change_templates_none [of d "TID t"]
  by (auto simp: update_template_def template_ok_def split: if_splits)

lemma update_template_TIDs:
  "update_template t d = Inr (u, d') \<Longrightarrow> map TID (templates d') = map TID (templates d)"
  using update_template_Inr [of t d u d'] TID_change [of "updated_template t" _ d]
  by (cases "template_row d (TID t)") auto

lemma update_template_ok:
  "templates_ok d \<Longrightarrow> update_template t d = Inr (u, d') \<Longrightarrow> templates_ok d'"
  using update_template_Inr [of t d u d'] template_table.change_inv [of d "updated_template t"]
  by (cases "template_row d (TID t)") auto

lemma update_template_notifications:
  "update_template t d = Inr (u, d') \<Longrightarrow> notifications d' = notifications d"
  by (auto simp: update_template_def change_templates_def split: if_splits)

end
