(* ===== verification/Delivery.thy ===== *)
theory Delivery
  imports Backoff Metrics Audit_Repos Template_Repo
begin

text \<open>
  \<open>internal/service/delivery.go\<close>: how a worker processes one notification. The service's
  collaborators are the models of the adapters; the clock, the random numbers, new UUIDs, the
  provider's answer and the faults of every call are the fields of an environment, one field
  for each place of the code that asks.
\<close>

section \<open>The world and the environment\<close>

text \<open>
  \<open>wevents\<close> are the events given to the publisher and \<open>wsent\<close> the requests given to the
  provider, in their order.
\<close>

record world =
  wdb :: db
  wredis :: redis
  wbreakers :: "Channel \<Rightarrow> CircuitBreaker option"
  wevents :: "StatusEvent list"
  wsent :: "SendRequest list"

text \<open>The UUID library: the text of a UUID and its reading.\<close>

record uuid_lib =
  UUID_String :: "UUID \<Rightarrow> string"
  UUID_Parse :: "string \<Rightarrow> err + UUID"

definition uuid_lib_ok :: "uuid_lib \<Rightarrow> bool" where
  "uuid_lib_ok lib \<longleftrightarrow> (\<forall>u. UUID_Parse lib (UUID_String lib u) = Inr u)"

record Retry_Env =
  r_fault :: "err fault"
  r_updated :: time
  r_dlq_id :: UUID
  r_dlq_created :: time
  r_dlq_fault :: "err fault"
  r_random :: rat
  r_now :: time
  r_event :: time

record Process_Env =
  p_get :: "err fault"
  p_mark :: "err fault"
  p_marked :: time
  p_event :: time
  p_allow :: time
  p_limit :: "err fault"
  p_limit_server :: int
  p_limit_now :: time
  p_limit_id :: string
  p_requeue :: "err fault"
  p_requeued :: time
  p_queued_fault :: "err fault"
  p_queued :: time
  p_send :: "SendRequest \<Rightarrow> err + SendResponse option"
  p_start :: time
  p_end :: time
  p_attempt_id :: UUID
  p_attempt_created :: time
  p_attempt :: "err fault"
  p_failure :: time
  p_metrics :: "err fault"
  p_sent_at :: time
  p_final :: "err fault"
  p_finished :: time
  p_event2 :: time
  p_retry :: Retry_Env

section \<open>The service's parts\<close>

text \<open>One breaker for each channel.\<close>

definition new_breakers :: "Channel \<Rightarrow> CircuitBreaker option" where
  "new_breakers = [ChannelSMS \<mapsto> cb_New 5 3 3 (30 * Second),
                   ChannelEmail \<mapsto> cb_New 5 3 3 (30 * Second),
                   ChannelPush \<mapsto> cb_New 5 3 3 (30 * Second)]"

definition status_event :: "uuid_lib \<Rightarrow> time \<Rightarrow> Notification \<Rightarrow> StatusEvent" where
  "status_event lib now n =
     \<lparr>ENotificationID = UUID_String lib (ID n),
      EBatchID = (case BatchID n of None \<Rightarrow> [] | Some b \<Rightarrow> UUID_String lib b),
      EStatus = NStatus n, EChannel = NChannel n, ETimestamp = now,
      EError = (case ErrorMessage n of None \<Rightarrow> [] | Some e \<Rightarrow> e)\<rparr>"

text \<open>The publisher as the services see it: it takes every event.\<close>

definition world_publish :: "StatusEvent \<Rightarrow> world \<Rightarrow> world" where
  [simp]: "world_publish e w = w\<lparr>wevents := wevents w @ [e]\<rparr>"

interpretation world_publisher: event_publisher world_publish wevents "\<lambda>_. True"
  by unfold_locales simp_all

definition publishEvent :: "uuid_lib \<Rightarrow> time \<Rightarrow> Notification \<Rightarrow> world \<Rightarrow> world" where
  "publishEvent lib now n w = world_publish (status_event lib now n) w"

definition with_update :: "err fault \<Rightarrow> time \<Rightarrow> Notification \<Rightarrow> world \<Rightarrow> err option \<times> Notification \<times> world" where
  "with_update f now n w =
     (case repo_Update f now n (wdb w) of (e, n, d) \<Rightarrow> (e, n, w\<lparr>wdb := d\<rparr>))"

definition dead_letter :: "UUID \<Rightarrow> time \<Rightarrow> string \<Rightarrow> Notification \<Rightarrow> DeadLetterEntry" where
  "dead_letter uid now errMsg n =
     \<lparr>DID = uid, DNotificationID = ID n, Reason = ''max retries exceeded'',
      LastError = Some errMsg,
      Payload = Some [(''channel'', JString (NChannel n)), (''recipient'', JString (Recipient n)),
                      (''content'', JString (Content n))],
      DCreatedAt = now, ReprocessedAt = None\<rparr>"

definition handleRetry ::
    "uuid_lib \<Rightarrow> DeliveryConfig \<Rightarrow> Retry_Env \<Rightarrow> Notification \<Rightarrow> err \<Rightarrow> world \<Rightarrow> world" where
  "handleRetry lib cfg env n sendErr w =
     (let errMsg = err_Error sendErr;
          n = n\<lparr>RetryCount := RetryCount n + 1, ErrorMessage := Some errMsg\<rparr>
      in if RetryCount n \<ge> CMaxRetries cfg
         then
           (let n = n\<lparr>NStatus := StatusFailed\<rparr>;
                (_, n, w) = with_update (r_fault env) (r_updated env) n w;
                entry = dead_letter (r_dlq_id env) (r_dlq_created env) errMsg n;
                (_, d) = dlq_Create (r_dlq_fault env) entry (wdb w);
                w = w\<lparr>wdb := d\<rparr>
            in publishEvent lib (r_event env) n w)
         else
           (let delay = backoff_delay cfg (RetryCount n);
                nextRetry = r_now env + jitter (r_random env) delay;
                n = n\<lparr>NStatus := StatusFailed, NextRetryAt := Some nextRetry\<rparr>;
                (_, n, w) = with_update (r_fault env) (r_updated env) n w
            in publishEvent lib (r_event env) n w))"

definition queue_message :: "uuid_lib \<Rightarrow> Notification \<Rightarrow> QueueMessage" where
  "queue_message lib n =
     \<lparr>QNotificationID = UUID_String lib (ID n), QChannel = NChannel n,
      QPriority = NPriority n, TraceParent = []\<rparr>"

definition delivery_attempt ::
    "UUID \<Rightarrow> time \<Rightarrow> duration \<Rightarrow> err + SendResponse option \<Rightarrow> Notification \<Rightarrow> DeliveryAttempt" where
  "delivery_attempt uid now dur res n =
     \<lparr>AID = uid, ANotificationID = ID n, AttemptNumber = RetryCount n + 1,
      AStatus = (case res of Inl _ \<Rightarrow> ''failure'' | Inr _ \<Rightarrow> ''success''),
      AProviderMsgID = (case res of Inl _ \<Rightarrow> None | Inr r \<Rightarrow> map_option MessageID r),
      AStatusCode = None, AResponseBody = None,
      AErrorMessage = (case res of Inl e \<Rightarrow> Some (err_Error e) | Inr _ \<Rightarrow> None),
      DurationMs = Milliseconds dur, ACreatedAt = now\<rparr>"

definition send_request :: "Notification \<Rightarrow> SendRequest" where
  "send_request n = \<lparr>SendTo = Recipient n, SChannel = NChannel n, SContent = Content n\<rparr>"

section \<open>Sending\<close>

text \<open>
  \<open>Process\<close> from the call of the provider on, with the breaker that let it through.
\<close>

definition send_and_record ::
    "uuid_lib \<Rightarrow> DeliveryConfig \<Rightarrow> Process_Env \<Rightarrow> CircuitBreaker \<Rightarrow> Notification \<Rightarrow> world \<Rightarrow>
       err option \<times> world" where
  "send_and_record lib cfg env breaker n w =
     (let res = p_send env (send_request n);
          w = w\<lparr>wsent := wsent w @ [send_request n]\<rparr>;
          dur = time_Sub (p_end env) (p_start env);
          attempt = delivery_attempt (p_attempt_id env) (p_attempt_created env) dur res n
      in case res of
           Inl sendErr \<Rightarrow>
             (let (_, d) = attempt_Create (p_attempt env) attempt (wdb w);
                  w = w\<lparr>wdb := d,
                        wbreakers := (wbreakers w)(NChannel n \<mapsto> cb_RecordFailure (p_failure env) breaker),
                        wredis := RecordFailure (p_metrics env) (wredis w)\<rparr>
              in (Some sendErr, handleRetry lib cfg (p_retry env) n sendErr w))
         | Inr resp \<Rightarrow>
             (let w = w\<lparr>wredis := RecordDelivery (p_metrics env) (Milliseconds dur) (wredis w)\<rparr>;
                  (_, d) = attempt_Create (p_attempt env) attempt (wdb w);
                  w = w\<lparr>wdb := d,
                        wbreakers := (wbreakers w)(NChannel n \<mapsto> cb_RecordSuccess breaker)\<rparr>;
                  n = n\<lparr>NStatus := StatusDelivered, SentAt := Some (p_sent_at env),
                        ProviderMsgID := (case resp of None \<Rightarrow> ProviderMsgID n
                                          | Some r \<Rightarrow> Some (MessageID r))\<rparr>;
                  (_, n, w) = with_update (p_final env) (p_finished env) n w
              in (None, publishEvent lib (p_event2 env) n w)))"

text \<open>The rate limiter, and the way back into the queue.\<close>

definition limit_and_send ::
    "uuid_lib \<Rightarrow> DeliveryConfig \<Rightarrow> Limiter \<Rightarrow> Process_Env \<Rightarrow> CircuitBreaker \<Rightarrow> Notification \<Rightarrow> world \<Rightarrow>
       err option \<times> world" where
  "limit_and_send lib cfg lmt env breaker n w =
     (case limiter_Allow lmt (p_limit env) (p_limit_server env) (p_limit_now env)
             (p_limit_id env) (NChannel n) (wredis w) of
        (Inl e, r) \<Rightarrow> (Some e, w\<lparr>wredis := r\<rparr>)
      | (Inr allowed, r) \<Rightarrow>
          if \<not> allowed
          then
            (let (_, r) = Enqueue (p_requeue env) (p_requeued env) (queue_message lib n) r;
                 w = w\<lparr>wredis := r\<rparr>;
                 (_, n, w) = with_update (p_queued_fault env) (p_queued env)
                    (n\<lparr>NStatus := StatusQueued\<rparr>) w
             in (Some (Sentinel ErrRateLimited), w))
          else send_and_record lib cfg env breaker n (w\<lparr>wredis := r\<rparr>))"

section \<open>Process\<close>

text \<open>A channel without a breaker would be a nil pointer.\<close>

definition Process ::
    "uuid_lib \<Rightarrow> DeliveryConfig \<Rightarrow> Limiter \<Rightarrow> Process_Env \<Rightarrow> string \<Rightarrow> world \<Rightarrow> err option go \<times> world" where
  "Process lib cfg lmt env notificationID w =
     (case UUID_Parse lib notificationID of
        Inl e \<Rightarrow> (Ret (Some (Wrap ''parse notification ID: '' e [])), w)
      | Inr nid \<Rightarrow>
          (case repo_GetByID (p_get env) nid (wdb w) of
             Inl e \<Rightarrow> (Ret (Some (Wrap ''get notification: '' e [])), w)
           | Inr n \<Rightarrow>
               if Status_IsFinal (NStatus n) then (Ret None, w)
               else
                 (case with_update (p_mark env) (p_marked env) (n\<lparr>NStatus := StatusProcessing\<rparr>) w of
                    (Some e, n, w) \<Rightarrow> (Ret (Some (Wrap ''update status: '' e [])), w)
                  | (None, n, w) \<Rightarrow>
                      (let w = publishEvent lib (p_event env) n w
                       in case wbreakers w (NChannel n) of
                            None \<Rightarrow> (Panic, w)
                          | Some breaker \<Rightarrow>
                              (let (ok, breaker) = cb_Allow (p_allow env) breaker;
                                   w = w\<lparr>wbreakers := (wbreakers w)(NChannel n \<mapsto> breaker)\<rparr>
                               in if \<not> ok
                                  then (Ret (Some (Sentinel ErrCircuitOpen)),
                                        handleRetry lib cfg (p_retry env) n (Sentinel ErrCircuitOpen) w)
                                  else apfst Ret (limit_and_send lib cfg lmt env breaker n w))))))"

section \<open>The world's invariant\<close>

definition breakers_ok :: "(Channel \<Rightarrow> CircuitBreaker option) \<Rightarrow> bool" where
  "breakers_ok bs \<longleftrightarrow>
     list_all (\<lambda>c. case bs c of None \<Rightarrow> False | Some b \<Rightarrow> cb_wf b) [ChannelSMS, ChannelEmail, ChannelPush]"

definition db_ok :: "db \<Rightarrow> bool" where
  "db_ok d \<longleftrightarrow> notifications_ok d \<and> audit_ok d \<and> templates_ok d"

definition world_ok :: "world \<Rightarrow> bool" where
  "world_ok w \<longleftrightarrow> db_ok (wdb w) \<and> queue_ok (wredis w) \<and> breakers_ok (wbreakers w)"

lemma breakers_okD: "breakers_ok bs \<Longrightarrow> Channel_IsValid c \<Longrightarrow> \<exists>b. bs c = Some b \<and> cb_wf b"
  by (auto simp: breakers_ok_def Channel_IsValid_def split: option.splits)

lemma breakers_ok_upd [keeps]: "breakers_ok bs \<Longrightarrow> cb_wf b \<Longrightarrow> breakers_ok (bs(c \<mapsto> b))"
  by (auto simp: breakers_ok_def)

lemma new_breakers_ok [simp]: "breakers_ok new_breakers"
  by (simp add: breakers_ok_def new_breakers_def cb_wf_New Second_def)

lemma update_notification_IDs:
  "update_notification n d = Inr (u, d') \<Longrightarrow> map ID (notifications d') = map ID (notifications d)"
  by (auto simp: update_notification_def change_rows_def split: if_splits)

lemma audit_ok_update:
  assumes "audit_ok d" "update_notification n d = Inr (u, d')"
  shows "audit_ok d'"
  using assms update_notification_frame [OF assms(2)] arg_cong [OF update_notification_IDs [OF assms(2)], of set]
  by (auto simp: audit_ok_def notification_exists_def list_all_iff)

lemma db_ok_update: "db_ok d \<Longrightarrow> update_notification n d = Inr (u, d') \<Longrightarrow> db_ok d'"
  using update_notification_frame [of n d u d']
  by (auto simp: db_ok_def update_notification_ok audit_ok_update templates_ok_def)

lemma db_ok_repo_Update [keeps]: "db_ok d \<Longrightarrow> db_ok (snd (snd (repo_Update f now n d)))"
  using exec_keeps [where I = db_ok, of d "update_notification (n\<lparr>UpdatedAt := now\<rparr>)" f]
  by (auto simp: repo_Update_def Let_def db_ok_update split: prod.splits)

lemma attempt_Create_tables:
  "notifications (snd (attempt_Create f a d)) = notifications d"
  "templates (snd (attempt_Create f a d)) = templates d"
  "dead_letter_queue (snd (attempt_Create f a d)) = dead_letter_queue d"
  using attempt_Create_effect(1) [of f a d "fst (attempt_Create f a d)" "snd (attempt_Create f a d)"]
  by auto

lemma dlq_Create_tables:
  "notifications (snd (dlq_Create f e d)) = notifications d"
  "templates (snd (dlq_Create f e d)) = templates d"
  "delivery_attempts (snd (dlq_Create f e d)) = delivery_attempts d"
  using dlq_Create_effect(1) [of f e d "fst (dlq_Create f e d)" "snd (dlq_Create f e d)"]
  by auto

lemma notifications_ok_cong:
  "notifications d' = notifications d \<Longrightarrow> templates d' = templates d \<Longrightarrow>
     notifications_ok d' = notifications_ok d"
  by (simp add: notifications_ok_def idempotency_keys_def)

lemma db_ok_attempt_Create [keeps]: "db_ok d \<Longrightarrow> db_ok (snd (attempt_Create f a d))"
  using attempt_Create_keeps [of d f a] attempt_Create_tables [of f a d]
    notifications_ok_cong [of "snd (attempt_Create f a d)" d]
  by (simp add: db_ok_def templates_ok_def)

lemma db_ok_dlq_Create [keeps]: "db_ok d \<Longrightarrow> db_ok (snd (dlq_Create f e d))"
  using dlq_Create_keeps [of d f e] dlq_Create_tables [of f e d]
    notifications_ok_cong [of "snd (dlq_Create f e d)" d]
  by (simp add: db_ok_def templates_ok_def)

section \<open>What a step leaves alone\<close>

text \<open>
  \<open>only_touches k w w'\<close>: between the two worlds no notification but the one with ID \<open>k\<close>
  changed, that one only in what describes its delivery, no row came or went, and no template
  changed.
\<close>

definition only_touches :: "UUID \<Rightarrow> world \<Rightarrow> world \<Rightarrow> bool" where
  "only_touches k w w' \<longleftrightarrow>
     (\<forall>j. j \<noteq> k \<longrightarrow> row (wdb w') j = row (wdb w) j) \<and>
     (\<forall>j. map_option identity (row (wdb w') j) = map_option identity (row (wdb w) j)) \<and>
     templates (wdb w') = templates (wdb w)"

lemma only_touches_refl [simp]: "only_touches k w w"
  by (simp add: only_touches_def)

lemma only_touches_trans: "only_touches k w w' \<Longrightarrow> only_touches k w' w'' \<Longrightarrow> only_touches k w w''"
  by (simp add: only_touches_def)

lemma only_touches_fields [simp]:
  "only_touches k w (w'\<lparr>wevents := e\<rparr>) = only_touches k w w'"
  "only_touches k w (w'\<lparr>wsent := s\<rparr>) = only_touches k w w'"
  "only_touches k w (w'\<lparr>wredis := r\<rparr>) = only_touches k w w'"
  "only_touches k w (w'\<lparr>wbreakers := b\<rparr>) = only_touches k w w'"
  by (simp_all add: only_touches_def)

lemma with_update_frame [simp]:
  "wredis (snd (snd (with_update f now n w))) = wredis w"
  "wbreakers (snd (snd (with_update f now n w))) = wbreakers w"
  "wevents (snd (snd (with_update f now n w))) = wevents w"
  "wsent (snd (snd (with_update f now n w))) = wsent w"
  "fst (snd (with_update f now n w)) = n\<lparr>UpdatedAt := now\<rparr>"
  by (auto simp: with_update_def repo_Update_def Let_def split: prod.splits)

lemma with_update_touches:
  assumes "ID n = k"
  shows "only_touches k w (snd (snd (with_update f now n w)))"
proof -
  obtain e n' d' where u: "repo_Update f now n (wdb w) = (e, n', d')" by (metis prod_cases3)
  note t = repo_Update_effect(5) [OF u]
  have "row d' = row (wdb w) \<or> (\<exists>r. row (wdb w) k = Some r \<and> row d' = (row (wdb w))(k \<mapsto> updated n' r))"
  proof (cases "row (wdb w) k")
    case None
    have "d' = wdb w \<or> update_notification (n\<lparr>UpdatedAt := now\<rparr>) (wdb w) = Inr ((), d')"
      using u by (auto simp: repo_Update_def exec_def Let_def split: sum.splits prod.splits option.splits if_splits)
    then show ?thesis
    proof
      assume "update_notification (n\<lparr>UpdatedAt := now\<rparr>) (wdb w) = Inr ((), d')"
      then have "d' = change_rows (\<lambda>r. ID r = k) (updated (n\<lparr>UpdatedAt := now\<rparr>)) (wdb w)"
        using assms by (auto simp: update_notification_def split: if_splits)
      then have "row d' j = map_option (\<lambda>r. if ID r = k then updated (n\<lparr>UpdatedAt := now\<rparr>) r else r)
          (row (wdb w) j)" for j
        by (simp add: row_def change_rows_def by_key_map)
      then have "row d' j = row (wdb w) j" for j
        using None row_ID [of "wdb w" j] by (cases "row (wdb w) j"; cases "j = k") auto
      then show ?thesis by auto
    qed simp
  next
    case (Some r)
    with repo_Update_effect(2) [OF u, of r] assms show ?thesis by auto
  qed
  with t show ?thesis
    by (auto simp: only_touches_def with_update_def u split: if_splits)
qed

lemma world_ok_with_update [keeps]: "world_ok w \<Longrightarrow> world_ok (snd (snd (with_update f now n w)))"
  using db_ok_repo_Update [of "wdb w" f now n]
  by (auto simp: world_ok_def with_update_def split: prod.splits)

lemma world_ok_fields [simp]:
  "world_ok (w\<lparr>wevents := e\<rparr>) = world_ok w" "world_ok (w\<lparr>wsent := s\<rparr>) = world_ok w"
  by (simp_all add: world_ok_def)

lemma publishEvent_simps [simp]:
  "wdb (publishEvent lib now n w) = wdb w" "wredis (publishEvent lib now n w) = wredis w"
  "wbreakers (publishEvent lib now n w) = wbreakers w" "wsent (publishEvent lib now n w) = wsent w"
  "wevents (publishEvent lib now n w) = wevents w @ [status_event lib now n]"
  "world_ok (publishEvent lib now n w) = world_ok w"
  "only_touches k w' (publishEvent lib now n w) = only_touches k w' w"
  by (simp_all add: publishEvent_def)


section \<open>Frames of the parts\<close>

lemma world_ok_db: "world_ok w \<Longrightarrow> db_ok d \<Longrightarrow> world_ok (w\<lparr>wdb := d\<rparr>)"
  by (simp add: world_ok_def)

lemma world_ok_redis: "world_ok w \<Longrightarrow> queue_ok r \<Longrightarrow> world_ok (w\<lparr>wredis := r\<rparr>)"
  by (simp add: world_ok_def)

lemma world_ok_breakers: "world_ok w \<Longrightarrow> breakers_ok b \<Longrightarrow> world_ok (w\<lparr>wbreakers := b\<rparr>)"
  by (simp add: world_ok_def)

lemma world_okD:
  "world_ok w \<Longrightarrow> db_ok (wdb w)" "world_ok w \<Longrightarrow> queue_ok (wredis w)"
  "world_ok w \<Longrightarrow> breakers_ok (wbreakers w)"
  by (simp_all add: world_ok_def)

lemma only_touches_db:
  "notifications d = notifications (wdb w') \<Longrightarrow> templates d = templates (wdb w') \<Longrightarrow>
     only_touches k w (w'\<lparr>wdb := d\<rparr>) = only_touches k w w'"
  by (simp add: only_touches_def row_def)

text \<open>The parts of a step, in the form in which the steps compose.\<close>

definition good_step :: "UUID \<Rightarrow> world \<Rightarrow> world \<Rightarrow> bool" where
  "good_step k w w' \<longleftrightarrow> (world_ok w \<longrightarrow> world_ok w') \<and> only_touches k w w'"

lemma good_step_refl [simp]: "good_step k w w"
  by (simp add: good_step_def)

lemma good_step_trans [trans]: "good_step k w w' \<Longrightarrow> good_step k w' w'' \<Longrightarrow> good_step k w w''"
  by (auto simp: good_step_def intro: only_touches_trans)

lemma good_with_update: "ID n = k \<Longrightarrow> good_step k w (snd (snd (with_update f now n w)))"
  by (simp add: good_step_def keeps with_update_touches)

lemma good_publishEvent: "good_step k w (publishEvent lib now n w)"
  by (simp add: good_step_def)

lemma good_attempt: "good_step k w (w\<lparr>wdb := snd (attempt_Create f a (wdb w))\<rparr>)"
  by (auto simp: good_step_def attempt_Create_tables only_touches_db
      intro!: world_ok_db keeps dest: world_okD)

lemma good_dlq: "good_step k w (w\<lparr>wdb := snd (dlq_Create f e (wdb w))\<rparr>)"
  by (auto simp: good_step_def dlq_Create_tables only_touches_db
      intro!: world_ok_db keeps dest: world_okD)

lemma good_redis: "(queue_ok (wredis w) \<Longrightarrow> queue_ok r) \<Longrightarrow> good_step k w (w\<lparr>wredis := r\<rparr>)"
  by (auto simp: good_step_def intro: world_ok_redis dest: world_okD)

lemma good_breaker: "cb_wf b \<Longrightarrow> good_step k w (w\<lparr>wbreakers := (wbreakers w)(c \<mapsto> b)\<rparr>)"
  by (auto simp: good_step_def intro!: world_ok_breakers keeps dest: world_okD)

lemma good_wsent: "good_step k w (w\<lparr>wsent := s\<rparr>)"
  by (simp add: good_step_def)

lemma queue_ok_limiter [keeps]:
  assumes "queue_ok r"
  shows "queue_ok (snd (limiter_Allow l f srv now u c r))"
proof -
  have "zsets (snd (limiter_Allow l f srv now u c r)) (queueKeyPrefix @ ch) =
      zsets r (queueKeyPrefix @ ch)" for ch
    by (rule limiter_Allow_frame) simp
  with assms limiter_Allow_keeps [of r l f srv now u c] limiter_Allow_frame(2) [of l f srv now u c r]
  show ?thesis by (simp add: queue_ok_def)
qed

lemma handleRetry_good:
  assumes "ID n = k"
  shows "good_step k w (handleRetry lib cfg env n e w)"
proof (cases "RetryCount n + 1 \<ge> CMaxRetries cfg")
  case True
  let ?n = "n\<lparr>RetryCount := RetryCount n + 1, ErrorMessage := Some (err_Error e), NStatus := StatusFailed\<rparr>"
  let ?w = "snd (snd (with_update (r_fault env) (r_updated env) ?n w))"
  have "good_step k w ?w" using assms by (simp add: good_with_update)
  also have "good_step k ?w (?w\<lparr>wdb := snd (dlq_Create f x (wdb ?w))\<rparr>)" for f x
    by (rule good_dlq)
  finally show ?thesis
    using True by (auto simp: handleRetry_def Let_def split_beta intro!: good_step_trans [OF _ good_publishEvent])
next
  case False
  then show ?thesis
    using assms by (auto simp: handleRetry_def Let_def split_beta intro!: good_step_trans [OF _ good_publishEvent] good_with_update)
qed


lemma send_and_record_good:
  assumes n: "ID n = k" and b: "cb_wf breaker"
  shows "good_step k w (snd (send_and_record lib cfg env breaker n w))"
proof (cases "p_send env (send_request n)")
  case (Inl e)
  let ?a = "delivery_attempt (p_attempt_id env) (p_attempt_created env)
     (time_Sub (p_end env) (p_start env)) (Inl e) n"
  let ?w0 = "w\<lparr>wsent := wsent w @ [send_request n]\<rparr>"
  let ?w1 = "?w0\<lparr>wdb := snd (attempt_Create (p_attempt env) ?a (wdb ?w0))\<rparr>"
  let ?w2 = "?w1\<lparr>wbreakers := (wbreakers ?w1)(NChannel n \<mapsto> cb_RecordFailure (p_failure env) breaker)\<rparr>"
  let ?w3 = "?w2\<lparr>wredis := RecordFailure (p_metrics env) (wredis ?w2)\<rparr>"
  have "good_step k w ?w0" by (rule good_wsent)
  also have "good_step k ?w0 ?w1" by (rule good_attempt)
  also have "good_step k ?w1 ?w2" by (rule good_breaker) (simp add: keeps b)
  also have "good_step k ?w2 ?w3" by (rule good_redis) (simp add: keeps)
  also have "good_step k ?w3 (handleRetry lib cfg (p_retry env) n e ?w3)"
    by (rule handleRetry_good) (rule n)
  finally show ?thesis
    using Inl by (simp add: send_and_record_def Let_def split_beta)
next
  case (Inr resp)
  let ?dur = "time_Sub (p_end env) (p_start env)"
  let ?a = "delivery_attempt (p_attempt_id env) (p_attempt_created env) ?dur (Inr resp) n"
  let ?w0 = "w\<lparr>wsent := wsent w @ [send_request n]\<rparr>"
  let ?w1 = "?w0\<lparr>wredis := RecordDelivery (p_metrics env) (Milliseconds ?dur) (wredis ?w0)\<rparr>"
  let ?w2 = "?w1\<lparr>wdb := snd (attempt_Create (p_attempt env) ?a (wdb ?w1))\<rparr>"
  let ?w3 = "?w2\<lparr>wbreakers := (wbreakers ?w2)(NChannel n \<mapsto> cb_RecordSuccess breaker)\<rparr>"
  let ?n = "n\<lparr>NStatus := StatusDelivered, SentAt := Some (p_sent_at env),
                        ProviderMsgID := (case resp of None \<Rightarrow> ProviderMsgID n
                                          | Some r \<Rightarrow> Some (MessageID r))\<rparr>"
  have "good_step k w ?w0" by (rule good_wsent)
  also have "good_step k ?w0 ?w1" by (rule good_redis) (simp add: keeps)
  also have "good_step k ?w1 ?w2" by (rule good_attempt)
  also have "good_step k ?w2 ?w3" by (rule good_breaker) (simp add: keeps b)
  also have "good_step k ?w3 (snd (snd (with_update (p_final env) (p_finished env) ?n ?w3)))"
    by (rule good_with_update) (simp add: n)
  finally show ?thesis
    using Inr by (auto simp: send_and_record_def Let_def split_beta
        intro!: good_step_trans [OF _ good_publishEvent])
qed

lemma limit_and_send_good:
  assumes n: "ID n = k" and b: "cb_wf breaker"
  shows "good_step k w (snd (limit_and_send lib cfg lmt env breaker n w))"
proof -
  obtain res r where l: "limiter_Allow lmt (p_limit env) (p_limit_server env) (p_limit_now env)
             (p_limit_id env) (NChannel n) (wredis w) = (res, r)" by (metis prod.exhaust)
  let ?w1 = "w\<lparr>wredis := r\<rparr>"
  have qr: "queue_ok (wredis w) \<Longrightarrow> queue_ok r"
    using queue_ok_limiter [of "wredis w" lmt "p_limit env" "p_limit_server env" "p_limit_now env"
        "p_limit_id env" "NChannel n"] by (simp add: l)
  have g1: "good_step k w ?w1" by (rule good_redis) (rule qr)
  let ?r2 = "snd (Enqueue (p_requeue env) (p_requeued env) (queue_message lib n) r)"
  have g2: "good_step k w (w\<lparr>wredis := ?r2\<rparr>)"
    by (rule good_redis) (simp add: keeps qr)
  also have "good_step k (w\<lparr>wredis := ?r2\<rparr>) (snd (snd (with_update (p_queued_fault env) (p_queued env)
       (n\<lparr>NStatus := StatusQueued\<rparr>) (w\<lparr>wredis := ?r2\<rparr>))))"
    by (rule good_with_update) (simp add: n)
  finally show ?thesis
    using g1 good_step_trans [OF g1 send_and_record_good [OF n b]] l
    by (auto simp: limit_and_send_def Let_def split_beta split: sum.split)
qed

lemma with_update_mark:
  assumes "with_update f now n w = (e, n', w')"
  shows "n' = n\<lparr>UpdatedAt := now\<rparr>" "good_step (ID n) w w'" "wbreakers w' = wbreakers w"
    "wsent w' = wsent w" "wevents w' = wevents w" "wredis w' = wredis w"
  using assms with_update_frame [of f now n w] good_with_update [of n "ID n" w f now] by auto

lemma handleRetry_wsent [simp]:
  "wsent (handleRetry lib cfg env n e w) = wsent w"
  "wredis (handleRetry lib cfg env n e w) = wredis w"
  "wbreakers (handleRetry lib cfg env n e w) = wbreakers w"
  by (simp_all add: handleRetry_def Let_def split_beta)

lemma send_and_record_wsent [simp]:
  "wsent (snd (send_and_record lib cfg env b n w)) = wsent w @ [send_request n]"
  by (simp add: send_and_record_def Let_def split_beta split: sum.split)

lemma limit_and_send_wsent:
  "wsent (snd (limit_and_send lib cfg lmt env b n w)) \<in> {wsent w, wsent w @ [send_request n]}"
  by (simp add: limit_and_send_def Let_def split_beta split: sum.split prod.split)

lemma Process_effect:
  assumes w: "world_ok w" and p: "Process lib cfg lmt env s w = (res, w')"
  shows "world_ok w' \<and> res \<noteq> Panic \<and>
    (wsent w' = wsent w \<or>
       (\<exists>k n. UUID_Parse lib s = Inr k \<and> row (wdb w) k = Some n \<and> \<not> Status_IsFinal (NStatus n) \<and>
              wsent w' = wsent w @ [send_request n])) \<and>
    (w' = w \<or> (\<exists>k n. UUID_Parse lib s = Inr k \<and> row (wdb w) k = Some n \<and>
       \<not> Status_IsFinal (NStatus n) \<and> only_touches k w w'))"
proof (cases "UUID_Parse lib s")
  case (Inl e)
  with p w show ?thesis by (auto simp: Process_def)
next
  case parse: (Inr k)
  show ?thesis
  proof (cases "repo_GetByID (p_get env) k (wdb w)")
    case (Inl e)
    with p w parse show ?thesis by (auto simp: Process_def)
  next
    case get: (Inr n)
    then have r: "row (wdb w) k = Some n"
      by (auto simp: repo_GetByID_def split: sum.splits option.splits dest: query_Inr)
    then have id: "ID n = k" by (rule row_ID)
    show ?thesis
    proof (cases "Status_IsFinal (NStatus n)")
      case True
      with p w parse get show ?thesis by (auto simp: Process_def)
    next
      case not_final: False
      obtain e n1 w1 where u: "with_update (p_mark env) (p_marked env) (n\<lparr>NStatus := StatusProcessing\<rparr>) w = (e, n1, w1)"
        by (metis prod_cases3)
      note m = with_update_mark [OF u]
      have n1: "ID n1 = k" "NChannel n1 = NChannel n" "send_request n1 = send_request n"
        using m(1) id by (auto simp: send_request_def)
      have g1: "good_step k w w1" using m(2) id by simp
      show ?thesis
      proof (cases e)
        case (Some e')
        with p w parse get not_final u g1 m r show ?thesis
          by (auto simp: Process_def good_step_def)
      next
        case None
        let ?w2 = "publishEvent lib (p_event env) n1 w1"
        have "row_ok (TID ` set (templates (wdb w))) n"
          using w r by (auto simp: world_ok_def db_ok_def intro: row_ok_row)
        then have "Channel_IsValid (NChannel n)" by (simp add: row_ok_def)
        with w obtain b where b: "wbreakers w (NChannel n) = Some b" "cb_wf b"
          using breakers_okD [of "wbreakers w" "NChannel n"] by (auto simp: world_ok_def)
        obtain ok b' where a: "cb_Allow (p_allow env) b = (ok, b')" by (metis prod.exhaust)
        with b(2) have b': "cb_wf b'" using cb_wf_Allow [of b "p_allow env"] by simp
        let ?w3 = "?w2\<lparr>wbreakers := (wbreakers ?w2)(NChannel n1 \<mapsto> b')\<rparr>"
        have "good_step k w1 ?w2" by (rule good_publishEvent)
        also have "good_step k ?w2 ?w3" by (rule good_breaker) (rule b')
        finally have g3: "good_step k w ?w3" using good_step_trans [OF g1] by blast
        have q: "(res, w') = (if \<not> ok
             then (Ret (Some (Sentinel ErrCircuitOpen)),
                   handleRetry lib cfg (p_retry env) n1 (Sentinel ErrCircuitOpen) ?w3)
             else apfst Ret (limit_and_send lib cfg lmt env b' n1 ?w3))"
          using p by (auto simp: Process_def parse get not_final u None m(3) n1 b a Let_def split: if_splits)
        have "good_step k ?w3 w'"
          using q handleRetry_good [OF n1(1)] limit_and_send_good [OF n1(1) b']
          by (auto split: if_splits simp: apfst_def map_prod_def split_beta)
        with g3 have g: "good_step k w w'" by (rule good_step_trans)
        have s: "wsent w' = wsent w \<or> wsent w' = wsent w @ [send_request n]"
          using q limit_and_send_wsent [of lib cfg lmt env b' n1 ?w3] m(4) n1(3)
          by (auto split: if_splits simp: apfst_def map_prod_def split_beta)
        have "res \<noteq> Panic"
          using q by (auto split: if_splits simp: apfst_def map_prod_def split_beta)
        with g s w parse r not_final show ?thesis
          unfolding good_step_def by blast
      qed
    qed
  qed
qed

text \<open>
  C1. Whatever fails and whatever the provider answers, \<open>Process\<close> keeps the invariants of
  the database, the queue and the breakers, does not panic, touches no other notification's row
  and calls the provider at most once, with the notification's own recipient and content.
\<close>

theorem process_safe:
  assumes "world_ok w" and "Process lib cfg lmt env s w = (res, w')"
  shows "world_ok w' \<and> res \<noteq> Panic \<and>
    (wsent w' = wsent w \<or>
       (\<exists>k n. UUID_Parse lib s = Inr k \<and> row (wdb w) k = Some n \<and> \<not> Status_IsFinal (NStatus n) \<and>
              wsent w' = wsent w @ [send_request n])) \<and>
    (w' = w \<or> (\<exists>k n. UUID_Parse lib s = Inr k \<and> row (wdb w) k = Some n \<and>
       \<not> Status_IsFinal (NStatus n) \<and> only_touches k w w'))"
  using Process_effect [OF assms] .

section \<open>The messages\<close>

text \<open>The redis keys of the queue change only by the way back into it.\<close>

definition messages :: "redis \<Rightarrow> Channel \<Rightarrow> QueueMessage set" where
  "messages r c = dom (waiting r c) \<union> in_flight r c"

lemma messages_cong:
  "zsets r' (queueKeyPrefix @ c) = zsets r (queueKeyPrefix @ c) \<Longrightarrow>
   rsets r' (processingKeyPrefix @ c) = rsets r (processingKeyPrefix @ c) \<Longrightarrow>
   messages r' c = messages r c"
  by (simp add: messages_def waiting_def [abs_def] in_flight_def)

lemma messages_Enqueue:
  assumes "queue_ok r"
  shows "messages (snd (Enqueue f now m r)) c \<subseteq> messages r c \<union> (if c = QChannel m then {m} else {})"
proof -
  have "snd (Enqueue f now m r) = r \<or> snd (Enqueue f now m r) = zadd_message now m r"
    by (auto simp: Enqueue_def exec_def split: option.split)
  with waiting_zadd [OF assms, of now m c] show ?thesis
    by (auto simp: messages_def split: if_splits)
qed



lemma messages_send_and_record [simp]:
  "messages (wredis (snd (send_and_record lib cfg env b n w))) c = messages (wredis w) c"
  by (rule messages_cong) (simp_all add: send_and_record_def Let_def split_beta split: sum.split)

lemma messages_limiter:
  "messages (snd (limiter_Allow l f srv now u ch r)) c = messages r c"
  by (rule messages_cong) (rule limiter_Allow_frame, simp, simp add: limiter_Allow_frame(2))

lemma messages_limit_and_send:
  assumes "queue_ok (wredis w)"
  shows "messages (wredis (snd (limit_and_send lib cfg lmt env b n w))) c \<subseteq>
     messages (wredis w) c \<union> (if NChannel n = c then {queue_message lib n} else {})"
proof -
  obtain a r where l: "limiter_Allow lmt (p_limit env) (p_limit_server env) (p_limit_now env)
      (p_limit_id env) (NChannel n) (wredis w) = (a, r)" by (metis prod.exhaust)
  have r: "queue_ok r" "messages r c = messages (wredis w) c"
    using queue_ok_limiter [OF assms] messages_limiter l by (metis snd_conv)+
  show ?thesis
    using messages_Enqueue [OF r(1), of "p_requeue env" "p_requeued env" "queue_message lib n" c] r(2)
    by (auto simp: limit_and_send_def l Let_def split_beta queue_message_def split: sum.split if_splits)
qed

text \<open>What a round does to Redis is what the limiter and the sending do.\<close>

lemma Process_redis:
  assumes p: "Process lib cfg lmt env s w = (res, w')"
  shows "wredis w' = wredis w \<or>
    (\<exists>k n n1 b w3. UUID_Parse lib s = Inr k \<and> row (wdb w) k = Some n \<and>
       queue_message lib n1 = queue_message lib n \<and> NChannel n1 = NChannel n \<and>
       w' = snd (limit_and_send lib cfg lmt env b n1 w3) \<and> wredis w3 = wredis w)"
proof (cases "UUID_Parse lib s")
  case (Inl e)
  with p show ?thesis by (auto simp: Process_def)
next
  case parse: (Inr k)
  show ?thesis
  proof (cases "repo_GetByID (p_get env) k (wdb w)")
    case (Inl e)
    with p parse show ?thesis by (auto simp: Process_def)
  next
    case get: (Inr n)
    then have r: "row (wdb w) k = Some n"
      by (auto simp: repo_GetByID_def split: sum.splits option.splits dest: query_Inr)
    obtain e n1 w1 where u: "with_update (p_mark env) (p_marked env) (n\<lparr>NStatus := StatusProcessing\<rparr>) w = (e, n1, w1)"
      by (metis prod_cases3)
    note m = with_update_mark [OF u]
    have n1: "queue_message lib n1 = queue_message lib n" "NChannel n1 = NChannel n"
      by (simp_all add: m(1) queue_message_def)
    have "wredis w' = wredis w \<or>
        (\<exists>b w3. w' = snd (limit_and_send lib cfg lmt env b n1 w3) \<and> wredis w3 = wredis w)"
      using p parse get u m(6)
      by (auto simp: Process_def Let_def apfst_def map_prod_def split_beta split: if_splits option.splits
          intro!: exI)
    with parse r n1 show ?thesis by blast
  qed
qed

lemma Process_messages:
  assumes w: "world_ok w" and p: "Process lib cfg lmt env s w = (res, w')"
  shows "messages (wredis w') c \<subseteq> messages (wredis w) c \<union>
     {queue_message lib n |n k. row (wdb w) k = Some n \<and> NChannel n = c}"
  using Process_redis [OF p]
proof (elim disjE exE conjE)
  fix k n n1 b w3
  assume "row (wdb w) k = Some n" "queue_message lib n1 = queue_message lib n" "NChannel n1 = NChannel n"
    "w' = snd (limit_and_send lib cfg lmt env b n1 w3)" "wredis w3 = wredis w"
  with messages_limit_and_send [of w3 lib cfg lmt env b n1 c] w show ?thesis
    by (auto simp: world_ok_def split: if_splits)
qed simp

end
