(* ===== verification/Delivery_Outcomes.thy ===== *)
theory Delivery_Outcomes
  imports Delivery
begin

text \<open>
  What \<open>Process\<close> of \<open>internal/service/delivery.go\<close> comes to, branch by branch: the no-op on a
  final notification, delivery, a scheduled retry, a dead letter, the open circuit, the rate
  limit, and the failures that leave a notification in processing.
\<close>

section \<open>A run without faults\<close>

definition faultless :: "Process_Env \<Rightarrow> bool" where
  "faultless env \<longleftrightarrow>
     p_get env = None \<and> p_mark env = None \<and> p_limit env = None \<and> p_requeue env = None \<and>
     p_queued_fault env = None \<and> p_attempt env = None \<and> p_metrics env = None \<and>
     p_final env = None \<and> r_fault (p_retry env) = None \<and> r_dlq_fault (p_retry env) = None"

text \<open>A sound world in which the message names a notification that still has to be sent.\<close>

definition processable :: "uuid_lib \<Rightarrow> string \<Rightarrow> UUID \<Rightarrow> Notification \<Rightarrow> world \<Rightarrow> bool" where
  "processable lib s k n w \<longleftrightarrow>
     world_ok w \<and> UUID_Parse lib s = Inr k \<and> row (wdb w) k = Some n \<and> \<not> Status_IsFinal (NStatus n)"

definition breaker_admits :: "Process_Env \<Rightarrow> Channel \<Rightarrow> world \<Rightarrow> bool" where
  "breaker_admits env c w \<longleftrightarrow>
     (case wbreakers w c of None \<Rightarrow> False | Some b \<Rightarrow> fst (cb_Allow (p_allow env) b))"

definition limiter_admits :: "Limiter \<Rightarrow> Process_Env \<Rightarrow> Channel \<Rightarrow> world \<Rightarrow> bool" where
  "limiter_admits lmt env c w \<longleftrightarrow>
     fst (slidingWindowScript (p_limit_server env) (limiter_key c) (limitPerSec lmt) (windowMs lmt)
        (UnixMilli (p_limit_now env)) (p_limit_id env) (wredis w)) = 1"

definition marked :: "Process_Env \<Rightarrow> Notification \<Rightarrow> Notification" where
  "marked env n = n\<lparr>NStatus := StatusProcessing, UpdatedAt := p_marked env\<rparr>"

lemma marked_simps [simp]:
  "ID (marked env n) = ID n" "NChannel (marked env n) = NChannel n"
  "RetryCount (marked env n) = RetryCount n" "Recipient (marked env n) = Recipient n"
  "Content (marked env n) = Content n" "NStatus (marked env n) = StatusProcessing"
  "NPriority (marked env n) = NPriority n" "ErrorMessage (marked env n) = ErrorMessage n"
  "ProviderMsgID (marked env n) = ProviderMsgID n" "Metadata (marked env n) = Metadata n"
  "NextRetryAt (marked env n) = NextRetryAt n" "SentAt (marked env n) = SentAt n"
  "send_request (marked env n) = send_request n"
  "queue_message lib (marked env n) = queue_message lib n"
  by (simp_all add: marked_def send_request_def queue_message_def)

lemma row_ok_params:
  "row_ok T n \<Longrightarrow> update_params_ok n \<and> update_row_ok n"
  by (auto simp: row_ok_def update_params_ok_def update_row_ok_def valid_status_def nullable_def
      varchar_ok_text split: option.splits)

lemma with_update_ok:
  assumes "row (wdb w) (ID n) = Some r" "update_params_ok n" "update_row_ok n"
  shows "\<exists>d. with_update None now n w = (None, n\<lparr>UpdatedAt := now\<rparr>, w\<lparr>wdb := d\<rparr>) \<and>
     row d = (row (wdb w))(ID n \<mapsto> updated (n\<lparr>UpdatedAt := now\<rparr>) r) \<and>
     delivery_attempts d = delivery_attempts (wdb w) \<and>
     dead_letter_queue d = dead_letter_queue (wdb w) \<and> templates d = templates (wdb w)"
proof -
  obtain e n' d where u: "repo_Update None now n (wdb w) = (e, n', d)" by (metis prod_cases3)
  note f = repo_Update_effect [OF u]
  from f(4) assms have "e = None" by simp
  with f(1) f(3) [OF assms(1)] f(5) u show ?thesis
    by (auto simp: with_update_def)
qed

lemma Process_steps:
  assumes p: "processable lib s k n w" and f: "p_get env = None" "p_mark env = None"
    and b: "wbreakers w (NChannel n) = Some b"
  defines "w1 \<equiv> \<lambda>d. w\<lparr>wdb := d,
      wevents := wevents w @ [status_event lib (p_event env) (marked env n)],
      wbreakers := (wbreakers w)(NChannel n \<mapsto> snd (cb_Allow (p_allow env) b))\<rparr>"
  shows "\<exists>d. row d = (row (wdb w))(k \<mapsto> updated (marked env n) n) \<and>
     delivery_attempts d = delivery_attempts (wdb w) \<and>
     dead_letter_queue d = dead_letter_queue (wdb w) \<and> templates d = templates (wdb w) \<and>
     Process lib cfg lmt env s w =
       (if fst (cb_Allow (p_allow env) b)
        then apfst Ret (limit_and_send lib cfg lmt env (snd (cb_Allow (p_allow env) b)) (marked env n) (w1 d))
        else (Ret (Some (Sentinel ErrCircuitOpen)),
              handleRetry lib cfg (p_retry env) (marked env n) (Sentinel ErrCircuitOpen) (w1 d)))"
proof -
  let ?n = "n\<lparr>NStatus := StatusProcessing\<rparr>"
  from p have r: "row (wdb w) k = Some n" and ok: "notifications_ok (wdb w)"
    by (auto simp: processable_def world_ok_def db_ok_def)
  then have id: "ID n = k" by (simp add: row_ID)
  have "update_params_ok ?n" "update_row_ok ?n"
    using row_ok_params [OF row_ok_row [OF ok r]]
    by (auto simp: update_params_ok_def update_row_ok_def)
  with with_update_ok [of w ?n n "p_marked env"] r id obtain d where
    u: "with_update None (p_marked env) ?n w = (None, marked env n, w\<lparr>wdb := d\<rparr>)"
    and d: "row d = (row (wdb w))(k \<mapsto> updated (marked env n) n)"
      "delivery_attempts d = delivery_attempts (wdb w)"
      "dead_letter_queue d = dead_letter_queue (wdb w)" "templates d = templates (wdb w)"
    by (auto simp: marked_def)
  have "repo_GetByID (p_get env) k (wdb w) = Inr n"
    by (simp add: repo_GetByID_def f r)
  with p u f b d show ?thesis
    by (intro exI [of _ d])
       (simp add: Process_def processable_def Let_def split_beta w1_def publishEvent_def)
qed

text \<open>The limiter's answer is a function of the windows, which marking does not touch.\<close>

text \<open>Two states of Redis with the same messages waiting and in flight.\<close>

definition same_queue :: "redis \<Rightarrow> redis \<Rightarrow> bool" where
  "same_queue r r' \<longleftrightarrow> (\<forall>c. zsets r' (queueKeyPrefix @ c) = zsets r (queueKeyPrefix @ c) \<and>
     rsets r' (processingKeyPrefix @ c) = rsets r (processingKeyPrefix @ c))"

lemma same_queueD:
  assumes "same_queue r r'"
  shows "waiting r' c = waiting r c" "in_flight r' c = in_flight r c"
  using assms by (simp_all add: same_queue_def waiting_def [abs_def] in_flight_def)

lemma same_queue_trans: "same_queue r r' \<Longrightarrow> same_queue r' r'' \<Longrightarrow> same_queue r r''"
  by (simp add: same_queue_def)

lemma same_queue_refl [simp]: "same_queue r r"
  by (simp add: same_queue_def)

lemma same_queue_limiter: "same_queue r (snd (limiter_Allow l f srv now u c r))"
  by (simp add: same_queue_def limiter_Allow_frame)

lemma same_queue_send: "same_queue (wredis w) (wredis (snd (send_and_record lib cfg env b n w)))"
  by (simp add: same_queue_def send_and_record_def Let_def split_beta split: sum.split)

lemma same_queue_metrics:
  "same_queue r (RecordDelivery f l r)" "same_queue r (RecordFailure f r)"
  by (simp_all add: same_queue_def)

lemma limit_and_send_admitted:
  assumes "p_limit env = None" "limiter_admits lmt env (NChannel n) w"
  shows "\<exists>r. limit_and_send lib cfg lmt env b n w = send_and_record lib cfg env b n (w\<lparr>wredis := r\<rparr>) \<and>
     same_queue (wredis w) r"
proof -
  obtain a r where l: "limiter_Allow lmt (p_limit env) (p_limit_server env) (p_limit_now env)
      (p_limit_id env) (NChannel n) (wredis w) = (a, r)" by (metis prod.exhaust)
  with assms have "a = Inr True"
    by (auto simp: limiter_Allow_def limiter_admits_def split: prod.splits)
  moreover have "same_queue (wredis w) r"
    using same_queue_limiter [of "wredis w" lmt "p_limit env" "p_limit_server env" "p_limit_now env"
        "p_limit_id env" "NChannel n"] l by simp
  ultimately show ?thesis using l by (auto simp: limit_and_send_def)
qed

lemma limit_and_send_limited:
  assumes "p_limit env = None" "\<not> limiter_admits lmt env (NChannel n) w"
  shows "limit_and_send lib cfg lmt env b n w =
    (let r = snd (slidingWindowScript (p_limit_server env) (limiter_key (NChannel n)) (limitPerSec lmt)
               (windowMs lmt) (UnixMilli (p_limit_now env)) (p_limit_id env) (wredis w));
         r = snd (Enqueue (p_requeue env) (p_requeued env) (queue_message lib n) r)
     in (Some (Sentinel ErrRateLimited),
         snd (snd (with_update (p_queued_fault env) (p_queued env) (n\<lparr>NStatus := StatusQueued\<rparr>)
              (w\<lparr>wredis := r\<rparr>)))))"
  using assms
  by (auto simp: limit_and_send_def limiter_Allow_def limiter_admits_def Let_def split_beta
      split: prod.split)

lemma limiter_admits_cong:
  "wredis w' = wredis w \<Longrightarrow> limiter_admits lmt env c w' = limiter_admits lmt env c w"
  by (simp add: limiter_admits_def)


section \<open>What \<open>handleRetry\<close> does\<close>

definition failed_notification ::
    "DeliveryConfig \<Rightarrow> Retry_Env \<Rightarrow> err \<Rightarrow> Notification \<Rightarrow> Notification" where
  "failed_notification cfg env e n = n\<lparr>
     RetryCount := RetryCount n + 1, ErrorMessage := Some (err_Error e), NStatus := StatusFailed,
     NextRetryAt := (if RetryCount n + 1 \<ge> CMaxRetries cfg then NextRetryAt n
        else Some (r_now env + jitter (r_random env) (backoff_delay cfg (RetryCount n + 1)))),
     UpdatedAt := r_updated env\<rparr>"

lemma failed_notification_simps [simp]:
  "ID (failed_notification cfg env e n) = ID n"
  "NStatus (failed_notification cfg env e n) = StatusFailed"
  "RetryCount (failed_notification cfg env e n) = RetryCount n + 1"
  "ErrorMessage (failed_notification cfg env e n) = Some (err_Error e)"
  "dead_letter u t m (failed_notification cfg env e n) = dead_letter u t m n"
  "(failed_notification cfg env e n)\<lparr>UpdatedAt := r_updated env\<rparr> = failed_notification cfg env e n"
  by (simp_all add: failed_notification_def dead_letter_def)

lemma dead_letter_marked [simp]: "dead_letter u t m (marked env n) = dead_letter u t m n"
  by (simp add: dead_letter_def)

lemma handleRetry_effect:
  assumes r: "row (wdb w) (ID n) = Some q" and f: "r_fault env = None"
    and n: "update_params_ok n" "update_row_ok n" "smallint (RetryCount n + 1)" "text_ok (err_Error e)"
  shows "row (wdb (handleRetry lib cfg env n e w)) =
           (row (wdb w))(ID n \<mapsto> updated (failed_notification cfg env e n) q)"
    and "delivery_attempts (wdb (handleRetry lib cfg env n e w)) = delivery_attempts (wdb w)"
    and "RetryCount n + 1 < CMaxRetries cfg \<Longrightarrow>
           dead_letter_queue (wdb (handleRetry lib cfg env n e w)) = dead_letter_queue (wdb w)"
    and "RetryCount n + 1 \<ge> CMaxRetries cfg \<Longrightarrow> r_dlq_fault env = None \<Longrightarrow>
           no_nul (NChannel n) \<Longrightarrow> no_nul (Recipient n) \<Longrightarrow> no_nul (Content n) \<Longrightarrow>
           r_dlq_id env \<notin> set (map DID (dead_letter_queue (wdb w))) \<Longrightarrow>
           dead_letter_queue (wdb (handleRetry lib cfg env n e w)) = dead_letter_queue (wdb w) @
             [stored_dead_letter (dead_letter (r_dlq_id env) (r_dlq_created env) (err_Error e) n)]"
    and "wevents (handleRetry lib cfg env n e w) =
           wevents w @ [status_event lib (r_event env) (failed_notification cfg env e n)]"
proof -
  let ?last = "RetryCount n + 1 \<ge> CMaxRetries cfg"
  let ?m = "(failed_notification cfg env e n)\<lparr>UpdatedAt := UpdatedAt n\<rparr>"
  have m: "update_params_ok ?m" "update_row_ok ?m" "ID ?m = ID n"
    "?m\<lparr>UpdatedAt := r_updated env\<rparr> = failed_notification cfg env e n"
    using n by (simp_all add: failed_notification_def update_params_ok_def update_row_ok_def)
  have rm: "row (wdb w) (ID ?m) = Some q" unfolding m(3) by (rule r)
  obtain d where
    u: "with_update (r_fault env) (r_updated env) ?m w = (None, failed_notification cfg env e n, w\<lparr>wdb := d\<rparr>)"
    and d: "row d = (row (wdb w))(ID n \<mapsto> updated (failed_notification cfg env e n) q)"
      "delivery_attempts d = delivery_attempts (wdb w)"
      "dead_letter_queue d = dead_letter_queue (wdb w)" "templates d = templates (wdb w)"
    using with_update_ok [OF rm m(1,2), of "r_updated env", unfolded m(3,4)] unfolding f by blast
  let ?x = "dead_letter (r_dlq_id env) (r_dlq_created env) (err_Error e) n"
  let ?d = "snd (dlq_Create (r_dlq_fault env) ?x d)"
  have "handleRetry lib cfg env n e w =
      publishEvent lib (r_event env) (failed_notification cfg env e n)
        (w\<lparr>wdb := if ?last then ?d else d\<rparr>)"
  proof (cases ?last)
    case True
    then have "n\<lparr>RetryCount := RetryCount n + 1, ErrorMessage := Some (err_Error e), NStatus := StatusFailed\<rparr> = ?m"
      by (simp add: failed_notification_def)
    with True u show ?thesis
      by (simp add: handleRetry_def Let_def split_beta)
  next
    case False
    then have "n\<lparr>RetryCount := RetryCount n + 1, ErrorMessage := Some (err_Error e), NStatus := StatusFailed,
        NextRetryAt := Some (r_now env + jitter (r_random env) (backoff_delay cfg (RetryCount n + 1)))\<rparr> = ?m"
      by (simp add: failed_notification_def)
    with False u show ?thesis
      by (simp add: handleRetry_def Let_def split_beta)
  qed
  note h = this
  show "row (wdb (handleRetry lib cfg env n e w)) =
           (row (wdb w))(ID n \<mapsto> updated (failed_notification cfg env e n) q)"
    using d dlq_Create_tables(1) [of "r_dlq_fault env" ?x d] by (simp add: h row_def)
  show "delivery_attempts (wdb (handleRetry lib cfg env n e w)) = delivery_attempts (wdb w)"
    using d dlq_Create_tables(3) [of "r_dlq_fault env" ?x d] by (simp add: h)
  show "dead_letter_queue (wdb (handleRetry lib cfg env n e w)) = dead_letter_queue (wdb w)"
    if "RetryCount n + 1 < CMaxRetries cfg"
    using d that by (simp add: h)
  show "wevents (handleRetry lib cfg env n e w) =
           wevents w @ [status_event lib (r_event env) (failed_notification cfg env e n)]"
    by (simp add: h)
  show "dead_letter_queue (wdb (handleRetry lib cfg env n e w)) = dead_letter_queue (wdb w) @ [stored_dead_letter ?x]"
    if t: "?last" "r_dlq_fault env = None" "no_nul (NChannel n)" "no_nul (Recipient n)" "no_nul (Content n)"
      "r_dlq_id env \<notin> set (map DID (dead_letter_queue (wdb w)))"
  proof -
    obtain res where c: "dlq_Create None ?x d = (res, ?d)"
      using t(2) by (metis prod.exhaust_sel)
    have "dead_letter_ok ?x"
      using t n by (auto simp: dead_letter_ok_def dead_letter_def jsonb_ok_def no_nul_def
          ascii_text_ok ascii_def)
    moreover have "notification_exists d (DNotificationID ?x)"
      by (simp add: notification_exists_row d dead_letter_def)
    ultimately have "res = None"
      using dlq_Create_effect(3) [OF c] t d by (simp add: dead_letter_def)
    with dlq_Create_effect(2) [OF c] t d show ?thesis by (simp add: h)
  qed
qed


section \<open>The outcomes of \<open>Process\<close>\<close>

definition attempt_recordable :: "Process_Env \<Rightarrow> Notification \<Rightarrow> world \<Rightarrow> bool" where
  "attempt_recordable env n w \<longleftrightarrow>
     p_attempt_id env \<notin> set (map AID (delivery_attempts (wdb w))) \<and>
     integer_ok (Milliseconds (time_Sub (p_end env) (p_start env))) \<and> smallint (RetryCount n + 1)"

definition attempt_of :: "Process_Env \<Rightarrow> Notification \<Rightarrow> DeliveryAttempt" where
  "attempt_of env n =
     stored_attempt (delivery_attempt (p_attempt_id env) (p_attempt_created env)
       (time_Sub (p_end env) (p_start env)) (p_send env (send_request n)) n)"

lemma attempt_recorded:
  assumes "attempt_recordable env n w" "row (wdb w) (ID n) \<noteq> None"
    "case p_send env (send_request n) of Inl e \<Rightarrow> text_ok (err_Error e)
       | Inr resp \<Rightarrow> nullable (varchar_ok 255) (map_option MessageID resp)"
    "delivery_attempts d = delivery_attempts (wdb w)" "row d (ID n) \<noteq> None"
  shows "snd (attempt_Create None (delivery_attempt (p_attempt_id env) (p_attempt_created env)
       (time_Sub (p_end env) (p_start env)) (p_send env (send_request n)) n) d) =
     d\<lparr>delivery_attempts := delivery_attempts (wdb w) @ [attempt_of env n]\<rparr>"
proof -
  let ?a = "delivery_attempt (p_attempt_id env) (p_attempt_created env)
       (time_Sub (p_end env) (p_start env)) (p_send env (send_request n)) n"
  obtain e d' where c: "attempt_Create None ?a d = (e, d')" by (metis prod.exhaust)
  have "attempt_ok ?a"
    using assms by (auto simp: attempt_ok_def delivery_attempt_def attempt_recordable_def
        split: sum.splits)
  then have "e = None"
    using attempt_Create_effect(3) [OF c] assms
    by (simp add: delivery_attempt_def attempt_recordable_def notification_exists_row)
  with attempt_Create_effect(2) [OF c] assms c show ?thesis by (simp add: attempt_of_def)
qed

lemma send_failure:
  assumes ok: "faultless env" "p_send env (send_request n) = Inl e" "text_ok (err_Error e)"
    and q: "row (wdb w) (ID n) = Some q" and a: "attempt_recordable env n w"
    and n: "update_params_ok n" "update_row_ok n"
  shows "\<exists>w1. send_and_record lib cfg env b n w = (Some e, handleRetry lib cfg (p_retry env) n e w1) \<and>
    wdb w1 = (wdb w)\<lparr>delivery_attempts := delivery_attempts (wdb w) @ [attempt_of env n]\<rparr> \<and>
    wevents w1 = wevents w \<and> wsent w1 = wsent w @ [send_request n] \<and>
    wbreakers w1 = (wbreakers w)(NChannel n \<mapsto> cb_RecordFailure (p_failure env) b) \<and>
    wredis w1 = RecordFailure (p_metrics env) (wredis w)"
  using attempt_recorded [OF a, of "wdb w"] ok q
  by (simp add: send_and_record_def Let_def split_beta faultless_def)
     (intro exI conjI, rule refl, simp_all)

lemma send_success:
  assumes ok: "faultless env" "p_send env (send_request n) = Inr resp"
      "nullable (varchar_ok 255) (map_option MessageID resp)"
    and q: "row (wdb w) (ID n) = Some q" and a: "attempt_recordable env n w"
    and n: "update_params_ok n" "update_row_ok n"
  defines "m \<equiv> n\<lparr>NStatus := StatusDelivered, SentAt := Some (p_sent_at env),
      ProviderMsgID := (case resp of None \<Rightarrow> ProviderMsgID n | Some r \<Rightarrow> Some (MessageID r)),
      UpdatedAt := p_finished env\<rparr>"
  shows "\<exists>w1. send_and_record lib cfg env b n w = (None, w1) \<and>
    row (wdb w1) = (row (wdb w))(ID n \<mapsto> updated m q) \<and>
    delivery_attempts (wdb w1) = delivery_attempts (wdb w) @ [attempt_of env n] \<and>
    dead_letter_queue (wdb w1) = dead_letter_queue (wdb w) \<and>
    wevents w1 = wevents w @ [status_event lib (p_event2 env) m] \<and>
    wsent w1 = wsent w @ [send_request n] \<and>
    wbreakers w1 = (wbreakers w)(NChannel n \<mapsto> cb_RecordSuccess b)"
proof -
  let ?d = "(wdb w)\<lparr>delivery_attempts := delivery_attempts (wdb w) @ [attempt_of env n]\<rparr>"
  let ?m = "m\<lparr>UpdatedAt := UpdatedAt n\<rparr>"
  define w0 where "w0 = w\<lparr>wsent := wsent w @ [send_request n],
     wredis := RecordDelivery (p_metrics env) (Milliseconds (time_Sub (p_end env) (p_start env))) (wredis w),
     wdb := ?d, wbreakers := (wbreakers w)(NChannel n \<mapsto> cb_RecordSuccess b)\<rparr>"
  have m: "update_params_ok ?m" "update_row_ok ?m" "ID ?m = ID n" "?m\<lparr>UpdatedAt := p_finished env\<rparr> = m"
    using n ok(3) by (auto simp: m_def update_params_ok_def update_row_ok_def varchar_ok_text
        split: option.splits)
  have rm: "row (wdb w0) (ID ?m) = Some q" unfolding m(3) using q by (simp add: w0_def)
  obtain d where u: "with_update None (p_finished env) ?m w0 = (None, m, w0\<lparr>wdb := d\<rparr>)"
    and d: "row d = (row (wdb w0))(ID n \<mapsto> updated m q)"
      "delivery_attempts d = delivery_attempts (wdb w0)"
      "dead_letter_queue d = dead_letter_queue (wdb w0)" "templates d = templates (wdb w0)"
    using with_update_ok [OF rm m(1,2), of "p_finished env", unfolded m(3,4)] by blast
  have mm: "n\<lparr>NStatus := StatusDelivered, SentAt := Some (p_sent_at env),
      ProviderMsgID := (case resp of None \<Rightarrow> ProviderMsgID n | Some r \<Rightarrow> Some (MessageID r))\<rparr> = ?m"
    by (simp add: m_def)
  have "send_and_record lib cfg env b n w = (None, publishEvent lib (p_event2 env) m (w0\<lparr>wdb := d\<rparr>))"
    using attempt_recorded [OF a, of "wdb w"] ok q u [folded mm, unfolded w0_def]
    by (simp add: send_and_record_def Let_def split_beta faultless_def w0_def) (simp add: m_def)
  with d show ?thesis
    by (intro exI [of _ "publishEvent lib (p_event2 env) m (w0\<lparr>wdb := d\<rparr>)"]) (simp add: w0_def)
qed


lemma processableD:
  assumes "processable lib s k n w"
  shows "row (wdb w) k = Some n" "ID n = k" "update_params_ok (marked env n)"
    "update_row_ok (marked env n)" "no_nul (NChannel n)" "no_nul (Recipient n)" "no_nul (Content n)"
proof -
  from assms have r: "row (wdb w) k = Some n" and ok: "notifications_ok (wdb w)"
    by (auto simp: processable_def world_ok_def db_ok_def)
  show "row (wdb w) k = Some n" by (rule r)
  show "ID n = k" using r by (rule row_ID)
  note ro = row_ok_row [OF ok r]
  show "update_params_ok (marked env n)" "update_row_ok (marked env n)"
    using row_ok_params [OF ro] by (auto simp: update_params_ok_def update_row_ok_def)
  show "no_nul (Recipient n)" "no_nul (Content n)"
    using ro by (simp_all add: row_ok_def text_ok_no_nul)
  show "no_nul (NChannel n)"
    using ro by (auto simp: row_ok_def Channel_IsValid_def channel_defs no_nul_def)
qed

text \<open>The way to the limiter, and through it to the provider.\<close>

definition before_limiter :: "uuid_lib \<Rightarrow> Process_Env \<Rightarrow> UUID \<Rightarrow> Notification \<Rightarrow> world \<Rightarrow> world \<Rightarrow> bool" where
  "before_limiter lib env k n w w1 \<longleftrightarrow>
     row (wdb w1) = (row (wdb w))(k \<mapsto> updated (marked env n) n) \<and>
     delivery_attempts (wdb w1) = delivery_attempts (wdb w) \<and>
     dead_letter_queue (wdb w1) = dead_letter_queue (wdb w) \<and> wsent w1 = wsent w \<and>
     wevents w1 = wevents w @ [status_event lib (p_event env) (marked env n)]"

text \<open>The breaker of a channel after it has been asked.\<close>

definition admitting :: "Process_Env \<Rightarrow> Channel \<Rightarrow> world \<Rightarrow> CircuitBreaker" where
  "admitting env c w = snd (cb_Allow (p_allow env) (the (wbreakers w c)))"

lemma Process_admitted:
  assumes p: "processable lib s k n w" and f: "p_get env = None" "p_mark env = None"
    and b: "breaker_admits env (NChannel n) w"
  shows "\<exists>w1 b. Process lib cfg lmt env s w = apfst Ret (limit_and_send lib cfg lmt env b (marked env n) w1) \<and>
    before_limiter lib env k n w w1 \<and> wredis w1 = wredis w \<and>
    b = admitting env (NChannel n) w \<and> wbreakers w1 = (wbreakers w)(NChannel n \<mapsto> b)"
proof -
  from b obtain br where br: "wbreakers w (NChannel n) = Some br" "fst (cb_Allow (p_allow env) br)"
    by (auto simp: breaker_admits_def split: option.splits)
  from Process_steps [OF p f br(1), of cfg lmt] br(2) obtain d where d:
    "row d = (row (wdb w))(k \<mapsto> updated (marked env n) n)"
    "delivery_attempts d = delivery_attempts (wdb w)" "dead_letter_queue d = dead_letter_queue (wdb w)"
    "Process lib cfg lmt env s w = apfst Ret (limit_and_send lib cfg lmt env (admitting env (NChannel n) w)
       (marked env n) (w\<lparr>wdb := d, wevents := wevents w @ [status_event lib (p_event env) (marked env n)],
         wbreakers := (wbreakers w)(NChannel n \<mapsto> admitting env (NChannel n) w)\<rparr>))"
    by (auto simp: admitting_def br(1))
  show ?thesis unfolding d(4)
    by (intro exI conjI) (rule refl, simp_all add: before_limiter_def d(1-3))
qed

lemma Process_sent:
  assumes p: "processable lib s k n w" and f: "p_get env = None" "p_mark env = None" "p_limit env = None"
    and b: "breaker_admits env (NChannel n) w" and l: "limiter_admits lmt env (NChannel n) w"
  shows "\<exists>w1 b. Process lib cfg lmt env s w = apfst Ret (send_and_record lib cfg env b (marked env n) w1) \<and>
    before_limiter lib env k n w w1 \<and> same_queue (wredis w) (wredis w1) \<and>
    b = admitting env (NChannel n) w \<and> wbreakers w1 = (wbreakers w)(NChannel n \<mapsto> b)"
proof -
  obtain w1 b where s: "Process lib cfg lmt env s w = apfst Ret (limit_and_send lib cfg lmt env b (marked env n) w1)"
    "before_limiter lib env k n w w1" "wredis w1 = wredis w"
    "b = admitting env (NChannel n) w" "wbreakers w1 = (wbreakers w)(NChannel n \<mapsto> b)"
    using Process_admitted [OF p f(1,2) b] by blast
  have "limiter_admits lmt env (NChannel (marked env n)) w1"
    using l s(3) by (simp add: limiter_admits_def)
  from limit_and_send_admitted [OF f(3) this, of lib cfg b] obtain r where
    "limit_and_send lib cfg lmt env b (marked env n) w1 =
       send_and_record lib cfg env b (marked env n) (w1\<lparr>wredis := r\<rparr>)"
    "same_queue (wredis w1) r" by blast
  with s show ?thesis
    by (intro exI [of _ "w1\<lparr>wredis := r\<rparr>"] exI [of _ b]) (simp add: before_limiter_def)
qed

lemma faultlessD:
  assumes "faultless env"
  shows "p_get env = None" "p_mark env = None" "p_limit env = None" "p_queued_fault env = None"
    "r_fault (p_retry env) = None" "r_dlq_fault (p_retry env) = None" "p_requeue env = None"
  using assms by (simp_all add: faultless_def)

lemma attempt_of_marked [simp]: "attempt_of env (marked env n) = attempt_of env n"
  by (simp add: attempt_of_def delivery_attempt_def)

text \<open>
  A notification in a final state is left alone: no write, no event, no call.
\<close>

theorem process_final_noop:
  assumes "UUID_Parse lib s = Inr k" "row (wdb w) k = Some n" "Status_IsFinal (NStatus n)"
    "p_get env = None"
  shows "Process lib cfg lmt env s w = (Ret None, w)"
  using assms by (simp add: Process_def repo_GetByID_def)

lemma Process_delivered:
  assumes p: "processable lib s k n w" and f: "faultless env"
    and b: "breaker_admits env (NChannel n) w" and l: "limiter_admits lmt env (NChannel n) w"
    and a: "attempt_recordable env n w" and ok: "p_send env (send_request n) = Inr (Some resp)"
    and m: "varchar_ok 255 (MessageID resp)"
  shows "\<exists>w' r. Process lib cfg lmt env s w = (Ret None, w') \<and> row (wdb w') k = Some r \<and>
    NStatus r = StatusDelivered \<and> SentAt r = Some (timestamptz (p_sent_at env)) \<and>
    ProviderMsgID r = Some (varchar 255 (MessageID resp)) \<and> RetryCount r = RetryCount n \<and>
    wsent w' = wsent w @ [send_request n] \<and>
    delivery_attempts (wdb w') = delivery_attempts (wdb w) @ [attempt_of env n] \<and>
    AStatus (attempt_of env n) = ''success'' \<and>
    dead_letter_queue (wdb w') = dead_letter_queue (wdb w) \<and>
    map EStatus (wevents w') = map EStatus (wevents w) @ [StatusProcessing, StatusDelivered] \<and>
    same_queue (wredis w) (wredis w')"
proof -
  note P = processableD [OF p]
  obtain w1 br where s: "Process lib cfg lmt env s w = apfst Ret (send_and_record lib cfg env br (marked env n) w1)"
    and w1: "before_limiter lib env k n w w1" "same_queue (wredis w) (wredis w1)"
    using Process_sent [OF p faultlessD(1-3) [OF f] b l] by blast
  have q: "row (wdb w1) (ID (marked env n)) = Some (updated (marked env n) n)"
    using w1 by (simp add: before_limiter_def P)
  have a1: "attempt_recordable env (marked env n) w1"
    using a w1 by (simp add: attempt_recordable_def before_limiter_def)
  have as: "AStatus (attempt_of env n) = ''success''"
    by (simp add: attempt_of_def stored_attempt_def delivery_attempt_def ok)
  have send: "p_send env (send_request (marked env n)) = Inr (Some resp)" using ok by simp
  have mm: "nullable (varchar_ok 255) (map_option MessageID (Some resp))" using m by simp
  have "same_queue (wredis w) (wredis w2)"
    if "send_and_record lib cfg env br (marked env n) w1 = (e, w2)" for e w2
    using same_queue_trans [OF w1(2) same_queue_send] that by (metis snd_conv)
  with send_success [OF f send mm q a1 P(3,4), of lib cfg br] w1 show ?thesis
    unfolding s by (auto simp: before_limiter_def P as status_event_def)
qed

text \<open>
  C15. When breaker and limiter let the notification through and the provider takes it, it
  becomes delivered with the provider's message ID and the time, its retry count as it was; one
  request is sent, one successful attempt is recorded, and the events say processing, then
  delivered.
\<close>

theorem process_delivers:
  assumes p: "processable lib s k n w" and f: "faultless env"
    and b: "breaker_admits env (NChannel n) w" and l: "limiter_admits lmt env (NChannel n) w"
    and a: "attempt_recordable env n w" and ok: "p_send env (send_request n) = Inr (Some resp)"
    and m: "varchar_ok 255 (MessageID resp)"
  shows "\<exists>w' r. Process lib cfg lmt env s w = (Ret None, w') \<and> row (wdb w') k = Some r \<and>
    NStatus r = StatusDelivered \<and> SentAt r = Some (timestamptz (p_sent_at env)) \<and>
    ProviderMsgID r = Some (varchar 255 (MessageID resp)) \<and> RetryCount r = RetryCount n \<and>
    wsent w' = wsent w @ [send_request n] \<and>
    delivery_attempts (wdb w') = delivery_attempts (wdb w) @ [attempt_of env n] \<and>
    AStatus (attempt_of env n) = ''success'' \<and>
    dead_letter_queue (wdb w') = dead_letter_queue (wdb w) \<and>
    map EStatus (wevents w') = map EStatus (wevents w) @ [StatusProcessing, StatusDelivered]"
  using Process_delivered [OF assms] by blast

lemma attempt_of_failure:
  "p_send env (send_request n) = Inl e \<Longrightarrow>
     AStatus (attempt_of env n) = ''failure'' \<and> AErrorMessage (attempt_of env n) = Some (err_Error e) \<and>
     AttemptNumber (attempt_of env n) = RetryCount n + 1"
  by (simp add: attempt_of_def stored_attempt_def delivery_attempt_def)

text \<open>No attempt is recorded with a status code or a response body.\<close>

lemma attempt_without_status_code:
  "AStatusCode (attempt_of env n) = None \<and> AResponseBody (attempt_of env n) = None"
  by (simp add: attempt_of_def stored_attempt_def delivery_attempt_def)

lemma Process_failed:
  assumes p: "processable lib s k n w" and f: "faultless env"
    and b: "breaker_admits env (NChannel n) w" and l: "limiter_admits lmt env (NChannel n) w"
    and a: "attempt_recordable env n w" and e: "p_send env (send_request n) = Inl e" "text_ok (err_Error e)"
  shows "\<exists>w2. Process lib cfg lmt env s w =
      (Ret (Some e), handleRetry lib cfg (p_retry env) (marked env n) e w2) \<and>
    row (wdb w2) = (row (wdb w))(k \<mapsto> updated (marked env n) n) \<and>
    delivery_attempts (wdb w2) = delivery_attempts (wdb w) @ [attempt_of env n] \<and>
    dead_letter_queue (wdb w2) = dead_letter_queue (wdb w) \<and> wsent w2 = wsent w @ [send_request n] \<and>
    map EStatus (wevents w2) = map EStatus (wevents w) @ [StatusProcessing] \<and>
    same_queue (wredis w) (wredis w2) \<and>
    wbreakers w2 = (wbreakers w)(NChannel n \<mapsto>
      cb_RecordFailure (p_failure env) (admitting env (NChannel n) w))"
proof -
  note P = processableD [OF p]
  obtain w1 br where s: "Process lib cfg lmt env s w = apfst Ret (send_and_record lib cfg env br (marked env n) w1)"
    and w1: "before_limiter lib env k n w w1" "same_queue (wredis w) (wredis w1)"
      "br = admitting env (NChannel n) w" "wbreakers w1 = (wbreakers w)(NChannel n \<mapsto> br)"
    using Process_sent [OF p faultlessD(1-3) [OF f] b l] by blast
  have q: "row (wdb w1) (ID (marked env n)) = Some (updated (marked env n) n)"
    using w1 by (simp add: before_limiter_def P)
  have a1: "attempt_recordable env (marked env n) w1"
    using a w1 by (simp add: attempt_recordable_def before_limiter_def)
  have send: "p_send env (send_request (marked env n)) = Inl e" using e by simp
  from send_failure [OF f send e(2) q a1 P(3,4), of lib cfg br] obtain w2 where
    "send_and_record lib cfg env br (marked env n) w1 =
       (Some e, handleRetry lib cfg (p_retry env) (marked env n) e w2)"
    "wdb w2 = (wdb w1)\<lparr>delivery_attempts := delivery_attempts (wdb w1) @ [attempt_of env n]\<rparr>"
    "wevents w2 = wevents w1" "wsent w2 = wsent w1 @ [send_request n]"
    "wbreakers w2 = (wbreakers w1)(NChannel n \<mapsto> cb_RecordFailure (p_failure env) br)"
    "wredis w2 = RecordFailure (p_metrics env) (wredis w1)"
    by auto
  with s w1 show ?thesis
    using same_queue_trans [OF w1(2) same_queue_metrics(2)]
    by (intro exI [of _ w2]) (simp add: before_limiter_def status_event_def)
qed

text \<open>
  C16. When the provider fails and retries are left, the notification becomes failed with the
  error's text, its retry count goes up by one and its next retry is the backoff delay with
  jitter after now; the failed attempt is recorded under the next attempt number and there is
  no dead letter.
\<close>

theorem process_schedules_retry:
  assumes p: "processable lib s k n w" and f: "faultless env"
    and b: "breaker_admits env (NChannel n) w" and l: "limiter_admits lmt env (NChannel n) w"
    and a: "attempt_recordable env n w" and e: "p_send env (send_request n) = Inl e" "text_ok (err_Error e)"
    and r: "RetryCount n + 1 < CMaxRetries cfg"
  shows "\<exists>w' r. Process lib cfg lmt env s w = (Ret (Some e), w') \<and> row (wdb w') k = Some r \<and>
    NStatus r = StatusFailed \<and> RetryCount r = RetryCount n + 1 \<and>
    ErrorMessage r = Some (err_Error e) \<and>
    NextRetryAt r = Some (timestamptz (r_now (p_retry env) +
        jitter (r_random (p_retry env)) (backoff_delay cfg (RetryCount n + 1)))) \<and>
    wsent w' = wsent w @ [send_request n] \<and>
    delivery_attempts (wdb w') = delivery_attempts (wdb w) @ [attempt_of env n] \<and>
    AStatus (attempt_of env n) = ''failure'' \<and> AErrorMessage (attempt_of env n) = Some (err_Error e) \<and>
    AttemptNumber (attempt_of env n) = RetryCount n + 1 \<and>
    dead_letter_queue (wdb w') = dead_letter_queue (wdb w) \<and>
    map EStatus (wevents w') = map EStatus (wevents w) @ [StatusProcessing, StatusFailed]"
proof -
  note P = processableD [OF p]
  obtain w2 where w2: "Process lib cfg lmt env s w =
      (Ret (Some e), handleRetry lib cfg (p_retry env) (marked env n) e w2)"
    "row (wdb w2) = (row (wdb w))(k \<mapsto> updated (marked env n) n)"
    "delivery_attempts (wdb w2) = delivery_attempts (wdb w) @ [attempt_of env n]"
    "dead_letter_queue (wdb w2) = dead_letter_queue (wdb w)" "wsent w2 = wsent w @ [send_request n]"
    "map EStatus (wevents w2) = map EStatus (wevents w) @ [StatusProcessing]"
    using Process_failed [OF p f b l a e] by blast
  have q: "row (wdb w2) (ID (marked env n)) = Some (updated (marked env n) n)"
    by (simp add: w2 P)
  have sm: "smallint (RetryCount (marked env n) + 1)"
    using a by (simp add: attempt_recordable_def)
  note h = handleRetry_effect [OF q faultlessD(5) [OF f] P(3,4) sm e(2), where lib = lib and cfg = cfg]
  show ?thesis
    using h(1-3,5) r w2 P attempt_of_failure [OF e(1)]
    by (simp add: failed_notification_def status_event_def)
qed

text \<open>
  C17. When the provider fails and no retries are left, the notification becomes failed and
  exactly one dead letter is added, which holds its channel, recipient and content and the
  error's text.
\<close>

theorem process_dead_letters:
  assumes p: "processable lib s k n w" and f: "faultless env"
    and b: "breaker_admits env (NChannel n) w" and l: "limiter_admits lmt env (NChannel n) w"
    and a: "attempt_recordable env n w" and e: "p_send env (send_request n) = Inl e" "text_ok (err_Error e)"
    and r: "RetryCount n + 1 \<ge> CMaxRetries cfg"
    and u: "r_dlq_id (p_retry env) \<notin> set (map DID (dead_letter_queue (wdb w)))"
  shows "\<exists>w' r x. Process lib cfg lmt env s w = (Ret (Some e), w') \<and> row (wdb w') k = Some r \<and>
    NStatus r = StatusFailed \<and> RetryCount r = RetryCount n + 1 \<and>
    dead_letter_queue (wdb w') = dead_letter_queue (wdb w) @ [x] \<and>
    DNotificationID x = k \<and> LastError x = Some (err_Error e) \<and>
    Payload x = Some [(''channel'', JString (NChannel n)), (''recipient'', JString (Recipient n)),
                      (''content'', JString (Content n))] \<and>
    delivery_attempts (wdb w') = delivery_attempts (wdb w) @ [attempt_of env n] \<and>
    map EStatus (wevents w') = map EStatus (wevents w) @ [StatusProcessing, StatusFailed]"
proof -
  note P = processableD [OF p]
  obtain w2 where w2: "Process lib cfg lmt env s w =
      (Ret (Some e), handleRetry lib cfg (p_retry env) (marked env n) e w2)"
    "row (wdb w2) = (row (wdb w))(k \<mapsto> updated (marked env n) n)"
    "delivery_attempts (wdb w2) = delivery_attempts (wdb w) @ [attempt_of env n]"
    "dead_letter_queue (wdb w2) = dead_letter_queue (wdb w)" "wsent w2 = wsent w @ [send_request n]"
    "map EStatus (wevents w2) = map EStatus (wevents w) @ [StatusProcessing]"
    using Process_failed [OF p f b l a e] by blast
  have q: "row (wdb w2) (ID (marked env n)) = Some (updated (marked env n) n)"
    by (simp add: w2 P)
  have sm: "smallint (RetryCount (marked env n) + 1)"
    using a by (simp add: attempt_recordable_def)
  note h = handleRetry_effect [OF q faultlessD(5) [OF f] P(3,4) sm e(2), where lib = lib and cfg = cfg]
  let ?x = "stored_dead_letter (dead_letter (r_dlq_id (p_retry env)) (r_dlq_created (p_retry env))
      (err_Error e) (marked env n))"
  have dl: "dead_letter_queue (wdb (handleRetry lib cfg (p_retry env) (marked env n) e w2)) =
      dead_letter_queue (wdb w) @ [?x]"
    using h(4) r u w2 P faultlessD(6) [OF f] by simp
  show ?thesis
    using h(1,2,5) w2 P dl
    by (simp add: status_event_def) (simp add: stored_dead_letter_def dead_letter_def P)
qed

text \<open>
  An open circuit sends nothing and records no attempt, yet the retry count goes up: the
  notification fails with the circuit's error and, on its last count, is dead-lettered without
  ever having been given to the provider.
\<close>

theorem process_circuit_open:
  assumes p: "processable lib s k n w" and f: "faultless env"
    and b: "\<not> breaker_admits env (NChannel n) w"
    and r: "smallint (RetryCount n + 1)"
    and u: "r_dlq_id (p_retry env) \<notin> set (map DID (dead_letter_queue (wdb w)))"
  shows "\<exists>w' r. Process lib cfg lmt env s w = (Ret (Some (Sentinel ErrCircuitOpen)), w') \<and>
    row (wdb w') k = Some r \<and> NStatus r = StatusFailed \<and> RetryCount r = RetryCount n + 1 \<and>
    ErrorMessage r = Some (error_text ErrCircuitOpen) \<and>
    wsent w' = wsent w \<and> delivery_attempts (wdb w') = delivery_attempts (wdb w) \<and>
    wredis w' = wredis w \<and>
    (if RetryCount n + 1 < CMaxRetries cfg
     then dead_letter_queue (wdb w') = dead_letter_queue (wdb w)
     else (\<exists>x. dead_letter_queue (wdb w') = dead_letter_queue (wdb w) @ [x] \<and> DNotificationID x = k))"
proof -
  note P = processableD [OF p]
  from p have "Channel_IsValid (NChannel n)" "breakers_ok (wbreakers w)"
    using row_ok_row [of "wdb w" k n] by (auto simp: processable_def world_ok_def db_ok_def row_ok_def)
  then obtain br where br: "wbreakers w (NChannel n) = Some br" using breakers_okD by blast
  with b have nb: "\<not> fst (cb_Allow (p_allow env) br)" by (simp add: breaker_admits_def)
  obtain w2 where w2: "Process lib cfg lmt env s w = (Ret (Some (Sentinel ErrCircuitOpen)),
      handleRetry lib cfg (p_retry env) (marked env n) (Sentinel ErrCircuitOpen) w2)"
    "row (wdb w2) = (row (wdb w))(k \<mapsto> updated (marked env n) n)"
    "delivery_attempts (wdb w2) = delivery_attempts (wdb w)"
    "dead_letter_queue (wdb w2) = dead_letter_queue (wdb w)" "wsent w2 = wsent w" "wredis w2 = wredis w"
    using Process_steps [OF p faultlessD(1,2) [OF f] br, of cfg lmt] nb by fastforce
  have q: "row (wdb w2) (ID (marked env n)) = Some (updated (marked env n) n)"
    by (simp add: w2 P)
  have e: "text_ok (err_Error (Sentinel ErrCircuitOpen))" by (simp add: ascii_text_ok ascii_def)
  have sm: "smallint (RetryCount (marked env n) + 1)" using r by simp
  note h = handleRetry_effect [OF q faultlessD(5) [OF f] P(3,4) sm e, where lib = lib and cfg = cfg]
  have "if RetryCount n + 1 < CMaxRetries cfg
     then dead_letter_queue (wdb (handleRetry lib cfg (p_retry env) (marked env n) (Sentinel ErrCircuitOpen) w2)) =
        dead_letter_queue (wdb w)
     else (\<exists>x. dead_letter_queue (wdb (handleRetry lib cfg (p_retry env) (marked env n) (Sentinel ErrCircuitOpen) w2)) =
        dead_letter_queue (wdb w) @ [x] \<and> DNotificationID x = k)"
    using h(3,4) u w2 P faultlessD(6) [OF f]
    by (auto simp: stored_dead_letter_def dead_letter_def)
  with h(1,2) w2 P show ?thesis
    by (intro exI conjI) (auto intro: refl)
qed


lemma waiting_Enqueue_ok:
  "queue_ok r \<Longrightarrow> waiting (snd (Enqueue None now m r)) (QChannel m) m = Some (calcScore (QPriority m) now)"
  by (simp add: Enqueue_def waiting_zadd)

text \<open>
  Over the limit the notification goes back into its channel's queue with its own
  priority, is queued again and keeps its retry count; nothing is sent, no attempt and no dead
  letter is recorded.
\<close>

theorem process_rate_limited:
  assumes p: "processable lib s k n w" and f: "faultless env"
    and b: "breaker_admits env (NChannel n) w" and l: "\<not> limiter_admits lmt env (NChannel n) w"
  shows "\<exists>w' r. Process lib cfg lmt env s w = (Ret (Some (Sentinel ErrRateLimited)), w') \<and>
    row (wdb w') k = Some r \<and> NStatus r = StatusQueued \<and> RetryCount r = RetryCount n \<and>
    waiting (wredis w') (NChannel n) (queue_message lib n) = Some (calcScore (NPriority n) (p_requeued env)) \<and>
    wsent w' = wsent w \<and> delivery_attempts (wdb w') = delivery_attempts (wdb w) \<and>
    dead_letter_queue (wdb w') = dead_letter_queue (wdb w)"
proof -
  note P = processableD [OF p]
  obtain w1 br where s: "Process lib cfg lmt env s w = apfst Ret (limit_and_send lib cfg lmt env br (marked env n) w1)"
    "before_limiter lib env k n w w1" "wredis w1 = wredis w"
    using Process_admitted [OF p faultlessD(1,2) [OF f] b] by blast
  have nl: "\<not> limiter_admits lmt env (NChannel (marked env n)) w1"
    using l s(3) by (simp add: limiter_admits_def)
  let ?m = "(marked env n)\<lparr>NStatus := StatusQueued\<rparr>"
  let ?base = "snd (slidingWindowScript (p_limit_server env) (limiter_key (NChannel n)) (limitPerSec lmt)
               (windowMs lmt) (UnixMilli (p_limit_now env)) (p_limit_id env) (wredis w))"
  let ?r = "snd (Enqueue None (p_requeued env) (queue_message lib n) ?base)"
  have "update_params_ok ?m" "update_row_ok ?m"
    using P(3,4) by (simp_all add: update_params_ok_def update_row_ok_def)
  moreover have "row (wdb (w1\<lparr>wredis := ?r\<rparr>)) (ID ?m) = Some (updated (marked env n) n)"
    using s(2) by (simp add: before_limiter_def P)
  ultimately obtain d where u: "with_update None (p_queued env) ?m (w1\<lparr>wredis := ?r\<rparr>) =
        (None, ?m\<lparr>UpdatedAt := p_queued env\<rparr>, w1\<lparr>wredis := ?r, wdb := d\<rparr>)"
    and d: "row d = (row (wdb w1))(ID n \<mapsto> updated (?m\<lparr>UpdatedAt := p_queued env\<rparr>) (updated (marked env n) n))"
      "delivery_attempts d = delivery_attempts (wdb w1)" "dead_letter_queue d = dead_letter_queue (wdb w1)"
    using with_update_ok [of "w1\<lparr>wredis := ?r\<rparr>" ?m "updated (marked env n) n" "p_queued env"] by auto
  have "Process lib cfg lmt env s w = (Ret (Some (Sentinel ErrRateLimited)), w1\<lparr>wredis := ?r, wdb := d\<rparr>)"
    unfolding s(1) limit_and_send_limited [OF faultlessD(3) [OF f] nl]
    using u s(3) faultlessD [OF f] by (simp add: Let_def)
  moreover have "queue_ok ?base"
    using queue_ok_limiter [of "wredis w" lmt None "p_limit_server env" "p_limit_now env" "p_limit_id env" "NChannel n"] p
    by (auto simp: limiter_Allow_def processable_def world_ok_def split: prod.splits)
  then have "waiting ?r (QChannel (queue_message lib n)) (queue_message lib n) =
      Some (calcScore (QPriority (queue_message lib n)) (p_requeued env))"
    by (rule waiting_Enqueue_ok)
  then have "waiting ?r (NChannel n) (queue_message lib n) = Some (calcScore (NPriority n) (p_requeued env))"
    by (simp only: queue_message_def QueueMessage.simps)
  ultimately show ?thesis
    using s(2) d P by (simp add: before_limiter_def)
qed

text \<open>
  If the limiter's call fails, the notification stays in processing with the error
  returned: neither queued nor failed, so that no poller will take it up again.
\<close>

theorem process_limiter_error:
  assumes p: "processable lib s k n w" and f: "p_get env = None" "p_mark env = None"
    and b: "breaker_admits env (NChannel n) w" and l: "p_limit env = Some (e, j)"
  shows "\<exists>w' r. Process lib cfg lmt env s w =
      (Ret (Some (Wrap ''rate limit script: '' e [])), w') \<and>
    row (wdb w') k = Some r \<and> NStatus r = StatusProcessing \<and> RetryCount r = RetryCount n \<and>
    wsent w' = wsent w \<and> dead_letter_queue (wdb w') = dead_letter_queue (wdb w) \<and>
    rsets (wredis w') = rsets (wredis w) \<and>
    zsets (wredis w') (queueKeyPrefix @ NChannel n) = zsets (wredis w) (queueKeyPrefix @ NChannel n)"
proof -
  obtain w1 br where s: "Process lib cfg lmt env s w = apfst Ret (limit_and_send lib cfg lmt env br (marked env n) w1)"
    "before_limiter lib env k n w w1" "wredis w1 = wredis w"
    using Process_admitted [OF p f b] by blast
  let ?a = "limiter_Allow lmt (p_limit env) (p_limit_server env) (p_limit_now env)
             (p_limit_id env) (NChannel n) (wredis w)"
  have a: "fst ?a = Inl (Wrap ''rate limit script: '' e [])"
    by (simp add: limiter_Allow_def exec_def l split: prod.split)
  then obtain r where r: "?a = (Inl (Wrap ''rate limit script: '' e []), r)" by (metis prod.collapse)
  have "limit_and_send lib cfg lmt env br (marked env n) w1 =
      (Some (Wrap ''rate limit script: '' e []), w1\<lparr>wredis := r\<rparr>)"
    using r s(3) by (simp add: limit_and_send_def)
  moreover have "rsets r = rsets (wredis w)"
    "zsets r (queueKeyPrefix @ NChannel n) = zsets (wredis w) (queueKeyPrefix @ NChannel n)"
    using limiter_Allow_frame(2) [of lmt "p_limit env" "p_limit_server env" "p_limit_now env" "p_limit_id env" "NChannel n" "wredis w"]
      limiter_Allow_frame(1) [of "queueKeyPrefix @ NChannel n" "NChannel n" lmt "p_limit env" "p_limit_server env" "p_limit_now env" "p_limit_id env" "wredis w"]
    by (simp_all add: r)
  ultimately show ?thesis
    using s by (simp add: before_limiter_def)
qed

lemma handleRetry_refused:
  assumes "\<not> text_ok (err_Error e)"
  shows "wdb (handleRetry lib cfg env n e w) = wdb w"
proof -
  have u: "snd (snd (with_update f now m w)) = w"
    if "ErrorMessage m = Some (err_Error e)" for f now m and w :: world
    using assms that by (simp add: with_update_def repo_Update_def update_notification_def
        update_params_ok_def exec_def Let_def split: option.split)
  have d: "snd (dlq_Create f (dead_letter uid now (err_Error e) n) d) = d" for f uid now n d
    using assms by (simp add: dlq_Create_def exec_def insert_dead_letter_def dead_letter_ok_def
        dead_letter_def split: option.split)
  show ?thesis
    by (simp add: handleRetry_def Let_def split_beta d u)
qed

text \<open>
  An error text that PostgreSQL refuses, a byte 0 or invalid UTF-8 in the provider's answer
  for one, defeats the bookkeeping although every call works: the notification stays in
  processing, with no attempt, no retry and no dead letter.
\<close>

theorem process_unrecordable_error:
  assumes p: "processable lib s k n w" and f: "faultless env"
    and b: "breaker_admits env (NChannel n) w" and l: "limiter_admits lmt env (NChannel n) w"
    and e: "p_send env (send_request n) = Inl e" "\<not> text_ok (err_Error e)"
  shows "\<exists>w' r. Process lib cfg lmt env s w = (Ret (Some e), w') \<and> row (wdb w') k = Some r \<and>
    NStatus r = StatusProcessing \<and> RetryCount r = RetryCount n \<and>
    delivery_attempts (wdb w') = delivery_attempts (wdb w) \<and>
    dead_letter_queue (wdb w') = dead_letter_queue (wdb w)"
proof -
  obtain w1 br where s: "Process lib cfg lmt env s w = apfst Ret (send_and_record lib cfg env br (marked env n) w1)"
    and w1: "before_limiter lib env k n w w1"
    using Process_sent [OF p faultlessD(1-3) [OF f] b l] by blast
  let ?a = "delivery_attempt (p_attempt_id env) (p_attempt_created env)
     (time_Sub (p_end env) (p_start env)) (Inl e) (marked env n)"
  have a: "snd (attempt_Create f ?a d) = d" for f d
    using e(2) by (simp add: attempt_Create_def exec_def insert_attempt_def attempt_ok_def
        delivery_attempt_def split: option.split)
  have "wdb (snd (send_and_record lib cfg env br (marked env n) w1)) = wdb w1 \<and>
      fst (send_and_record lib cfg env br (marked env n) w1) = Some e"
    using e by (simp add: send_and_record_def Let_def split_beta handleRetry_refused a)
  with s w1 show ?thesis
    by (cases "send_and_record lib cfg env br (marked env n) w1") (simp add: before_limiter_def)
qed


section \<open>A sample run\<close>

definition sample_lib :: uuid_lib where
  "sample_lib = \<lparr>UUID_String = (\<lambda>u. nat_string (unat u)),
     UUID_Parse = (\<lambda>s. case read_nat s of
        Some (n, []) \<Rightarrow> Inr (of_nat n) | _ \<Rightarrow> Inl (Text ''invalid UUID''))\<rparr>"

definition sample_world :: "Notification \<Rightarrow> world" where
  "sample_world n = \<lparr>wdb = empty_db\<lparr>notifications := [n]\<rparr>, wredis = redis_empty,
     wbreakers = new_breakers, wevents = [], wsent = []\<rparr>"

definition sample_env :: "(err + SendResponse option) \<Rightarrow> Process_Env" where
  "sample_env res = \<lparr>p_get = None, p_mark = None, p_marked = 1000, p_event = 1000, p_allow = 1000,
     p_limit = None, p_limit_server = 0, p_limit_now = 1000, p_limit_id = ''u'',
     p_requeue = None, p_requeued = 1000, p_queued_fault = None, p_queued = 1000,
     p_send = (\<lambda>_. res), p_start = 1000, p_end = 5000000, p_attempt_id = 77,
     p_attempt_created = 5000000, p_attempt = None, p_failure = 5000000, p_metrics = None,
     p_sent_at = 5001000, p_final = None, p_finished = 5002000, p_event2 = 5003000,
     p_retry = \<lparr>r_fault = None, r_updated = 6000000, r_dlq_id = 88, r_dlq_created = 6000000,
       r_dlq_fault = None, r_random = 0, r_now = 6000000, r_event = 6000000\<rparr>\<rparr>"

definition to_send :: "int \<Rightarrow> Notification" where
  "to_send retries = (sample_notification 5 StatusQueued)\<lparr>RetryCount := retries\<rparr>"

lemma sample_row [simp]: "row (wdb (sample_world n)) (ID n) = Some n"
  by (simp add: row_def sample_world_def)

lemma to_send_simps [simp]:
  "ID (to_send c) = 5" "NChannel (to_send c) = ChannelSMS" "RetryCount (to_send c) = c"
  "NStatus (to_send c) = StatusQueued" "NPriority (to_send c) = PriorityNormal"
  "Recipient (to_send c) = ''+905551234567''" "Content (to_send c) = ''Hello''"
  by (simp_all add: to_send_def sample_notification_def NewNotification_def)

lemma sample_processable:
  assumes "c = 0 \<or> c = 2"
  shows "processable sample_lib ''5'' 5 (to_send c) (sample_world (to_send c))"
proof -
  have "notifications_ok (wdb (sample_world (to_send 0)))" "notifications_ok (wdb (sample_world (to_send 2)))"
    by code_simp+
  moreover have "audit_ok (wdb (sample_world (to_send c)))" "templates_ok (wdb (sample_world (to_send c)))"
    by (simp_all add: sample_world_def empty_db_def audit_ok_def templates_ok_def)
  moreover have "UUID_Parse sample_lib ''5'' = Inr 5" by code_simp
  moreover have "row (wdb (sample_world (to_send c))) 5 = Some (to_send c)"
    using sample_row [of "to_send c"] by simp
  ultimately show ?thesis
    using assms by (auto simp: processable_def world_ok_def db_ok_def Status_IsFinal_def)
       (simp_all add: sample_world_def)
qed

lemma sample_dead_letters [simp]: "dead_letter_queue (wdb (sample_world n)) = []"
  "delivery_attempts (wdb (sample_world n)) = []" "wsent (sample_world n) = []"
  by (simp_all add: sample_world_def empty_db_def)

lemma sample_faultless [simp]: "faultless (sample_env res)"
  by (simp add: faultless_def sample_env_def)

lemma sample_breaker [simp]: "breaker_admits (sample_env res) ChannelSMS (sample_world n)"
  by (simp add: breaker_admits_def sample_world_def new_breakers_def cb_New_def cb_Allow_def)

lemma sample_limiter [simp]:
  "limiter_admits (NewLimiter k) (sample_env res) ChannelSMS (sample_world n) \<longleftrightarrow> 0 < k"
  by (simp add: limiter_admits_def sample_world_def slidingWindowScript_def NewLimiter_def Let_def
      zset_card_def zset_remrangebyscore_def live_def redis_empty_def)

lemma sample_recordable [simp]:
  "c = 0 \<or> c = 2 \<Longrightarrow> attempt_recordable (sample_env res) (to_send c) (sample_world (to_send c))"
  by (auto simp: attempt_recordable_def sample_world_def sample_env_def empty_db_def smallint_def
      integer_ok_def time_Sub_def sat64_def Milliseconds_def signed_divide_int_def)

lemma sample_send [simp]: "p_send (sample_env res) q = res" "p_limit (sample_env res) = None"
  "p_get (sample_env res) = None" "p_mark (sample_env res) = None"
  by (simp_all add: sample_env_def)

definition provider_error :: err where
  "provider_error = Text ''provider returned status 500''"

lemma provider_error_ok [simp]: "text_ok (err_Error provider_error)"
  by (simp add: provider_error_def ascii_text_ok ascii_def)

theorem process_safe_witness:
  "world_ok (snd (Process sample_lib sample_config (NewLimiter 100)
     (sample_env (Inl provider_error)) ''5'' (sample_world (to_send 0))))"
proof -
  have w: "world_ok (sample_world (to_send 0))"
    using sample_processable [of 0] by (simp add: processable_def)
  from process_safe [OF w] show ?thesis by (metis prod.exhaust_sel)
qed

theorem process_final_noop_witness:
  "Process sample_lib sample_config (NewLimiter 100) (sample_env (Inl provider_error)) ''5''
     (sample_world (sample_notification 5 StatusDelivered)) =
   (Ret None, sample_world (sample_notification 5 StatusDelivered))"
proof (rule process_final_noop)
  show "UUID_Parse sample_lib ''5'' = Inr 5" by code_simp
  show "row (wdb (sample_world (sample_notification 5 StatusDelivered))) 5 =
      Some (sample_notification 5 StatusDelivered)"
    by (simp add: row_def sample_world_def sample_notification_def NewNotification_def)
qed (simp_all add: sample_notification_def Status_IsFinal_def)

theorem process_delivers_witness:
  "\<exists>w r. Process sample_lib sample_config (NewLimiter 100)
      (sample_env (Inr (Some \<lparr>MessageID = ''m-1'', RStatus = ''accepted'', RTimestamp = []\<rparr>))) ''5''
      (sample_world (to_send 0)) = (Ret None, w) \<and> row (wdb w) 5 = Some r \<and> NStatus r = StatusDelivered"
  using process_delivers [OF sample_processable [of 0], of
      "sample_env (Inr (Some \<lparr>MessageID = ''m-1'', RStatus = ''accepted'', RTimestamp = []\<rparr>))" "NewLimiter 100"
      "\<lparr>MessageID = ''m-1'', RStatus = ''accepted'', RTimestamp = []\<rparr>" sample_config]
  by (fastforce simp: varchar_ok_def ascii_length ascii_def)

theorem process_schedules_retry_witness:
  "\<exists>w r. Process sample_lib sample_config (NewLimiter 100) (sample_env (Inl provider_error)) ''5''
      (sample_world (to_send 0)) = (Ret (Some provider_error), w) \<and> row (wdb w) 5 = Some r \<and>
      NStatus r = StatusFailed \<and> RetryCount r = 1"
  using process_schedules_retry [OF sample_processable [of 0], of "sample_env (Inl provider_error)"
      "NewLimiter 100" provider_error sample_config]
  by (fastforce simp: sample_config_def)

theorem process_dead_letters_witness:
  "\<exists>w x. Process sample_lib sample_config (NewLimiter 100) (sample_env (Inl provider_error)) ''5''
      (sample_world (to_send 2)) = (Ret (Some provider_error), w) \<and>
      dead_letter_queue (wdb w) = [x] \<and> DNotificationID x = 5"
  using process_dead_letters [OF sample_processable [of 2], of "sample_env (Inl provider_error)"
      "NewLimiter 100" provider_error sample_config]
  by (fastforce simp: sample_config_def)


definition open_breaker :: CircuitBreaker where
  "open_breaker = (cb_New 5 3 3 (30 * Second))\<lparr>state := StateOpen, failureCount := 5, lastFailure := 0\<rparr>"

theorem process_circuit_open_witness:
  "\<exists>w x. Process sample_lib sample_config (NewLimiter 100) (sample_env (Inl provider_error)) ''5''
      ((sample_world (to_send 2))\<lparr>wbreakers := new_breakers(ChannelSMS \<mapsto> open_breaker)\<rparr>) =
        (Ret (Some (Sentinel ErrCircuitOpen)), w) \<and>
      wsent w = [] \<and> delivery_attempts (wdb w) = [] \<and> dead_letter_queue (wdb w) = [x]"
proof -
  let ?w = "(sample_world (to_send 2))\<lparr>wbreakers := new_breakers(ChannelSMS \<mapsto> open_breaker)\<rparr>"
  have "cb_wf open_breaker" by (simp add: open_breaker_def cb_wf_def cb_New_def)
  then have "processable sample_lib ''5'' 5 (to_send 2) ?w"
    using sample_processable [of 2] by (simp add: processable_def world_ok_def breakers_ok_upd)
  moreover have "\<not> breaker_admits (sample_env (Inl provider_error)) (NChannel (to_send 2)) ?w"
    by (simp add: breaker_admits_def open_breaker_def cb_New_def cb_Allow_def sample_env_def
        time_Sub_def sat64_def Second_def)
  ultimately show ?thesis
    using process_circuit_open [of sample_lib "''5''" 5 "to_send 2" ?w "sample_env (Inl provider_error)"
        sample_config "NewLimiter 100"]
    by (fastforce simp: sample_config_def smallint_def)
qed

theorem process_rate_limited_witness:
  "\<exists>w r. Process sample_lib sample_config (NewLimiter 0) (sample_env (Inl provider_error)) ''5''
      (sample_world (to_send 2)) = (Ret (Some (Sentinel ErrRateLimited)), w) \<and>
      row (wdb w) 5 = Some r \<and> NStatus r = StatusQueued \<and> RetryCount r = 2"
  using process_rate_limited [OF sample_processable [of 2], of "sample_env (Inl provider_error)"
      "NewLimiter 0" sample_config]
  by fastforce

theorem process_limiter_error_witness:
  "\<exists>w r. Process sample_lib sample_config (NewLimiter 100)
      ((sample_env (Inl provider_error))\<lparr>p_limit := Some (Text ''i/o timeout'', 0)\<rparr>) ''5''
      (sample_world (to_send 0)) =
        (Ret (Some (Wrap ''rate limit script: '' (Text ''i/o timeout'') [])), w) \<and>
      row (wdb w) 5 = Some r \<and> NStatus r = StatusProcessing"
proof -
  let ?e = "(sample_env (Inl provider_error))\<lparr>p_limit := Some (Text ''i/o timeout'', 0)\<rparr>"
  have "breaker_admits ?e (NChannel (to_send 0)) (sample_world (to_send 0))"
    by (simp add: breaker_admits_def sample_world_def new_breakers_def cb_New_def cb_Allow_def)
  with process_limiter_error [OF sample_processable [of 0], of ?e "Text ''i/o timeout''" 0 sample_config
      "NewLimiter 100"]
  show ?thesis by fastforce
qed

theorem process_unrecordable_error_witness:
  "\<exists>w r. Process sample_lib sample_config (NewLimiter 100) (sample_env (Inl (Text [CHR 0x00]))) ''5''
      (sample_world (to_send 0)) = (Ret (Some (Text [CHR 0x00])), w) \<and>
      row (wdb w) 5 = Some r \<and> NStatus r = StatusProcessing"
proof -
  have "\<not> text_ok (err_Error (Text [CHR 0x00]))" by (simp add: text_ok_def text_length_def)
  with process_unrecordable_error [OF sample_processable [of 0], of "sample_env (Inl (Text [CHR 0x00]))"
      "NewLimiter 100" "Text [CHR 0x00]" sample_config]
  show ?thesis by fastforce
qed

end
