(* ===== verification/Scheduler.thy ===== *)
theory Scheduler
  imports Delivery_Outcomes
begin

text \<open>
  \<open>internal/service/scheduler.go\<close>: one tick of the scheduler and one of the retry poller. Each
  claims the notifications that are due and puts them into their channels' queues.
\<close>

section \<open>The two polls\<close>

record Poll_Env =
  q_fault :: "err fault"
  q_now :: time
  q_locked :: "UUID list"
  q_enqueue :: "err fault"
  q_enqueued :: "nat \<Rightarrow> time"

text \<open>The part that both have in common: what is done with the rows the repository gives.\<close>

definition enqueue_claimed ::
    "uuid_lib \<Rightarrow> Poll_Env \<Rightarrow> (err + Notification list) \<times> db \<Rightarrow> world \<Rightarrow> world" where
  "enqueue_claimed lib env res w =
     (case res of
        (Inl e, d) \<Rightarrow> w\<lparr>wdb := d\<rparr>
      | (Inr ns, d) \<Rightarrow>
          if ns = [] then w\<lparr>wdb := d\<rparr>
          else (let (_, r) = EnqueueBatch (q_enqueue env) (q_enqueued env)
                      (map (queue_message lib) ns) (wredis w)
                in w\<lparr>wdb := d, wredis := r\<rparr>))"

definition scheduler_poll :: "uuid_lib \<Rightarrow> Poll_Env \<Rightarrow> world \<Rightarrow> world" where
  "scheduler_poll lib env w =
     enqueue_claimed lib env
       (repo_GetScheduledReady (q_fault env) (q_now env) (q_locked env) 100 (wdb w)) w"

definition retry_poll :: "uuid_lib \<Rightarrow> Poll_Env \<Rightarrow> world \<Rightarrow> world" where
  "retry_poll lib env w =
     enqueue_claimed lib env
       (repo_GetRetryReady (q_fault env) (q_now env) (q_locked env) 100 (wdb w)) w"

section \<open>A batch in the queue\<close>

lemma waiting_fold:
  assumes "queue_ok r"
  shows "dom (waiting (fold (\<lambda>c. c) (map (\<lambda>(i, m). zadd_message (now i) m) ims) r) c) =
     dom (waiting r c) \<union> {m \<in> set (map snd ims). QChannel m = c}"
  using assms
proof (induction ims arbitrary: r)
  case Nil
  then show ?case by simp
next
  case (Cons im ims)
  obtain i m where im: "im = (i, m)" by (cases im)
  have "queue_ok (zadd_message (now i) m r)" using Cons.prems by (rule queue_ok_zadd)
  from Cons.IH [OF this] show ?case
    using waiting_zadd [OF Cons.prems, of "now i" m c] by (auto simp: im)
qed

lemma waiting_EnqueueBatch:
  assumes "queue_ok r"
  shows "dom (waiting (snd (EnqueueBatch None now ms r)) c) =
     dom (waiting r c) \<union> {m \<in> set ms. QChannel m = c}"
  using waiting_fold [OF assms, of now "enumerate 0 ms" c]
  by (simp add: EnqueueBatch_def pipeline_def)

section \<open>The polls keep the invariants\<close>

lemma db_ok_change: "db_ok d \<Longrightarrow> legal_change g \<Longrightarrow> db_ok (change_rows P g d)"
  by (simp add: db_ok_def change_rows_ok templates_ok_def)

lemma db_ok_claim: "db_ok d \<Longrightarrow> claim P due now locked l d = Inr (ns, d') \<Longrightarrow> db_ok d'"
  by (auto simp: claim_def Let_def db_ok_change)

lemma enqueue_claimed_ok:
  assumes "world_ok w" "db_ok (snd res)"
  shows "world_ok (enqueue_claimed lib env res w)"
  using assms queue_ok_EnqueueBatch [of "wredis w"]
  by (auto simp: enqueue_claimed_def world_ok_def split_beta split: sum.split)

lemma scheduler_poll_keeps [keeps]: "world_ok w \<Longrightarrow> world_ok (scheduler_poll lib env w)"
  unfolding scheduler_poll_def GetScheduledReady_exec
  by (rule enqueue_claimed_ok, assumption, rule exec_keeps [where I = db_ok])
     (auto intro: db_ok_claim dest: world_okD)

lemma retry_poll_keeps [keeps]: "world_ok w \<Longrightarrow> world_ok (retry_poll lib env w)"
  unfolding retry_poll_def GetRetryReady_exec
  by (rule enqueue_claimed_ok, assumption, rule exec_keeps [where I = db_ok])
     (auto intro: db_ok_claim dest: world_okD)

section \<open>What a poll achieves\<close>

lemma enqueue_claimed_waiting:
  assumes w: "world_ok w" and f: "q_enqueue env = None"
    and e: "w' = enqueue_claimed lib env (Inr ns, d) w"
  shows "wdb w' = d" "wevents w' = wevents w" "wsent w' = wsent w" "wbreakers w' = wbreakers w"
    "dom (waiting (wredis w') c) =
       dom (waiting (wredis w) c) \<union> queue_message lib ` {n \<in> set ns. NChannel n = c}"
proof -
  show "wdb w' = d" "wevents w' = wevents w" "wsent w' = wsent w" "wbreakers w' = wbreakers w"
    by (simp_all add: e enqueue_claimed_def split_beta Let_def)
  show "dom (waiting (wredis w') c) =
       dom (waiting (wredis w) c) \<union> queue_message lib ` {n \<in> set ns. NChannel n = c}"
    using waiting_EnqueueBatch [of "wredis w" "q_enqueued env" "map (queue_message lib) ns" c] w f
    by (auto simp: e enqueue_claimed_def split_beta Let_def world_ok_def queue_message_def)
qed

lemma claim_all_due:
  assumes "claim P due now locked l d = Inr (ns, d')"
    and "int (length (selected (\<lambda>n. P n \<and> ready due now n \<and> ID n \<notin> set locked) d)) \<le> l"
    and "row d k = Some n" "P n" "ready due now n" "k \<notin> set locked"
  shows "k \<in> set (map ID ns)"
proof -
  let ?sel = "selected (\<lambda>n. P n \<and> ready due now n \<and> ID n \<notin> set locked) d"
  note i = claim_Inr [OF assms(1)]
  have id: "ID n = k" by (rule row_ID [OF assms(3)])
  have "n \<in> set ?sel"
    unfolding selected_def set_filter mem_Collect_eq id
    by (intro conjI row_mem [OF assms(3)] assms)
  then have "n \<in> set (take (nat l) (sort_key (due_time due) ?sel))"
    using assms(2) by (simp add: take_all)
  then have "ID n \<in> set (map ID (take (nat l) (sort_key (due_time due) ?sel)))"
    unfolding set_map by (rule imageI)
  then show ?thesis unfolding i(4) id .
qed

text \<open>The rows that a poll can claim, and the two polls as one.\<close>

definition due_rows :: "(Notification \<Rightarrow> bool) \<Rightarrow> (Notification \<Rightarrow> time option) \<Rightarrow> Poll_Env \<Rightarrow> world \<Rightarrow> UUID set" where
  "due_rows P due env w =
     {k. \<exists>n t. row (wdb w) k = Some n \<and> P n \<and> due n = Some t \<and> t \<le> q_now env \<and> k \<notin> set (q_locked env)}"

lemma due_rows_selected:
  assumes "notifications_ok (wdb w)"
  shows "card (due_rows P due env w) =
    length (selected (\<lambda>n. P n \<and> ready due (q_now env) n \<and> ID n \<notin> set (q_locked env)) (wdb w))"
proof -
  let ?ns = "selected (\<lambda>n. P n \<and> ready due (q_now env) n \<and> ID n \<notin> set (q_locked env)) (wdb w)"
  have d: "distinct (map ID (notifications (wdb w)))" using assms by (simp add: notifications_ok_def)
  have "due_rows P due env w = set (map ID ?ns)"
  proof
    show "due_rows P due env w \<subseteq> set (map ID ?ns)"
    proof
      fix k assume "k \<in> due_rows P due env w"
      then obtain n where n: "row (wdb w) k = Some n" "P n" "ready due (q_now env) n"
          "k \<notin> set (q_locked env)"
        by (auto simp: due_rows_def ready_def)
      then have "n \<in> set ?ns" "ID n = k"
        using row_mem [OF n(1)] row_ID [OF n(1)] by (simp_all add: selected_def)
      then show "k \<in> set (map ID ?ns)" by auto
    qed
    show "set (map ID ?ns) \<subseteq> due_rows P due env w"
    proof
      fix k assume "k \<in> set (map ID ?ns)"
      then obtain n where n: "n \<in> set (notifications (wdb w))" "P n" "ready due (q_now env) n"
          "ID n \<notin> set (q_locked env)" "k = ID n"
        by (auto simp: selected_def)
      then have "row (wdb w) (ID n) = Some n" using d by (simp add: row_def by_key_mem)
      moreover obtain t where "due n = Some t" "t \<le> q_now env"
        using n(3) by (auto simp: ready_def split: option.splits)
      ultimately show "k \<in> due_rows P due env w"
        using n(2,4) unfolding n(5) due_rows_def mem_Collect_eq by (intro exI conjI)
    qed
  qed
  moreover have "distinct (map ID ?ns)" using d by (simp add: selected_def distinct_map_filter)
  ultimately show ?thesis using distinct_card [of "map ID ?ns"] by (simp del: set_map)
qed

lemma poll_queues:
  assumes w: "world_ok w" and f: "q_enqueue env = None"
    and w': "w' = enqueue_claimed lib env (exec None (claim P due (q_now env) (q_locked env) 100) (wdb w)) w"
  shows "\<exists>K. K \<subseteq> due_rows P due env w \<and>
    (card (due_rows P due env w) \<le> 100 \<longrightarrow> K = due_rows P due env w) \<and>
    (\<forall>k. row (wdb w') k = (if k \<in> K then map_option (set_status StatusQueued (q_now env)) (row (wdb w) k)
                           else row (wdb w) k)) \<and>
    (\<forall>c. dom (waiting (wredis w') c) = dom (waiting (wredis w) c) \<union>
       {queue_message lib n |n. ID n \<in> K \<and> row (wdb w) (ID n) = Some n \<and> NChannel n = c})"
proof -
  obtain ns d where c: "claim P due (q_now env) (q_locked env) 100 (wdb w) = Inr (ns, d)"
    by (auto simp: claim_def Let_def)
  then have e: "w' = enqueue_claimed lib env (Inr ns, d) w"
    by (simp add: w')
  have ok: "notifications_ok (wdb w)" using w by (simp add: world_ok_def db_ok_def)
  note r = claim_returns [OF ok c]
  have sub: "set (map ID ns) \<subseteq> due_rows P due env w"
    using r by (fastforce simp: due_rows_def ready_def split: option.splits)
  have all: "set (map ID ns) = due_rows P due env w" if "card (due_rows P due env w) \<le> 100"
  proof
    show "due_rows P due env w \<subseteq> set (map ID ns)"
      using claim_all_due [OF c] that due_rows_selected [OF ok, of P due env]
      by (auto simp: due_rows_def ready_def simp del: set_map)
  qed (rule sub)
  have msgs: "queue_message lib ` {n \<in> set ns. NChannel n = ch} =
      {queue_message lib n |n. ID n \<in> set (map ID ns) \<and> row (wdb w) (ID n) = Some n \<and> NChannel n = ch}" for ch
  proof
    show "queue_message lib ` {n \<in> set ns. NChannel n = ch} \<subseteq>
      {queue_message lib n |n. ID n \<in> set (map ID ns) \<and> row (wdb w) (ID n) = Some n \<and> NChannel n = ch}"
    proof clarify
      fix n assume n: "n \<in> set ns" "ch = NChannel n"
      with r obtain q where q: "row (wdb w) (ID n) = Some q" "n = set_status StatusQueued (q_now env) q"
        by blast
      then have "queue_message lib n = queue_message lib q" "ID q = ID n" "NChannel q = NChannel n"
        by (auto simp: queue_message_def)
      with q(1) n show "\<exists>m. queue_message lib n = queue_message lib m \<and> ID m \<in> set (map ID ns) \<and>
          row (wdb w) (ID m) = Some m \<and> NChannel m = NChannel n"
        by (intro exI [of _ q]) simp
    qed
    show "{queue_message lib n |n. ID n \<in> set (map ID ns) \<and> row (wdb w) (ID n) = Some n \<and> NChannel n = ch} \<subseteq>
      queue_message lib ` {n \<in> set ns. NChannel n = ch}"
    proof clarify
      fix n assume n: "ID n \<in> set (map ID ns)" "row (wdb w) (ID n) = Some n"
      then obtain m where m: "m \<in> set ns" "ID m = ID n" by auto
      from r [OF m(1)] n(2) have "m = set_status StatusQueued (q_now env) n"
        unfolding m(2) by auto
      then have "queue_message lib n = queue_message lib m" "NChannel m = NChannel n"
        by (auto simp: queue_message_def)
      with m(1) show "queue_message lib n \<in> queue_message lib ` {m \<in> set ns. NChannel m = NChannel n}" by auto
    qed
  qed
  note q = enqueue_claimed_waiting [OF w f e]
  show ?thesis
    using sub all q(1) q(5) msgs claim_row [OF c]
    by (intro exI [of _ "set (map ID ns)"] conjI) (simp_all del: set_map)
qed

definition due_scheduled :: "Poll_Env \<Rightarrow> world \<Rightarrow> UUID set" where
  "due_scheduled = due_rows (\<lambda>n. NStatus n = StatusScheduled) ScheduledAt"

definition due_failed :: "Poll_Env \<Rightarrow> world \<Rightarrow> UUID set" where
  "due_failed = due_rows (\<lambda>n. NStatus n = StatusFailed \<and> RetryCount n < MaxRetries n) NextRetryAt"

lemma retry_poll_queues:
  assumes "world_ok w" "q_fault env = None" "q_enqueue env = None" "w' = retry_poll lib env w"
  shows "\<exists>K. K \<subseteq> due_failed env w \<and>
    (card (due_failed env w) \<le> 100 \<longrightarrow> K = due_failed env w) \<and>
    (\<forall>k. row (wdb w') k = (if k \<in> K then map_option (set_status StatusQueued (q_now env)) (row (wdb w) k)
                           else row (wdb w) k)) \<and>
    (\<forall>c. dom (waiting (wredis w') c) = dom (waiting (wredis w) c) \<union>
       {queue_message lib n |n. ID n \<in> K \<and> row (wdb w) (ID n) = Some n \<and> NChannel n = c})"
  unfolding due_failed_def
  by (rule poll_queues) (use assms in \<open>simp_all add: retry_poll_def GetRetryReady_exec\<close>)

text \<open>
  C27. A tick of the scheduler without faults queues exactly the notifications it claims, each
  in its channel's queue under its own priority, and at least every due one if there are at
  most a hundred.
\<close>

theorem scheduler_poll_queues:
  assumes w: "world_ok w" and f: "q_fault env = None" "q_enqueue env = None"
    and w': "w' = scheduler_poll lib env w"
  shows "\<exists>K. K \<subseteq> due_scheduled env w \<and>
    (card (due_scheduled env w) \<le> 100 \<longrightarrow> K = due_scheduled env w) \<and>
    (\<forall>k. row (wdb w') k = (if k \<in> K then map_option (set_status StatusQueued (q_now env)) (row (wdb w) k)
                           else row (wdb w) k)) \<and>
    (\<forall>c. dom (waiting (wredis w') c) = dom (waiting (wredis w) c) \<union>
       {queue_message lib n |n. ID n \<in> K \<and> row (wdb w) (ID n) = Some n \<and> NChannel n = c})"
  unfolding due_scheduled_def
  by (rule poll_queues) (use assms in \<open>simp_all add: scheduler_poll_def GetScheduledReady_exec\<close>)

text \<open>
  If the queue cannot be reached, the scheduled notifications that are due are marked
  queued all the same, and no message for them is anywhere: no later poll claims them and no
  worker receives them.
\<close>

theorem scheduler_poll_loses:
  assumes w: "world_ok w" and f: "q_fault env = None" "q_enqueue env = Some (e, 0)"
    and n: "row (wdb w) k = Some n" "NStatus n = StatusScheduled" "ScheduledAt n = Some t"
      "t \<le> q_now env" "k \<notin> set (q_locked env)"
    and small: "length (notifications (wdb w)) \<le> 100"
  shows "row (wdb (scheduler_poll lib env w)) k = Some (set_status StatusQueued (q_now env) n) \<and>
    wredis (scheduler_poll lib env w) = wredis w"
proof -
  let ?P = "\<lambda>n. NStatus n = StatusScheduled"
  obtain ns d where c: "claim ?P ScheduledAt (q_now env) (q_locked env) 100 (wdb w) = Inr (ns, d)"
    by (auto simp: claim_def Let_def)
  have "length (selected Q (wdb w)) \<le> 100" for Q
    using small by (simp add: selected_def order_trans [OF length_filter_le])
  then have "k \<in> set (map ID ns)"
    using n by (intro claim_all_due [OF c _ n(1)]) (auto simp: ready_def)
  with claim_row [OF c, of k] n(1) have "row d k = Some (set_status StatusQueued (q_now env) n)"
    by simp
  moreover have "wdb (scheduler_poll lib env w) = d" "wredis (scheduler_poll lib env w) = wredis w"
    using c f by (simp_all add: scheduler_poll_def GetScheduledReady_exec enqueue_claimed_def
        EnqueueBatch_def pipeline_def)
  ultimately show ?thesis by simp
qed

section \<open>A sample poll\<close>

definition sample_poll :: "err fault \<Rightarrow> Poll_Env" where
  "sample_poll f = \<lparr>q_fault = None, q_now = 2000, q_locked = [], q_enqueue = f, q_enqueued = (\<lambda>_. 2000)\<rparr>"

lemma sample_scheduled_ok: "world_ok (sample_world (sample_notification 1 StatusScheduled))"
proof -
  have "notifications_ok (wdb (sample_world (sample_notification 1 StatusScheduled)))" by code_simp
  moreover have "audit_ok (wdb (sample_world n))" "templates_ok (wdb (sample_world n))" for n
    by (simp_all add: sample_world_def empty_db_def audit_ok_def templates_ok_def)
  ultimately show ?thesis
    by (simp add: world_ok_def db_ok_def) (simp add: sample_world_def)
qed

lemma sample_scheduled_row:
  "row (wdb (sample_world (sample_notification 1 StatusScheduled))) 1 =
     Some (sample_notification 1 StatusScheduled)"
  using sample_row [of "sample_notification 1 StatusScheduled"]
  by (simp add: sample_notification_def NewNotification_def)

lemma sample_scheduled_simps:
  "NStatus (sample_notification 1 StatusScheduled) = StatusScheduled"
  "ScheduledAt (sample_notification 1 StatusScheduled) = Some 1000"
  "length (notifications (wdb (sample_world n))) = 1"
  by (simp_all add: sample_notification_def NewNotification_def sample_world_def)

theorem scheduler_poll_queues_witness:
  "row (wdb (scheduler_poll sample_lib (sample_poll None) (sample_world (sample_notification 1 StatusScheduled)))) 1 =
     Some (set_status StatusQueued 2000 (sample_notification 1 StatusScheduled))"
proof -
  let ?w = "sample_world (sample_notification 1 StatusScheduled)"
  have "1 \<in> due_scheduled (sample_poll None) ?w"
    by (simp add: due_scheduled_def due_rows_def sample_scheduled_row sample_scheduled_simps sample_poll_def)
  moreover have "q_now (sample_poll None) = 2000" by (simp add: sample_poll_def)
  moreover have "q_fault (sample_poll None) = None" "q_enqueue (sample_poll None) = None"
    by (simp_all add: sample_poll_def)
  moreover have "card (due_scheduled (sample_poll None) ?w) \<le> 100"
  proof -
    have "length (selected P (wdb ?w)) \<le> 1" for P
      by (metis length_filter_le sample_scheduled_simps(3) selected_def)
    then show ?thesis
      using due_rows_selected [of ?w] sample_scheduled_ok
      by (simp add: due_scheduled_def world_ok_def db_ok_def le_trans [OF _ one_le_numeral])
  qed
  ultimately show ?thesis
    using scheduler_poll_queues [OF sample_scheduled_ok, of "sample_poll None" _ sample_lib] sample_scheduled_row
    by fastforce
qed

theorem scheduler_poll_loses_witness:
  "row (wdb (scheduler_poll sample_lib (sample_poll (Some (Text ''timeout'', 0)))
       (sample_world (sample_notification 1 StatusScheduled)))) 1 =
     Some (set_status StatusQueued 2000 (sample_notification 1 StatusScheduled)) \<and>
   wredis (scheduler_poll sample_lib (sample_poll (Some (Text ''timeout'', 0)))
       (sample_world (sample_notification 1 StatusScheduled))) = redis_empty"
proof -
  let ?e = "sample_poll (Some (Text ''timeout'', 0))"
  have "q_now ?e = 2000" "q_fault ?e = None" "q_enqueue ?e = Some (Text ''timeout'', 0)" "q_locked ?e = []"
    by (simp_all add: sample_poll_def)
  moreover have "wredis (sample_world n) = redis_empty" for n by (simp add: sample_world_def)
  ultimately show ?thesis
    using scheduler_poll_loses [OF sample_scheduled_ok, of ?e "Text ''timeout''" 1
        "sample_notification 1 StatusScheduled" 1000 sample_lib] sample_scheduled_row
    by (simp add: sample_scheduled_simps)
qed


end
