(* ===== verification/Template_Service.thy ===== *)
theory Template_Service
  imports Template_Repo Audit_Repos
begin

text \<open>
  \<open>internal/service/template.go\<close>: templates, their variables and their rendering. The engine
  \<open>text/template\<close> is a parameter, the parsing of a text and the execution of what was parsed on
  a map of variables; what is proved holds for every engine.
\<close>

section \<open>Requests\<close>

record 't template_engine =
  tpl_Parse :: "string \<Rightarrow> err + 't"
  tpl_Execute :: "'t \<Rightarrow> (string \<times> json) list \<Rightarrow> err + string"

record CreateTemplateRequest =
  CtName :: string
  CtChannel :: string
  CtSubject :: string
  CtContent :: string
  CtVariables :: "TemplateVariable list option"

record UpdateTemplateRequest =
  UtName :: "string option"
  UtChannel :: "string option"
  UtSubject :: "string option"
  UtContent :: "string option"
  UtVariables :: "TemplateVariable list option"

section \<open>Create and update\<close>

definition syntax_error :: "err \<Rightarrow> err" where
  "syntax_error e = Wrap ''invalid template syntax: '' e []"

definition tsvc_Create ::
    "'t template_engine \<Rightarrow> err fault \<Rightarrow> UUID \<Rightarrow> time \<Rightarrow> CreateTemplateRequest \<Rightarrow> db \<Rightarrow>
       (err + Template) \<times> db" where
  "tsvc_Create eng f uid now req d =
     (let channel = CtChannel req
      in if \<not> Channel_IsValid channel then (Inl (Sentinel ErrInvalidChannel), d)
         else case tpl_Parse eng (CtContent req) of
                Inl e \<Rightarrow> (Inl (syntax_error e), d)
              | Inr _ \<Rightarrow>
                  (let t = NewTemplate uid now (CtName req) channel (CtContent req);
                       t = t\<lparr>TSubject := CtSubject req\<rparr>;
                       t = (case CtVariables req of None \<Rightarrow> t | Some vs \<Rightarrow> t\<lparr>Variables := vs\<rparr>)
                   in case trepo_Create f t d of
                        (Some e, d) \<Rightarrow> (Inl e, d)
                      | (None, d) \<Rightarrow> (Inr t, d)))"

definition tsvc_GetByID :: "err fault \<Rightarrow> UUID \<Rightarrow> db \<Rightarrow> err + Template" where
  [simp]: "tsvc_GetByID f k d = trepo_GetByID f k d"

definition tsvc_Delete :: "err fault \<Rightarrow> time \<Rightarrow> UUID \<Rightarrow> db \<Rightarrow> err option \<times> db" where
  [simp]: "tsvc_Delete f now k d = trepo_Delete f now k d"

definition tsvc_List :: "err fault \<Rightarrow> err fault \<Rightarrow> int \<Rightarrow> int \<Rightarrow> db \<Rightarrow> err + (Template list \<times> int)" where
  [simp]: "tsvc_List f1 f2 page pageSize d = trepo_List f1 f2 page pageSize d"

text \<open>The fields of the request are applied in turn; the first error ends it.\<close>

definition apply_name :: "UpdateTemplateRequest \<Rightarrow> Template \<Rightarrow> Template" where
  "apply_name req t = (case UtName req of None \<Rightarrow> t | Some x \<Rightarrow> t\<lparr>TName := x\<rparr>)"

definition apply_channel :: "UpdateTemplateRequest \<Rightarrow> Template \<Rightarrow> err + Template" where
  "apply_channel req t =
     (case UtChannel req of
        None \<Rightarrow> Inr t
      | Some c \<Rightarrow> if \<not> Channel_IsValid c then Inl (Sentinel ErrInvalidChannel)
                  else Inr (t\<lparr>TChannel := c\<rparr>))"

definition apply_subject :: "UpdateTemplateRequest \<Rightarrow> Template \<Rightarrow> Template" where
  "apply_subject req t = (case UtSubject req of None \<Rightarrow> t | Some x \<Rightarrow> t\<lparr>TSubject := x\<rparr>)"

definition apply_content ::
    "'t template_engine \<Rightarrow> UpdateTemplateRequest \<Rightarrow> Template \<Rightarrow> err + Template" where
  "apply_content eng req t =
     (case UtContent req of
        None \<Rightarrow> Inr t
      | Some c \<Rightarrow> (case tpl_Parse eng c of
                    Inl e \<Rightarrow> Inl (syntax_error e)
                  | Inr _ \<Rightarrow> Inr (t\<lparr>TContent := c\<rparr>)))"

definition apply_variables :: "UpdateTemplateRequest \<Rightarrow> Template \<Rightarrow> Template" where
  "apply_variables req t = (case UtVariables req of None \<Rightarrow> t | Some vs \<Rightarrow> t\<lparr>Variables := vs\<rparr>)"

definition tsvc_Update ::
    "'t template_engine \<Rightarrow> err fault \<Rightarrow> err fault \<Rightarrow> time \<Rightarrow> UUID \<Rightarrow> UpdateTemplateRequest \<Rightarrow> db \<Rightarrow>
       (err + Template) \<times> db" where
  "tsvc_Update eng f1 f2 now k req d =
     (case trepo_GetByID f1 k d of
        Inl e \<Rightarrow> (Inl e, d)
      | Inr t \<Rightarrow>
          (case apply_channel req (apply_name req t) of
             Inl e \<Rightarrow> (Inl e, d)
           | Inr t \<Rightarrow>
               (case apply_content eng req (apply_subject req t) of
                  Inl e \<Rightarrow> (Inl e, d)
                | Inr t \<Rightarrow>
                    (case trepo_Update f2 now (apply_variables req t) d of
                       (Some e, t, d) \<Rightarrow> (Inl e, d)
                     | (None, t, d) \<Rightarrow> (Inr t, d)))))"

section \<open>Rendering\<close>

text \<open>
  The loop over the declared variables, which writes the defaults into the map it is given; a
  required variable that is missing ends it, with the defaults written so far.
\<close>

fun fill_vars :: "TemplateVariable list \<Rightarrow> (string \<times> json) list \<Rightarrow> err option \<times> (string \<times> json) list" where
  "fill_vars [] vars = (None, vars)"
| "fill_vars (v # vs) vars =
     (case map_of vars (VName v) of
        Some _ \<Rightarrow> fill_vars vs vars
      | None \<Rightarrow>
          if Required v
          then (Some (Wrap [] (Sentinel ErrMissingTemplateVars) ('': '' @ VName v)), vars)
          else fill_vars vs (case Default v of
                 None \<Rightarrow> vars | Some s \<Rightarrow> AList.update (VName v) (JString s) vars))"

definition execute_with ::
    "'t template_engine \<Rightarrow> string \<Rightarrow> string \<Rightarrow> (string \<times> json) list \<Rightarrow> err + string" where
  "execute_with eng what src vars =
     (case tpl_Parse eng src of
        Inl e \<Rightarrow> Inl (Wrap (''parse '' @ what @ '' template: '') e [])
      | Inr t \<Rightarrow> (case tpl_Execute eng t vars of
                    Inl e \<Rightarrow> Inl (Wrap (''execute '' @ what @ '' template: '') e [])
                  | Inr s \<Rightarrow> Inr s))"

text \<open>
  The result is the subject and the content; the second component is the caller's map
  afterwards, which stays nil if it was nil, because the code then fills a map of its own.
\<close>

definition Render ::
    "'t template_engine \<Rightarrow> Template \<Rightarrow> json_map \<Rightarrow> (err + string \<times> string) \<times> json_map" where
  "Render eng tmpl vars =
     (let (e, m) = fill_vars (Variables tmpl) (case vars of None \<Rightarrow> [] | Some m \<Rightarrow> m);
          vars' = map_option (\<lambda>_. m) vars
      in case e of
           Some e \<Rightarrow> (Inl e, vars')
         | None \<Rightarrow>
             (case execute_with eng ''content'' (TContent tmpl) m of
                Inl e \<Rightarrow> (Inl e, vars')
              | Inr content \<Rightarrow>
                  if TSubject tmpl \<noteq> []
                  then (case execute_with eng ''subject'' (TSubject tmpl) m of
                          Inl e \<Rightarrow> (Inl e, vars')
                        | Inr subject \<Rightarrow> (Inr (subject, content), vars'))
                  else (Inr ([], content), vars')))"

definition Preview ::
    "'t template_engine \<Rightarrow> err fault \<Rightarrow> UUID \<Rightarrow> json_map \<Rightarrow> db \<Rightarrow> err + string \<times> string" where
  "Preview eng f k vars d =
     (case trepo_GetByID f k d of
        Inl e \<Rightarrow> Inl e
      | Inr tmpl \<Rightarrow>
          if \<not> Active tmpl then Inl (Sentinel ErrTemplateInactive)
          else fst (Render eng tmpl vars))"

section \<open>Invariants\<close>

lemma names_ok_insert: "names_ok d \<Longrightarrow> insert_template t d = Inr (u, d') \<Longrightarrow> names_ok d'"
  using insert_template_Inr [of t d u d'] by (simp add: names_ok_def)

definition template_db_ok :: "db \<Rightarrow> bool" where
  "template_db_ok d \<longleftrightarrow> notifications_ok d \<and> templates_ok d \<and> names_ok d"

lemma insert_template_db_ok:
  assumes "template_db_ok d" "insert_template t d = Inr (u, d')"
  shows "template_db_ok d'"
proof -
  have "notifications d' = notifications d" "TID ` set (templates d) \<subseteq> TID ` set (templates d')"
    using insert_template_Inr [OF assms(2)] by auto
  with assms show ?thesis
    by (auto simp: template_db_ok_def intro: notifications_ok_templates names_ok_insert
        template_table.insert_inv)
qed

text \<open>An update that renames a template to a name in use is refused, so names stay unique.\<close>

lemma names_ok_update:
  assumes "templates_ok d" "names_ok d" "update_template t d = Inr (u, d')"
  shows "names_ok d'"
proof (cases "template_row d (TID t)")
  case None
  with assms update_template_Inr(2) [OF assms(3)] show ?thesis by simp
next
  case (Some r)
  have fresh: "varchar 255 (TName t) \<notin> TName ` {r \<in> set (templates d). TID r \<noteq> TID t}"
    using update_template_Inr(4) [OF assms(3)] Some by simp
  have d': "templates d' = map (\<lambda>r. if TID r = TID t then updated_template t r else r) (templates d)"
    using update_template_Inr(1) [OF assms(3)] by (simp add: change_templates_def)
  have ids: "distinct (map TID (templates d))" using assms(1) by (simp add: templates_ok_def)
  have "inj_on (\<lambda>r. TName (if TID r = TID t then updated_template t r else r)) (set (templates d))"
  proof (rule inj_onI)
    fix r q
    assume r: "r \<in> set (templates d)" and q: "q \<in> set (templates d)"
      and e: "TName (if TID r = TID t then updated_template t r else r) =
              TName (if TID q = TID t then updated_template t q else q)"
    have n: "TName (updated_template t x) = varchar 255 (TName t)" for x
      by (simp add: updated_template_def)
    consider "TID r = TID t" "TID q = TID t" | "TID r \<noteq> TID t" "TID q \<noteq> TID t"
      | "TID r = TID t" "TID q \<noteq> TID t" | "TID r \<noteq> TID t" "TID q = TID t"
      by blast
    then show "r = q"
    proof cases
      case 1
      with ids r q show ?thesis by (metis distinct_map_unique)
    next
      case 2
      with e r q assms(2) show ?thesis by (auto simp: names_ok_def distinct_map inj_on_def)
    next
      case 3
      then have "varchar 255 (TName t) = TName q" using e n by simp
      moreover have "TName q \<in> TName ` {r \<in> set (templates d). TID r \<noteq> TID t}" using q 3 by simp
      ultimately show ?thesis using fresh by simp
    next
      case 4
      then have "TName r = varchar 255 (TName t)" using e n by simp
      moreover have "TName r \<in> TName ` {r \<in> set (templates d). TID r \<noteq> TID t}" using r 4 by simp
      ultimately show ?thesis using fresh by simp
    qed
  qed
  with ids show ?thesis
    unfolding names_ok_def d' map_map comp_def by (simp only: distinct_map)
qed

lemma update_template_db_ok:
  assumes "template_db_ok d" "update_template t d = Inr (u, d')"
  shows "template_db_ok d'"
proof -
  have "TID ` set (templates d) = TID ` set (templates d')"
    using arg_cong [OF update_template_TIDs [OF assms(2)], of set] by simp
  then have sub: "TID ` set (templates d) \<subseteq> TID ` set (templates d')" by simp
  have "notifications_ok d'"
    by (rule notifications_ok_templates [OF _ sub])
       (use assms(1) in \<open>simp_all add: template_db_ok_def update_template_notifications [OF assms(2)]\<close>)
  with assms show ?thesis
    by (auto simp: template_db_ok_def intro: names_ok_update update_template_ok)
qed

lemma deactivate_db_ok:
  assumes "template_db_ok d"
  shows "template_db_ok (change_templates P (deactivate now) d)"
proof -
  let ?d = "change_templates P (deactivate now) d"
  have t: "TName (if b then deactivate now x else x) = TName x" for b x
    by (simp add: deactivate_def)
  have "map TName (templates ?d) = map TName (templates d)"
    by (simp add: change_templates_def t)
  then have "names_ok ?d" using assms by (simp only: names_ok_def template_db_ok_def)
  moreover have "TID ` set (templates d) = TID ` set (templates ?d)"
    using arg_cong [OF TID_change [of "deactivate now" P d], of set] by simp
  then have sub: "TID ` set (templates d) \<subseteq> TID ` set (templates ?d)" by simp
  have "notifications_ok ?d"
    by (rule notifications_ok_templates [OF _ sub])
       (use assms in \<open>simp_all add: template_db_ok_def change_templates_def\<close>)
  moreover have "templates_ok ?d"
    using assms by (intro template_table.change_inv) (simp_all add: template_db_ok_def)
  ultimately show ?thesis by (simp add: template_db_ok_def)
qed

end
