(* ===== verification/Notification_Service.thy ===== *)
theory Notification_Service
  imports Scheduler Template_Service
begin

text \<open>
  \<open>internal/service/notification.go\<close>: the requests of the API. \<open>Create\<close> and
  \<open>CreateBatch\<close> check a request, store the notifications, put the immediate ones into the
  queue and report the creation; \<open>Cancel\<close> withdraws one or a batch.
\<close>

section \<open>Requests\<close>

record CreateNotificationRequest =
  CnChannel :: string
  CnRecipient :: string
  CnSubject :: string
  CnContent :: string
  CnPriority :: string
  CnScheduledAt :: "time option"
  CnTemplateID :: "UUID option"
  CnTemplateVars :: json_map
  CnIdempotencyKey :: "string option"
  CnMetadata :: json_map

record Create_Env =
  c_template :: "err fault"
  c_lookup :: "err fault"
  c_id :: UUID
  c_created :: time
  c_checked :: time
  c_insert :: "err fault"
  c_queued :: "err fault"
  c_queued_at :: time
  c_enqueue :: "err fault"
  c_enqueued :: time

text \<open>\<open>len\<close> of a Go string is its number of bytes.\<close>

definition validateContent :: "Channel \<Rightarrow> string \<Rightarrow> err option" where
  "validateContent channel content =
     (if content = [] then Some (Sentinel ErrEmptyContent)
      else if channel = ChannelSMS
      then (if length content > 1600 then Some (Sentinel ErrContentTooLong) else None)
      else if channel = ChannelPush
      then (if length content > 4096 then Some (Sentinel ErrContentTooLong) else None)
      else if channel = ChannelEmail
      then (if length content > 100000 then Some (Sentinel ErrContentTooLong) else None)
      else None)"

section \<open>Create\<close>

text \<open>
  The request after its template was rendered. The template service may be missing (a nil
  pointer); the map of variables is the caller's, with the defaults that \<open>Render\<close> wrote.
\<close>

definition render_request ::
    "'t template_engine option \<Rightarrow> err fault \<Rightarrow> CreateNotificationRequest \<Rightarrow> db \<Rightarrow>
       err + CreateNotificationRequest" where
  "render_request templateSvc f req d =
     (case CnTemplateID req of
        None \<Rightarrow> Inr req
      | Some tid \<Rightarrow>
          (case templateSvc of
             None \<Rightarrow> Inr req
           | Some eng \<Rightarrow>
               (case trepo_GetByID f tid d of
                  Inl e \<Rightarrow> Inl e
                | Inr tmpl \<Rightarrow>
                    if \<not> Active tmpl then Inl (Sentinel ErrTemplateInactive)
                    else
                      (case Render eng tmpl (CnTemplateVars req) of
                         (Inl e, _) \<Rightarrow> Inl e
                       | (Inr (subject, content), vars) \<Rightarrow>
                           (let req = req\<lparr>CnContent := content, CnTemplateVars := vars\<rparr>
                            in Inr (if subject \<noteq> [] then req\<lparr>CnSubject := subject\<rparr> else req))))))"

definition lookup_existing ::
    "err fault \<Rightarrow> CreateNotificationRequest \<Rightarrow> db \<Rightarrow> err + Notification option" where
  "lookup_existing f req d =
     (case CnIdempotencyKey req of
        None \<Rightarrow> Inr None
      | Some key \<Rightarrow> repo_GetByIdempotencyKey f key d)"

definition requested_notification ::
    "UUID \<Rightarrow> time \<Rightarrow> UUID option \<Rightarrow> CreateNotificationRequest \<Rightarrow> Notification" where
  "requested_notification uid now batchID req =
     (let priority = PriorityFromString (CnPriority req);
          n = NewNotification uid now (CnChannel req) (CnRecipient req) (CnContent req) priority;
          n = n\<lparr>BatchID := batchID, Subject := CnSubject req,
                IdempotencyKey := CnIdempotencyKey req, TemplateID := CnTemplateID req,
                TemplateVars := CnTemplateVars req\<rparr>
      in case CnMetadata req of None \<Rightarrow> n | Some m \<Rightarrow> n\<lparr>Metadata := Some m\<rparr>)"

definition apply_schedule ::
    "time \<Rightarrow> CreateNotificationRequest \<Rightarrow> Notification \<Rightarrow> err + Notification" where
  "apply_schedule now req n =
     (case CnScheduledAt req of
        None \<Rightarrow> Inr n
      | Some t \<Rightarrow>
          if t < now then Inl (Sentinel ErrScheduleInPast)
          else Inr (n\<lparr>ScheduledAt := Some t, NStatus := StatusScheduled\<rparr>))"

text \<open>The status and the message of a notification that is not scheduled; errors are logged.\<close>

definition enqueue_created ::
    "uuid_lib \<Rightarrow> Create_Env \<Rightarrow> Notification \<Rightarrow> world \<Rightarrow> Notification \<times> world" where
  "enqueue_created lib env n w =
     (if NStatus n = StatusPending
      then
        (let n = n\<lparr>NStatus := StatusQueued\<rparr>;
             (_, d) = repo_UpdateStatus (c_queued env) (c_queued_at env) (ID n) StatusQueued (wdb w);
             (_, r) = Enqueue (c_enqueue env) (c_enqueued env) (queue_message lib n) (wredis w)
         in (n, w\<lparr>wdb := d, wredis := r\<rparr>))
      else (n, w))"

definition created_event :: "uuid_lib \<Rightarrow> Notification \<Rightarrow> StatusEvent" where
  "created_event lib n =
     \<lparr>ENotificationID = UUID_String lib (ID n), EBatchID = [], EStatus = NStatus n,
      EChannel = NChannel n, ETimestamp = CreatedAt n, EError = []\<rparr>"

definition Create ::
    "uuid_lib \<Rightarrow> 't template_engine option \<Rightarrow> Create_Env \<Rightarrow> CreateNotificationRequest \<Rightarrow> world \<Rightarrow>
       (err + Notification) \<times> world" where
  "Create lib templateSvc env req w =
     (let channel = CnChannel req
      in if \<not> Channel_IsValid channel then (Inl (Sentinel ErrInvalidChannel), w)
         else
           (case render_request templateSvc (c_template env) req (wdb w) of
              Inl e \<Rightarrow> (Inl e, w)
            | Inr req \<Rightarrow>
                (case validateContent channel (CnContent req) of
                   Some e \<Rightarrow> (Inl e, w)
                 | None \<Rightarrow>
                     (case lookup_existing (c_lookup env) req (wdb w) of
                        Inl e \<Rightarrow> (Inl e, w)
                      | Inr (Some existing) \<Rightarrow> (Inr existing, w)
                      | Inr None \<Rightarrow>
                          (case apply_schedule (c_checked env) req
                                  (requested_notification (c_id env) (c_created env) None req) of
                             Inl e \<Rightarrow> (Inl e, w)
                           | Inr n \<Rightarrow>
                               (case repo_Create (c_insert env) n (wdb w) of
                                  (Some e, d) \<Rightarrow> (Inl e, w\<lparr>wdb := d\<rparr>)
                                | (None, d) \<Rightarrow>
                                    (let (n, w) = enqueue_created lib env n (w\<lparr>wdb := d\<rparr>)
                                     in (Inr n, world_publish (created_event lib n) w))))))))"

section \<open>CreateBatch\<close>

text \<open>
  The clock and the UUIDs are read once for each request of the batch; \<open>b_ids i\<close>,
  \<open>b_created i\<close> and \<open>b_checked i\<close> are what request \<open>i\<close> gets.
\<close>

record Batch_Env =
  b_id :: UUID
  b_ids :: "nat \<Rightarrow> UUID"
  b_created :: "nat \<Rightarrow> time"
  b_checked :: "nat \<Rightarrow> time"
  b_begin :: "err fault"
  b_send :: "err fault"
  b_commit :: "err fault"
  b_enqueue :: "err fault"
  b_enqueued :: "nat \<Rightarrow> time"

record batch_state =
  result :: BatchResult
  accepted :: "Notification list"
  queueMsgs :: "QueueMessage list"

definition reject :: "nat \<Rightarrow> string \<Rightarrow> batch_state \<Rightarrow> batch_state" where
  "reject i msg st =
     st\<lparr>result := (result st)\<lparr>Rejected := Rejected (result st) + 1,
        Errors := Errors (result st) @ [\<lparr>Index = int i, Message = msg\<rparr>]\<rparr>\<rparr>"

definition accept :: "Notification \<Rightarrow> batch_state \<Rightarrow> batch_state" where
  "accept n st =
     st\<lparr>accepted := accepted st @ [n],
        result := (result st)\<lparr>Accepted := Accepted (result st) + 1,
          Notifications := Notifications (result st) @ [ID n]\<rparr>\<rparr>"

definition batch_step ::
    "uuid_lib \<Rightarrow> Batch_Env \<Rightarrow> nat \<times> CreateNotificationRequest \<Rightarrow> batch_state \<Rightarrow> batch_state" where
  "batch_step lib env = (\<lambda>(i, req) st.
     (let channel = CnChannel req
      in if \<not> Channel_IsValid channel then reject i ''invalid channel'' st
         else
           (case validateContent channel (CnContent req) of
              Some e \<Rightarrow> reject i (err_Error e) st
            | None \<Rightarrow>
                (let n = requested_notification (b_ids env i) (b_created env i) (Some (b_id env)) req
                 in if (case CnScheduledAt req of None \<Rightarrow> False | Some t \<Rightarrow> b_checked env i < t)
                    then accept (n\<lparr>ScheduledAt := CnScheduledAt req, NStatus := StatusScheduled\<rparr>) st
                    else
                      (let n = n\<lparr>NStatus := StatusQueued\<rparr>
                       in accept n (st\<lparr>queueMsgs := queueMsgs st @ [queue_message lib n]\<rparr>))))))"

definition batch_start :: "UUID \<Rightarrow> int \<Rightarrow> batch_state" where
  "batch_start batchID k =
     \<lparr>result = \<lparr>RBatchID = batchID, Total = k, Accepted = 0, Rejected = 0, Notifications = [], Errors = []\<rparr>,
      accepted = [], queueMsgs = []\<rparr>"

definition CreateBatch ::
    "uuid_lib \<Rightarrow> Batch_Env \<Rightarrow> CreateNotificationRequest list \<Rightarrow> world \<Rightarrow> (err + BatchResult) \<times> world" where
  "CreateBatch lib env requests w =
     (if int (length requests) > MaxBatchSize then (Inl (Sentinel ErrBatchTooLarge), w)
      else
        (let st = fold (batch_step lib env) (enumerate 0 requests)
                    (batch_start (b_id env) (int (length requests)))
         in if length (accepted st) > 0
            then
              (case repo_CreateBatch (b_begin env) (b_send env) (b_commit env) (accepted st) (wdb w) of
                 (Some e, d) \<Rightarrow> (Inl e, w\<lparr>wdb := d\<rparr>)
               | (None, d) \<Rightarrow>
                   if length (queueMsgs st) > 0
                   then
                     (let (_, r) = EnqueueBatch (b_enqueue env) (b_enqueued env) (queueMsgs st) (wredis w)
                      in (Inr (result st), w\<lparr>wdb := d, wredis := r\<rparr>))
                   else (Inr (result st), w\<lparr>wdb := d\<rparr>))
            else (Inr (result st), w)))"

section \<open>Cancel\<close>

definition cancelled_event :: "uuid_lib \<Rightarrow> time \<Rightarrow> UUID \<Rightarrow> StatusEvent" where
  "cancelled_event lib now k =
     \<lparr>ENotificationID = UUID_String lib k, EBatchID = [], EStatus = StatusCancelled,
      EChannel = [], ETimestamp = now, EError = []\<rparr>"

record Cancel_Env =
  k_update :: "err fault"
  k_exists :: "err fault"
  k_updated :: time
  k_event :: time

definition Cancel :: "uuid_lib \<Rightarrow> Cancel_Env \<Rightarrow> UUID \<Rightarrow> world \<Rightarrow> err option \<times> world" where
  "Cancel lib env k w =
     (case repo_CancelByID (k_update env) (k_exists env) (k_updated env) k (wdb w) of
        (Some e, d) \<Rightarrow> (Some e, w\<lparr>wdb := d\<rparr>)
      | (None, d) \<Rightarrow>
          (None, world_publish (cancelled_event lib (k_event env) k) (w\<lparr>wdb := d\<rparr>)))"

text \<open>Three methods hand on to the repository.\<close>

definition svc_GetByID :: "err fault \<Rightarrow> UUID \<Rightarrow> db \<Rightarrow> err + Notification" where
  [simp]: "svc_GetByID f k d = repo_GetByID f k d"

definition svc_GetByBatchID :: "err fault \<Rightarrow> UUID \<Rightarrow> db \<Rightarrow> err + Notification list" where
  [simp]: "svc_GetByBatchID f b d = repo_GetByBatchID f b d"

definition svc_List :: "err fault \<Rightarrow> err fault \<Rightarrow> NotificationFilter \<Rightarrow> db \<Rightarrow> err + PaginatedResult" where
  [simp]: "svc_List f1 f2 filt d = repo_List f1 f2 filt d"

definition CancelBatch :: "err fault \<Rightarrow> time \<Rightarrow> UUID \<Rightarrow> world \<Rightarrow> (err + int) \<times> world" where
  "CancelBatch f now batchID w =
     (case repo_CancelByBatchID f now batchID (wdb w) of
        (Inl e, d) \<Rightarrow> (Inl e, w\<lparr>wdb := d\<rparr>)
      | (Inr k, d) \<Rightarrow> (Inr k, w\<lparr>wdb := d\<rparr>))"


section \<open>The invariants\<close>

lemma names_ok_cong: "templates d' = templates d \<Longrightarrow> names_ok d' = names_ok d"
  by (simp add: names_ok_def)

lemma db_ok_insert: "db_ok d \<Longrightarrow> insert_notification n d = Inr (u, d') \<Longrightarrow> db_ok d'"
  using insert_notification_Inr(3) [of n d u d'] insert_notification_ok [of d n u d']
  by (auto simp: db_ok_def audit_ok_def notification_exists_def templates_ok_def list_all_iff)

lemma db_ok_repo_Create [keeps]: "db_ok d \<Longrightarrow> db_ok (snd (repo_Create f n d))"
  using exec_keeps [where I = db_ok, of d "insert_notification n" f]
  by (auto simp: repo_Create_def db_ok_insert split: prod.splits)

lemma db_ok_insert_all: "db_ok d \<Longrightarrow> insert_all ns d = Inr d' \<Longrightarrow> db_ok d'"
  by (induction ns arbitrary: d) (auto split: sum.splits dest: db_ok_insert)

lemma db_ok_repo_CreateBatch [keeps]:
  assumes "db_ok d"
  shows "db_ok (snd (repo_CreateBatch f1 f2 f3 ns d))"
  using assms db_ok_insert_all [OF assms]
  by (auto simp: repo_CreateBatch_def exec_def split: option.split sum.split prod.split)

lemma db_ok_set_status:
  assumes "db_ok d" "row d k \<noteq> None \<longrightarrow> valid_status st"
  shows "db_ok (change_rows (\<lambda>r. ID r = k) (set_status st now) d)"
proof (cases "row d k = None")
  case True
  then have "\<forall>r \<in> set (notifications d). ID r \<noteq> k"
    by (auto simp: row_def by_key_None_iff)
  then have "change_rows (\<lambda>r. ID r = k) (set_status st now) d = d"
    by (auto simp: change_rows_def intro!: db.equality map_idI)
  with assms show ?thesis by simp
qed (use assms in \<open>simp add: db_ok_change\<close>)

lemma db_ok_UpdateStatus [keeps]: "db_ok d \<Longrightarrow> db_ok (snd (repo_UpdateStatus f now k st d))"
  unfolding repo_UpdateStatus_def split_beta snd_conv
  by (rule exec_keeps [where I = db_ok]) (auto intro: db_ok_set_status split: if_splits)

lemma db_ok_cancel_where: "db_ok d \<Longrightarrow> cancel_where P now d = Inr (k, d') \<Longrightarrow> db_ok d'"
  by (auto simp: cancel_where_def Let_def db_ok_change)

lemma db_ok_CancelByID [keeps]: "db_ok d \<Longrightarrow> db_ok (snd (repo_CancelByID f1 f2 now k d))"
  using exec_keeps [where I = db_ok, of d "cancel_where (\<lambda>r. ID r = k) now" f1]
  by (auto simp: repo_CancelByID_def db_ok_cancel_where Let_def split: prod.splits sum.splits)

lemma db_ok_CancelByBatchID [keeps]: "db_ok d \<Longrightarrow> db_ok (snd (repo_CancelByBatchID f now b d))"
  unfolding repo_CancelByBatchID_def
  by (rule exec_keeps [where I = db_ok]) (auto intro: db_ok_cancel_where)

lemma enqueue_created_keeps [keeps]:
  "world_ok w \<Longrightarrow> world_ok (snd (enqueue_created lib env n w))"
  using db_ok_UpdateStatus [of "wdb w"] queue_ok_Enqueue [of "wredis w"]
  by (auto simp: enqueue_created_def world_ok_def Let_def split: prod.splits)
     (metis snd_conv)+

lemma Create_keeps [keeps]: "world_ok w \<Longrightarrow> world_ok (snd (Create lib svc env req w))"
  using db_ok_repo_Create [of "wdb w" "c_insert env"]
  by (auto simp: Create_def Let_def world_ok_db world_okD split: sum.splits option.splits prod.splits)
     (metis snd_conv world_ok_db world_okD(1) enqueue_created_keeps)+

lemma CreateBatch_keeps [keeps]: "world_ok w \<Longrightarrow> world_ok (snd (CreateBatch lib env reqs w))"
  using db_ok_repo_CreateBatch [of "wdb w" "b_begin env" "b_send env" "b_commit env"]
    queue_ok_EnqueueBatch [of "wredis w" "b_enqueue env" "b_enqueued env"]
  by (auto simp: CreateBatch_def Let_def world_ok_def split: prod.splits option.splits)
     (metis snd_conv)+

lemma Cancel_keeps [keeps]: "world_ok w \<Longrightarrow> world_ok (snd (Cancel lib env k w))"
  using db_ok_CancelByID [of "wdb w" "k_update env" "k_exists env" "k_updated env" k]
  by (auto simp: Cancel_def world_ok_def split: prod.splits option.splits)

lemma CancelBatch_keeps [keeps]: "world_ok w \<Longrightarrow> world_ok (snd (CancelBatch f now b w))"
  using db_ok_CancelByBatchID [of "wdb w" f now b]
  by (auto simp: CancelBatch_def world_ok_def split: prod.splits sum.splits)


end
