(* ===== verification/Notification_Outcomes.thy ===== *)
theory Notification_Outcomes
  imports Notification_Service
begin

text \<open>
  What the requests of \<open>Notification_Service\<close> achieve: the outcome of \<open>Create\<close> on every
  branch, idempotency, and the batch against a declarative account of it.
\<close>

section \<open>Storing and queueing one notification\<close>

text \<open>Did the command reach the server?\<close>

definition executed :: "err fault \<Rightarrow> bool" where
  "executed f \<longleftrightarrow> (case f of None \<Rightarrow> True | Some (_, k) \<Rightarrow> 0 < k)"

lemma exec_total:
  "stmt s = Inr (a, s') \<Longrightarrow> snd (exec f stmt s) = (if executed f then s' else s)"
  by (auto simp: exec_def executed_def split: option.split)

lemma Enqueue_state: "snd (Enqueue f now m r) = (if executed f then zadd_message now m r else r)"
  by (simp add: Enqueue_def split_beta exec_total)

lemma UpdateStatus_state:
  "valid_status st \<Longrightarrow> text_ok st \<Longrightarrow>
     snd (repo_UpdateStatus f now k st d) =
       (if executed f then change_rows (\<lambda>r. ID r = k) (set_status st now) d else d)"
  by (simp add: repo_UpdateStatus_def split_beta exec_total)

lemma requested_simps [simp]:
  "ID (requested_notification uid now b req) = uid"
  "BatchID (requested_notification uid now b req) = b"
  "NChannel (requested_notification uid now b req) = CnChannel req"
  "Recipient (requested_notification uid now b req) = CnRecipient req"
  "Content (requested_notification uid now b req) = CnContent req"
  "Subject (requested_notification uid now b req) = CnSubject req"
  "NPriority (requested_notification uid now b req) = PriorityFromString (CnPriority req)"
  "NStatus (requested_notification uid now b req) = StatusPending"
  "IdempotencyKey (requested_notification uid now b req) = CnIdempotencyKey req"
  "ScheduledAt (requested_notification uid now b req) = None"
  "TemplateID (requested_notification uid now b req) = CnTemplateID req"
  by (simp_all add: requested_notification_def NewNotification_def Let_def split: option.split)

lemma apply_schedule_cases:
  "apply_schedule now req n = Inr m \<longleftrightarrow>
     (case CnScheduledAt req of
        None \<Rightarrow> m = n
      | Some t \<Rightarrow> now \<le> t \<and> m = n\<lparr>ScheduledAt := Some t, NStatus := StatusScheduled\<rparr>)"
  by (auto simp: apply_schedule_def split: option.split)

lemma enqueue_created_pending:
  assumes "NStatus n = StatusPending"
  shows "enqueue_created lib env n w =
    (n\<lparr>NStatus := StatusQueued\<rparr>,
     w\<lparr>wdb := (if executed (c_queued env)
               then change_rows (\<lambda>r. ID r = ID n) (set_status StatusQueued (c_queued_at env)) (wdb w)
               else wdb w),
       wredis := (if executed (c_enqueue env)
                  then zadd_message (c_enqueued env) (queue_message lib n) (wredis w) else wredis w)\<rparr>)"
  using assms
  by (simp add: enqueue_created_def Let_def split_beta UpdateStatus_state Enqueue_state)
     (simp add: queue_message_def)

lemma enqueue_created_scheduled:
  "NStatus n = StatusScheduled \<Longrightarrow> enqueue_created lib env n w = (n, w)"
  by (simp add: enqueue_created_def)

section \<open>The outcome of Create\<close>

text \<open>What rendering leaves of a request.\<close>

lemma render_request_same:
  "render_request svc f req d = Inr req' \<Longrightarrow>
     CnChannel req' = CnChannel req \<and> CnRecipient req' = CnRecipient req \<and>
     CnPriority req' = CnPriority req \<and> CnScheduledAt req' = CnScheduledAt req \<and>
     CnTemplateID req' = CnTemplateID req \<and> CnIdempotencyKey req' = CnIdempotencyKey req \<and>
     CnMetadata req' = CnMetadata req"
  by (auto simp: render_request_def Let_def split: option.splits sum.splits if_splits prod.splits)

lemma lookup_found:
  "lookup_existing f req d = Inr (Some n) \<Longrightarrow>
     n \<in> set (notifications d) \<and> CnIdempotencyKey req \<noteq> None \<and> IdempotencyKey n = CnIdempotencyKey req"
  by (auto simp: lookup_existing_def repo_GetByIdempotencyKey_def dest!: query_Inr
      split: option.splits if_splits simp: find_Some_iff)

text \<open>The request that is stored: rendered, valid and not yet known.\<close>

definition accepted_request ::
    "'t template_engine option \<Rightarrow> Create_Env \<Rightarrow> CreateNotificationRequest \<Rightarrow> db \<Rightarrow>
       CreateNotificationRequest \<Rightarrow> bool" where
  "accepted_request svc env req d req' \<longleftrightarrow>
     render_request svc (c_template env) req d = Inr req' \<and>
     Channel_IsValid (CnChannel req') \<and> validateContent (CnChannel req') (CnContent req') = None \<and>
     lookup_existing (c_lookup env) req' d = Inr None \<and>
     nullable (\<lambda>t. c_checked env \<le> t) (CnScheduledAt req')"

definition requested :: "Create_Env \<Rightarrow> CreateNotificationRequest \<Rightarrow> Notification" where
  "requested env req =
     (let n = requested_notification (c_id env) (c_created env) None req
      in case CnScheduledAt req of None \<Rightarrow> n
         | Some t \<Rightarrow> n\<lparr>ScheduledAt := Some t, NStatus := StatusScheduled\<rparr>)"

text \<open>The three ways through \<open>Create\<close>.\<close>

lemma Create_cases:
  obtains e where "Create lib svc env req w = (Inl e, w)"
  | n where "Create lib svc env req w = (Inr n, w)" "n \<in> set (notifications (wdb w))"
      "CnIdempotencyKey req \<noteq> None" "IdempotencyKey n = CnIdempotencyKey req"
  | req' e d where "accepted_request svc env req (wdb w) req'"
      "repo_Create (c_insert env) (requested env req') (wdb w) = (Some e, d)"
      "Create lib svc env req w = (Inl e, w\<lparr>wdb := d\<rparr>)"
  | req' d n w' where "accepted_request svc env req (wdb w) req'"
      "repo_Create (c_insert env) (requested env req') (wdb w) = (None, d)"
      "enqueue_created lib env (requested env req') (w\<lparr>wdb := d\<rparr>) = (n, w')"
      "Create lib svc env req w = (Inr n, w'\<lparr>wevents := wevents w' @ [created_event lib n]\<rparr>)"
proof (cases "Channel_IsValid (CnChannel req)")
  case ch: True
  show ?thesis
  proof (cases "render_request svc (c_template env) req (wdb w)")
    case (Inl e)
    with ch show ?thesis by (intro that(1)) (simp add: Create_def)
  next
    case r: (Inr q)
    note same = render_request_same [OF r]
    show ?thesis
    proof (cases "validateContent (CnChannel req) (CnContent q)")
      case (Some e)
      with ch r show ?thesis by (intro that(1)) (simp add: Create_def)
    next
      case v: None
      show ?thesis
      proof (cases "lookup_existing (c_lookup env) q (wdb w)")
        case (Inl e)
        with ch r v show ?thesis by (intro that(1)) (simp add: Create_def)
      next
        case l: (Inr found)
        show ?thesis
        proof (cases found)
          case (Some n)
          with lookup_found [of "c_lookup env" q "wdb w" n] l same ch r v show ?thesis
            by (intro that(2)) (auto simp: Create_def)
        next
          case f: None
          show ?thesis
          proof (cases "apply_schedule (c_checked env) q
              (requested_notification (c_id env) (c_created env) None q)")
            case (Inl e)
            with ch r v l f show ?thesis by (intro that(1)) (simp add: Create_def)
          next
            case s: (Inr n)
            then have n: "n = requested env q" and "nullable (\<lambda>t. c_checked env \<le> t) (CnScheduledAt q)"
              by (auto simp: apply_schedule_cases requested_def Let_def split: option.splits)
            then have acc: "accepted_request svc env req (wdb w) q"
              using ch r v l f same by (simp add: accepted_request_def)
            obtain e d where c: "repo_Create (c_insert env) (requested env q) (wdb w) = (e, d)"
              by (metis prod.exhaust)
            obtain m w' where en: "enqueue_created lib env (requested env q) (w\<lparr>wdb := d\<rparr>) = (m, w')"
              by (metis prod.exhaust)
            show ?thesis
              using that(3) [OF acc, of _ d] that(4) [OF acc, of d m w'] c en ch r v l f s
              by (cases e) (simp_all add: Create_def n)
          qed
        qed
      qed
    qed
  qed
qed (auto intro: that(1) simp: Create_def)


lemma repo_Create_stored:
  "repo_Create f n d = (None, d') \<Longrightarrow> f = None \<and> insert_notification n d = Inr ((), d')"
  by (auto simp: repo_Create_def err_of_def split: prod.splits sum.splits dest!: exec_InrD)

lemma repo_Create_refused:
  "repo_Create f n d = (Some e, d') \<Longrightarrow> f = None \<Longrightarrow> d' = d"
  by (auto simp: repo_Create_def split: prod.splits sum.splits)

lemma row_in: "notifications_ok d \<Longrightarrow> n \<in> set (notifications d) \<Longrightarrow> row d (ID n) = Some n"
  by (auto simp: notifications_ok_def row_def by_key_mem)

lemma world_ok_notifications: "world_ok w \<Longrightarrow> notifications_ok (wdb w)"
  by (simp add: world_ok_def db_ok_def)

lemma requested_sim [simp]:
  "ID (requested env q) = c_id env" "NChannel (requested env q) = CnChannel q"
  "Recipient (requested env q) = CnRecipient q" "Content (requested env q) = CnContent q"
  "IdempotencyKey (requested env q) = CnIdempotencyKey q"
  "NPriority (requested env q) = PriorityFromString (CnPriority q)"
  "NStatus (requested env q) = (if CnScheduledAt q = None then StatusPending else StatusScheduled)"
  "ScheduledAt (requested env q) = CnScheduledAt q"
  by (simp_all add: requested_def Let_def split: option.split)

text \<open>What became of the notification that was stored: scheduled, or queued with its message.\<close>

definition stored_and_queued ::
    "uuid_lib \<Rightarrow> Create_Env \<Rightarrow> CreateNotificationRequest \<Rightarrow> Notification \<Rightarrow> world \<Rightarrow> world \<Rightarrow> bool" where
  "stored_and_queued lib env q n w w' \<longleftrightarrow>
     (let m = requested env q
      in if CnScheduledAt q \<noteq> None
         then n = m \<and> row (wdb w') = (row (wdb w))(c_id env \<mapsto> inserted m) \<and> wredis w' = wredis w
         else n = m\<lparr>NStatus := StatusQueued\<rparr> \<and>
           row (wdb w') = (row (wdb w))(c_id env \<mapsto> set_status StatusQueued (c_queued_at env) (inserted m)) \<and>
           (\<forall>c. waiting (wredis w') c =
              (if executed (c_enqueue env) \<and> c = CnChannel q
               then (waiting (wredis w) c)(queue_message lib n \<mapsto> calcScore (NPriority n) (c_enqueued env))
               else waiting (wredis w) c)))"

lemma stored_and_queued_event [simp]:
  "stored_and_queued lib env q n w (w'\<lparr>wevents := es\<rparr>) = stored_and_queued lib env q n w w'"
  by (simp add: stored_and_queued_def)

lemma queue_message_fields [simp]:
  "QChannel (queue_message lib n) = NChannel n" "QPriority (queue_message lib n) = NPriority n"
  "QNotificationID (queue_message lib n) = UUID_String lib (ID n)"
  "queue_message lib (n\<lparr>NStatus := s\<rparr>) = queue_message lib n"
  by (simp_all add: queue_message_def)

lemma enqueue_created_stored:
  assumes w: "world_ok w" and f: "c_queued env = None"
    and d: "insert_notification (requested env q) (wdb w) = Inr ((), d)"
    and e: "enqueue_created lib env (requested env q) (w\<lparr>wdb := d\<rparr>) = (n, w')"
  shows "stored_and_queued lib env q n w w'" "wevents w' = wevents w" "wsent w' = wsent w"
    "wbreakers w' = wbreakers w"
proof -
  have r: "row d = (row (wdb w))(c_id env \<mapsto> inserted (requested env q))"
    using insert_row_row [OF d] by simp
  have "stored_and_queued lib env q n w w' \<and> wevents w' = wevents w \<and> wsent w' = wsent w \<and>
    wbreakers w' = wbreakers w"
  proof (cases "CnScheduledAt q")
    case None
    have "row (change_rows (\<lambda>r. ID r = c_id env) (set_status StatusQueued (c_queued_at env)) d) =
      (row (wdb w))(c_id env \<mapsto> set_status StatusQueued (c_queued_at env) (inserted (requested env q)))"
      using notification_table.change_key [of "set_status StatusQueued (c_queued_at env)" "c_id env" "\<lambda>_. True" d] r
      by simp
    with None e f w show ?thesis
      by (auto simp: enqueue_created_pending stored_and_queued_def executed_def waiting_zadd
          world_ok_def fun_eq_iff)
  next
    case (Some t)
    with e r show ?thesis
      by (auto simp: enqueue_created_scheduled stored_and_queued_def)
  qed
  then show "stored_and_queued lib env q n w w'" "wevents w' = wevents w" "wsent w' = wsent w"
    "wbreakers w' = wbreakers w" by simp_all
qed



section \<open>Idempotency\<close>

lemma find_key:
  "distinct (List.map_filter IdempotencyKey ns) \<Longrightarrow> r \<in> set ns \<Longrightarrow> IdempotencyKey r = Some key \<Longrightarrow>
     find (\<lambda>n. IdempotencyKey n = Some key) ns = Some r"
proof (induction ns)
  case (Cons n ns)
  have "key \<in> set (List.map_filter IdempotencyKey ns)" if "r \<in> set ns"
    using that Cons.prems(3) by (force simp: List.map_filter_def image_iff)
  with Cons show ?case by (cases "IdempotencyKey n") (auto simp: List.map_filter_simps)
qed simp

lemma known_key_found:
  assumes "notifications_ok d" "row d k = Some r" "IdempotencyKey r = Some key" "text_ok key"
  shows "repo_GetByIdempotencyKey None key d = Inr (Some r)"
  using assms find_key [of "notifications d" r key] row_mem [OF assms(2)]
  by (simp add: repo_GetByIdempotencyKey_def notifications_ok_def idempotency_keys_def)

lemma enqueue_created_key:
  assumes "enqueue_created lib env n w = (m, w')" "row (wdb w) (ID n) = Some r"
  shows "ID m = ID n \<and> (\<exists>r'. row (wdb w') (ID n) = Some r' \<and> IdempotencyKey r' = IdempotencyKey r)"
proof (cases "NStatus n = StatusPending")
  case True
  from assms show ?thesis
    by (auto simp: enqueue_created_pending [OF True] row_change split: if_splits)
next
  case False
  with assms show ?thesis by (auto simp: enqueue_created_def)
qed

lemma insert_ok_key: "insert_ok n \<Longrightarrow> IdempotencyKey n = Some key \<Longrightarrow> text_ok key"
  by (auto simp: insert_ok_def dest: varchar_ok_text)

lemma created_key:
  assumes w: "world_ok w" and c: "Create lib svc env req w = (Inr n, w1)"
    and k: "CnIdempotencyKey req = Some key" "varchar 255 key = key" and t: "text_ok key"
  shows "\<exists>r. row (wdb w1) (ID n) = Some r \<and> IdempotencyKey r = Some key"
proof (cases rule: Create_cases [of lib svc env req w])
  case (2 m)
  with c k row_in [OF world_ok_notifications [OF w]] show ?thesis by fastforce
next
  case (4 q d m w')
  have q: "CnIdempotencyKey q = Some key"
    using 4(1) render_request_same [of svc "c_template env" req "wdb w" q] k(1)
    by (simp add: accepted_request_def)
  note i = conjunct2 [OF repo_Create_stored [OF 4(2)]]
  have "row (wdb (w\<lparr>wdb := d\<rparr>)) (ID (requested env q)) = Some (inserted (requested env q))"
    using insert_row_row [OF i] by simp
  from enqueue_created_key [OF 4(3) this] 4(4) c q k(2) show ?thesis by auto
qed (use c in simp_all)


section \<open>The batch\<close>

text \<open>What the loop does with one request: the message of its rejection, or its notification.\<close>

definition batch_outcome :: "Batch_Env \<Rightarrow> nat \<times> CreateNotificationRequest \<Rightarrow> string + Notification" where
  "batch_outcome env = (\<lambda>(i, req).
     if \<not> Channel_IsValid (CnChannel req) then Inl ''invalid channel''
     else case validateContent (CnChannel req) (CnContent req) of
       Some e \<Rightarrow> Inl (err_Error e)
     | None \<Rightarrow>
         (let n = requested_notification (b_ids env i) (b_created env i) (Some (b_id env)) req
          in case CnScheduledAt req of
               None \<Rightarrow> Inr (n\<lparr>NStatus := StatusQueued\<rparr>)
             | Some t \<Rightarrow> Inr (if b_checked env i < t then n\<lparr>ScheduledAt := Some t, NStatus := StatusScheduled\<rparr>
                              else n\<lparr>NStatus := StatusQueued\<rparr>)))"

definition batch_accepted :: "Batch_Env \<Rightarrow> (nat \<times> CreateNotificationRequest) list \<Rightarrow> Notification list" where
  "batch_accepted env irs =
     List.map_filter (\<lambda>ir. case batch_outcome env ir of Inl _ \<Rightarrow> None | Inr n \<Rightarrow> Some n) irs"

definition batch_errors :: "Batch_Env \<Rightarrow> (nat \<times> CreateNotificationRequest) list \<Rightarrow> BatchError list" where
  "batch_errors env irs =
     List.map_filter (\<lambda>ir. case batch_outcome env ir of
       Inl msg \<Rightarrow> Some \<lparr>Index = int (fst ir), Message = msg\<rparr> | Inr _ \<Rightarrow> None) irs"

lemma batch_step_outcome:
  "batch_step lib env ir st =
     (case batch_outcome env ir of
        Inl msg \<Rightarrow> reject (fst ir) msg st
      | Inr n \<Rightarrow> accept n
          (if NStatus n = StatusQueued then st\<lparr>queueMsgs := queueMsgs st @ [queue_message lib n]\<rparr> else st))"
  by (cases ir) (auto simp: batch_step_def batch_outcome_def Let_def split: option.split)

lemma batch_loop:
  "fold (batch_step lib env) irs st =
     \<lparr>result = (result st)\<lparr>
        Accepted := Accepted (result st) + int (length (batch_accepted env irs)),
        Rejected := Rejected (result st) + int (length (batch_errors env irs)),
        Notifications := Notifications (result st) @ map ID (batch_accepted env irs),
        Errors := Errors (result st) @ batch_errors env irs\<rparr>,
      accepted = accepted st @ batch_accepted env irs,
      queueMsgs = queueMsgs st @
        map (queue_message lib) (filter (\<lambda>n. NStatus n = StatusQueued) (batch_accepted env irs))\<rparr>"
proof (induction irs arbitrary: st)
  case Nil
  then show ?case by (simp add: batch_accepted_def batch_errors_def List.map_filter_simps)
next
  case (Cons ir irs)
  then show ?case
    by (cases "batch_outcome env ir")
       (simp_all add: batch_step_outcome batch_accepted_def batch_errors_def List.map_filter_simps
          reject_def accept_def)
qed

lemma batch_counts:
  "length (batch_accepted env irs) + length (batch_errors env irs) = length irs"
  by (induction irs)
     (auto simp: batch_accepted_def batch_errors_def List.map_filter_simps split: sum.split)


text \<open>
  C14. Which requests a batch accepts is decided for each request alone, by its channel and its
  content. If the batch succeeds, the accepted ones are stored together, in their order, every
  other is reported with its index and its reason, and the immediate ones, with those whose
  time has passed, are in their channels' queues if the enqueue worked; no event is published.
  If it fails, the queue is untouched and the database has none or all of the rows.
\<close>

theorem create_batch_outcome:
  assumes w: "world_ok w"
  shows "let irs = enumerate 0 requests; ns = batch_accepted env irs;
             stored = (wdb w)\<lparr>notifications := notifications (wdb w) @ map inserted ns\<rparr>
    in case CreateBatch lib env requests w of
         (Inl e, w') \<Rightarrow>
           (e = Sentinel ErrBatchTooLarge \<and> 1000 < length requests \<and> w' = w) \<or>
           (length requests \<le> 1000 \<and> w' \<in> {w, w\<lparr>wdb := stored\<rparr>})
       | (Inr res, w') \<Rightarrow>
           length requests \<le> 1000 \<and>
           res = \<lparr>RBatchID = b_id env, Total = int (length requests), Accepted = int (length ns),
                  Rejected = int (length requests) - int (length ns),
                  Notifications = map ID ns, Errors = batch_errors env irs\<rparr> \<and>
           wdb w' = stored \<and> wevents w' = wevents w \<and> wsent w' = wsent w \<and>
           wbreakers w' = wbreakers w \<and>
           (b_enqueue env = None \<longrightarrow>
             (\<forall>c. dom (waiting (wredis w') c) = dom (waiting (wredis w) c) \<union>
                queue_message lib ` {n \<in> set ns. NStatus n = StatusQueued \<and> NChannel n = c}))"
proof -
  define irs where "irs = enumerate 0 requests"
  define ns where "ns = batch_accepted env irs"
  define msgs where "msgs = map (queue_message lib) (filter (\<lambda>n. NStatus n = StatusQueued) ns)"
  define stored where "stored = (wdb w)\<lparr>notifications := notifications (wdb w) @ map inserted ns\<rparr>"
  have st: "fold (batch_step lib env) irs (batch_start (b_id env) (int (length requests))) =
     \<lparr>result = \<lparr>RBatchID = b_id env, Total = int (length requests), Accepted = int (length ns),
        Rejected = int (length (batch_errors env irs)), Notifications = map ID ns,
        Errors = batch_errors env irs\<rparr>, accepted = ns, queueMsgs = msgs\<rparr>"
    by (simp add: batch_loop batch_start_def ns_def msgs_def)
  have rej: "int (length (batch_errors env irs)) = int (length requests) - int (length ns)"
    using batch_counts [of env irs] by (simp add: ns_def irs_def)
  obtain e d where c: "repo_CreateBatch (b_begin env) (b_send env) (b_commit env) ns (wdb w) = (e, d)"
    by (metis prod.exhaust)
  have d: "if e = None then d = stored else d \<in> {wdb w, stored}"
    using insert_all_rows [of ns "wdb w"] c
    by (auto simp: stored_def repo_CreateBatch_def exec_def split: option.splits sum.splits prod.splits)
  define r where "r = snd (EnqueueBatch (b_enqueue env) (b_enqueued env) msgs (wredis w))"
  define Q where "Q s \<longleftrightarrow> (b_enqueue env = None \<longrightarrow>
     (\<forall>c. dom (waiting s c) = dom (waiting (wredis w) c) \<union>
        queue_message lib ` {n \<in> set ns. NStatus n = StatusQueued \<and> NChannel n = c}))" for s
  have q: "Q r"
    using w by (auto simp: waiting_EnqueueBatch world_ok_def msgs_def r_def Q_def)
  have none: "Q (wredis w)" if "msgs = []"
    using that by (auto simp: msgs_def filter_empty_conv Q_def)
  have empty: "stored = wdb w" "msgs = []" if "ns = []"
    using that by (simp_all add: stored_def msgs_def)
  show ?thesis
    unfolding Let_def irs_def [symmetric] ns_def [symmetric] stored_def [symmetric]
      Q_def [symmetric] CreateBatch_def st c
    using d q rej empty none
    by (cases "ns = []"; cases "msgs = []"; cases e)
       (auto simp add: MaxBatchSize_def c split_beta r_def [symmetric])
qed


section \<open>Sample requests\<close>

definition sample_request :: "string \<Rightarrow> CreateNotificationRequest" where
  "sample_request content =
     \<lparr>CnChannel = ''sms'', CnRecipient = ''+905551234567'', CnSubject = [], CnContent = content,
      CnPriority = ''high'', CnScheduledAt = None, CnTemplateID = None, CnTemplateVars = None,
      CnIdempotencyKey = Some ''k'', CnMetadata = None\<rparr>"

definition sample_create :: "UUID \<Rightarrow> Create_Env" where
  "sample_create k =
     \<lparr>c_template = None, c_lookup = None, c_id = k, c_created = 7000, c_checked = 7000,
      c_insert = None, c_queued = None, c_queued_at = 8000, c_enqueue = None, c_enqueued = 9000\<rparr>"

definition no_templates :: "unit template_engine option" where
  "no_templates = None"

abbreviation start_world :: world where
  "start_world \<equiv> sample_world (sample_notification 1 StatusScheduled)"

lemma sample_create_fields [simp]:
  "c_insert (sample_create k) = None" "c_queued (sample_create k) = None"
  "c_lookup (sample_create k) = None" "c_id (sample_create k) = k"
  "CnIdempotencyKey (sample_request c) = Some ''k''" "CnTemplateID (sample_request c) = None"
  "CnChannel (sample_request c) = ''sms''" "CnContent (sample_request c) = c"
  by (simp_all add: sample_create_def sample_request_def)

lemma sample_create_answers:
  "\<exists>n w. Create sample_lib no_templates (sample_create 9) (sample_request ''Hello'') start_world = (Inr n, w)"
proof -
  have "\<not> isl (fst (Create sample_lib no_templates (sample_create 9) (sample_request ''Hello'') start_world))"
    by code_simp
  then show ?thesis by (metis isl_def prod.collapse sum.collapse(2))
qed



theorem create_batch_outcome_witness:
  "\<exists>res w. CreateBatch sample_lib
       \<lparr>b_id = 20, b_ids = (\<lambda>i. 21 + of_nat i), b_created = (\<lambda>_. 7000), b_checked = (\<lambda>_. 7000),
        b_begin = None, b_send = None, b_commit = None, b_enqueue = None, b_enqueued = (\<lambda>_. 8000)\<rparr>
       [sample_request ''Hello'', sample_request []] start_world = (Inr res, w) \<and>
     Accepted res = 1 \<and> Rejected res = 1 \<and> Notifications res = [21]"
proof -
  let ?env = "\<lparr>b_id = 20, b_ids = (\<lambda>i. 21 + of_nat i), b_created = (\<lambda>_. 7000), b_checked = (\<lambda>_. 7000),
        b_begin = None, b_send = None, b_commit = None, b_enqueue = None, b_enqueued = (\<lambda>_. 8000)\<rparr> :: Batch_Env"
  let ?reqs = "[sample_request ''Hello'', sample_request []]"
  have "\<not> isl (fst (CreateBatch sample_lib ?env ?reqs start_world))" by code_simp
  then obtain res w where c: "CreateBatch sample_lib ?env ?reqs start_world = (Inr res, w)"
    by (metis isl_def prod.collapse sum.collapse(2))
  have "map ID (batch_accepted ?env (enumerate 0 ?reqs)) = [21]" by code_simp
  then show ?thesis
    using create_batch_outcome [OF sample_scheduled_ok, where requests = ?reqs and env = ?env and lib = sample_lib] c
    by (auto simp: Let_def) 
qed

end
