(* ===== verification/Worker.thy ===== *)
theory Worker
  imports Notification_Outcomes
begin

text \<open>
  \<open>cmd/worker/main.go\<close>: the loop of one worker, which takes a message of its channel, has the
  notification processed and acknowledges the message whatever came of it.
\<close>

section \<open>The loop\<close>

record Tick_Env =
  t_dequeue :: "err fault"
  t_cancelled :: bool
  t_process :: Process_Env
  t_members :: "err fault"
  t_remove :: "err fault"

text \<open>
  One round of the loop; the first component says whether the loop goes on. \<open>t_cancelled\<close> is
  \<open>ctx.Err() != nil\<close>, which is asked only after an error.
\<close>

definition worker_tick ::
    "uuid_lib \<Rightarrow> DeliveryConfig \<Rightarrow> Limiter \<Rightarrow> Channel \<Rightarrow> Tick_Env \<Rightarrow> world \<Rightarrow> bool go \<times> world" where
  "worker_tick lib cfg lmt channel env w =
     (case Dequeue (t_dequeue env) channel (wredis w) of
        (Inl e, r) \<Rightarrow> (Ret (\<not> t_cancelled env), w\<lparr>wredis := r\<rparr>)
      | (Inr None, r) \<Rightarrow> (Ret True, w\<lparr>wredis := r\<rparr>)
      | (Inr (Some msg), r) \<Rightarrow>
          (case Process lib cfg lmt (t_process env) (QNotificationID msg) (w\<lparr>wredis := r\<rparr>) of
             (Panic, w) \<Rightarrow> (Panic, w)
           | (Ret _, w) \<Rightarrow>
               (let (_, r) = Acknowledge (t_members env) (t_remove env) channel
                      (QNotificationID msg) (wredis w)
                in (Ret True, w\<lparr>wredis := r\<rparr>))))"

text \<open>
  What the \<open>select\<close> of the loop receives: the end of the context or a tick. The loop ends
  with the first end, after the last signal it waits for the next.
\<close>

datatype worker_signal = Done | Tick Tick_Env

fun runWorker ::
    "uuid_lib \<Rightarrow> DeliveryConfig \<Rightarrow> Limiter \<Rightarrow> Channel \<Rightarrow> worker_signal list \<Rightarrow> world \<Rightarrow> bool go \<times> world" where
  "runWorker lib cfg lmt channel [] w = (Ret True, w)"
| "runWorker lib cfg lmt channel (Done # sigs) w = (Ret False, w)"
| "runWorker lib cfg lmt channel (Tick env # sigs) w =
     (case worker_tick lib cfg lmt channel env w of
        (Ret True, w) \<Rightarrow> runWorker lib cfg lmt channel sigs w
      | (res, w) \<Rightarrow> (res, w))"

section \<open>The messages of a round\<close>

lemma messages_Dequeue:
  assumes "queue_ok r"
  shows "messages (snd (Dequeue f c r)) c' = messages r c'"
  unfolding messages_def
  using Dequeue_state [OF assms, of f c] redis_queue.deq_no_loss [OF assms, of c c'] by metis

lemma messages_Acknowledge:
  "messages (snd (Acknowledge f1 f2 c i r)) c' \<subseteq> messages r c'"
proof -
  let ?rem = "\<lambda>x. r\<lparr>rsets := (rsets r)(processingKeyPrefix @ c := srem x (rsets r (processingKeyPrefix @ c)))\<rparr>"
  have "messages (?rem x) c' \<subseteq> messages r c'" for x
    by (auto simp: messages_def waiting_def in_flight_def)
  moreover have "snd (Acknowledge f1 f2 c i r) = r \<or> (\<exists>x. snd (Acknowledge f1 f2 c i r) = ?rem x)"
    by (auto simp: Acknowledge_def exec_def Let_def split: sum.split option.split)
  ultimately show ?thesis by (elim disjE exE) simp_all
qed

lemma worker_tick_cases:
  obtains b where "worker_tick lib cfg lmt c env w =
      (Ret b, w\<lparr>wredis := snd (Dequeue (t_dequeue env) c (wredis w))\<rparr>)"
  | m r res w1 where "Dequeue (t_dequeue env) c (wredis w) = (Inr (Some m), r)"
      "Process lib cfg lmt (t_process env) (QNotificationID m) (w\<lparr>wredis := r\<rparr>) = (res, w1)"
      "worker_tick lib cfg lmt c env w =
        (case res of Panic \<Rightarrow> (Panic, w1) | Ret _ \<Rightarrow>
           (Ret True, w1\<lparr>wredis := snd (Acknowledge (t_members env) (t_remove env) c (QNotificationID m) (wredis w1))\<rparr>))"
proof -
  obtain a r where d: "Dequeue (t_dequeue env) c (wredis w) = (a, r)" by (metis prod.exhaust)
  show ?thesis
  proof (cases a)
    case (Inl e)
    with d that(1) show ?thesis by (auto simp: worker_tick_def)
  next
    case (Inr mo)
    show ?thesis
    proof (cases mo)
      case None
      with d Inr that(1) show ?thesis by (auto simp: worker_tick_def)
    next
      case (Some m)
      obtain res w1 where "Process lib cfg lmt (t_process env) (QNotificationID m) (w\<lparr>wredis := r\<rparr>) = (res, w1)"
        by (metis prod.exhaust)
      with d Inr Some that(2) show ?thesis
        by (auto simp: worker_tick_def split: go.split prod.split)
    qed
  qed
qed

lemma worker_tick_ok:
  assumes w: "world_ok w"
  shows "world_ok (snd (worker_tick lib cfg lmt c env w)) \<and> fst (worker_tick lib cfg lmt c env w) \<noteq> Panic"
proof (cases rule: worker_tick_cases [of lib cfg lmt c env w])
  case (1 b)
  with w show ?thesis by (auto simp: world_ok_def keeps)
next
  case (2 m r res w1)
  have "queue_ok r" using queue_ok_Dequeue [of "wredis w" "t_dequeue env" c] w 2(1) by (simp add: world_ok_def)
  with w have "world_ok (w\<lparr>wredis := r\<rparr>)" by (rule world_ok_redis)
  from Process_effect [OF this 2(2)] have "world_ok w1" "res \<noteq> Panic" by simp_all
  with 2(3) show ?thesis by (auto simp: world_ok_def keeps split: go.split)
qed


section \<open>A round on the whole world\<close>

lemma worker_tick_effect:
  assumes w: "world_ok w"
  shows "messages (wredis (snd (worker_tick lib cfg lmt c env w))) c' \<subseteq>
       messages (wredis w) c' \<union> {queue_message lib n |n k. row (wdb w) k = Some n \<and> NChannel n = c'}"
    and "wdb (snd (worker_tick lib cfg lmt c env w)) = wdb w \<or>
       (\<exists>k n. row (wdb w) k = Some n \<and> \<not> Status_IsFinal (NStatus n) \<and>
          only_touches k w (snd (worker_tick lib cfg lmt c env w)))"
proof -
  have q: "queue_ok (wredis w)" using w by (simp add: world_ok_def)
  have "messages (wredis (snd (worker_tick lib cfg lmt c env w))) c' \<subseteq>
       messages (wredis w) c' \<union> {queue_message lib n |n k. row (wdb w) k = Some n \<and> NChannel n = c'} \<and>
    (wdb (snd (worker_tick lib cfg lmt c env w)) = wdb w \<or>
       (\<exists>k n. row (wdb w) k = Some n \<and> \<not> Status_IsFinal (NStatus n) \<and>
          only_touches k w (snd (worker_tick lib cfg lmt c env w))))"
  proof (cases rule: worker_tick_cases [of lib cfg lmt c env w])
    case (1 b)
    with messages_Dequeue [OF q, of "t_dequeue env" c c'] show ?thesis by simp
  next
    case (2 m r res w1)
    have r: "queue_ok r" "messages r c' = messages (wredis w) c'"
      using queue_ok_Dequeue [OF q, of "t_dequeue env" c] messages_Dequeue [OF q, of "t_dequeue env" c c'] 2(1)
      by simp_all
    have w1: "world_ok (w\<lparr>wredis := r\<rparr>)" using w r(1) by (rule world_ok_redis)
    let ?w' = "snd (worker_tick lib cfg lmt c env w)"
    have "wdb ?w' = wdb w1" using 2(3) by (simp split: go.split)
    moreover have "messages (wredis ?w') c' \<subseteq> messages (wredis w1) c'"
      using 2(3) messages_Acknowledge by (auto split: go.split)
    moreover have "messages (wredis w1) c' \<subseteq> messages r c' \<union>
        {queue_message lib n |n k. row (wdb w) k = Some n \<and> NChannel n = c'}"
      using Process_messages [OF w1 2(2), of c'] by simp
    moreover have "wdb w1 = wdb w \<or> (\<exists>k n. row (wdb w) k = Some n \<and> \<not> Status_IsFinal (NStatus n) \<and>
          only_touches k w w1)"
      using Process_effect [OF w1 2(2)] by (auto simp: only_touches_def)
    ultimately show ?thesis
      using r(2) by (auto simp: only_touches_def)
  qed
  then show "messages (wredis (snd (worker_tick lib cfg lmt c env w))) c' \<subseteq>
       messages (wredis w) c' \<union> {queue_message lib n |n k. row (wdb w) k = Some n \<and> NChannel n = c'}"
    and "wdb (snd (worker_tick lib cfg lmt c env w)) = wdb w \<or>
       (\<exists>k n. row (wdb w) k = Some n \<and> \<not> Status_IsFinal (NStatus n) \<and>
          only_touches k w (snd (worker_tick lib cfg lmt c env w)))" by simp_all
qed


definition sample_tick :: Tick_Env where
  "sample_tick = \<lparr>t_dequeue = None, t_cancelled = False, t_process = sample_env (Inl provider_error),
     t_members = None, t_remove = None\<rparr>"


end
