(* ===== verification/Template_Outcomes.thy ===== *)
theory Template_Outcomes
  imports Notification_Outcomes
begin

text \<open>
  What the template service achieves: names stay unique and contents parseable, the outcome of
  \<open>Render\<close>, and that \<open>Preview\<close> shows what \<open>Create\<close> stores.
\<close>

section \<open>What the operations store\<close>

definition parses :: "'t template_engine \<Rightarrow> string \<Rightarrow> bool" where
  "parses eng s \<longleftrightarrow> (case tpl_Parse eng s of Inl _ \<Rightarrow> False | Inr _ \<Rightarrow> True)"

lemma exec_state:
  "snd (exec f stmt s) = s \<or> (\<exists>a. stmt s = Inr (a, snd (exec f stmt s)))"
  by (cases rule: exec_cases [of f stmt s]) auto

lemma trepo_Create_state:
  "snd (trepo_Create f t d) = d \<or> insert_template t d = Inr ((), snd (trepo_Create f t d))"
  using exec_state [of f "insert_template t" d] by (simp add: trepo_Create_def split_beta)

lemma trepo_Update_state:
  "snd (snd (trepo_Update f now t d)) = d \<or>
     update_template (t\<lparr>TUpdatedAt := now\<rparr>) d = Inr ((), snd (snd (trepo_Update f now t d)))"
  using exec_state [of f "update_template (t\<lparr>TUpdatedAt := now\<rparr>)" d]
  by (simp add: trepo_Update_def Let_def split_beta)

lemma tsvc_Create_state:
  obtains "snd (tsvc_Create eng f uid now req d) = d"
  | t where "insert_template t d = Inr ((), snd (tsvc_Create eng f uid now req d))"
      "parses eng (TContent t)" "TContent t = CtContent req"
proof (cases "Channel_IsValid (CtChannel req) \<and> parses eng (CtContent req)")
  case True
  define t where "t = (case CtVariables req of
      None \<Rightarrow> (NewTemplate uid now (CtName req) (CtChannel req) (CtContent req))\<lparr>TSubject := CtSubject req\<rparr>
    | Some vs \<Rightarrow> (NewTemplate uid now (CtName req) (CtChannel req) (CtContent req))
        \<lparr>TSubject := CtSubject req, Variables := vs\<rparr>)"
  have t: "TContent t = CtContent req"
    by (simp add: t_def NewTemplate_def split: option.split)
  have "snd (tsvc_Create eng f uid now req d) = snd (trepo_Create f t d)"
    using True by (auto simp: tsvc_Create_def parses_def t_def Let_def split: sum.split prod.split option.split)
  with trepo_Create_state [of f t d] t True that show ?thesis by metis
next
  case False
  then have "snd (tsvc_Create eng f uid now req d) = d"
    by (auto simp: tsvc_Create_def parses_def Let_def split: sum.split)
  then show ?thesis by (rule that(1))
qed

lemma apply_steps:
  "apply_channel req t = Inr u \<Longrightarrow> TID u = TID t \<and> TContent u = TContent t"
  "apply_content eng req t = Inr u \<Longrightarrow> TID u = TID t \<and> (TContent u = TContent t \<or> parses eng (TContent u))"
  "TID (apply_name req t) = TID t" "TContent (apply_name req t) = TContent t"
  "TID (apply_subject req t) = TID t" "TContent (apply_subject req t) = TContent t"
  "TID (apply_variables req t) = TID t" "TContent (apply_variables req t) = TContent t"
  by (auto simp: apply_channel_def apply_content_def apply_name_def apply_subject_def
      apply_variables_def parses_def split: option.splits if_splits sum.splits)

lemma tsvc_Update_state:
  obtains "snd (tsvc_Update eng f1 f2 now k req d) = d"
  | r t where "template_row d (TID t) = Some r"
      "update_template t d = Inr ((), snd (tsvc_Update eng f1 f2 now k req d))"
      "TContent t = TContent r \<or> parses eng (TContent t)"
proof (cases "trepo_GetByID f1 k d")
  case (Inl e)
  then show ?thesis by (intro that(1)) (simp add: tsvc_Update_def)
next
  case g: (Inr r)
  then have r: "template_row d k = Some r"
    by (auto simp: trepo_GetByID_def dest!: query_Inr split: sum.splits option.splits)
  show ?thesis
  proof (cases "apply_channel req (apply_name req r)")
    case (Inl e)
    with g show ?thesis by (intro that(1)) (simp add: tsvc_Update_def)
  next
    case c: (Inr u)
    show ?thesis
    proof (cases "apply_content eng req (apply_subject req u)")
      case (Inl e)
      with g c show ?thesis by (intro that(1)) (simp add: tsvc_Update_def)
    next
      case v: (Inr v)
      let ?t = "(apply_variables req v)\<lparr>TUpdatedAt := now\<rparr>"
      have "snd (tsvc_Update eng f1 f2 now k req d) = snd (snd (trepo_Update f2 now (apply_variables req v) d))"
        using g c v by (simp add: tsvc_Update_def split: prod.split option.split)
      moreover have "TID ?t = k" "TContent ?t = TContent r \<or> parses eng (TContent ?t)"
        using apply_steps(1) [OF c] apply_steps(2) [OF v] template_row_ID [OF r]
        by (auto simp: apply_steps)
      ultimately show ?thesis
        using trepo_Update_state [of f2 now "apply_variables req v" d] r that by metis
    qed
  qed
qed

section \<open>Names and contents\<close>

definition contents_parse :: "'t template_engine \<Rightarrow> db \<Rightarrow> bool" where
  "contents_parse eng d \<longleftrightarrow> list_all (\<lambda>t. parses eng (TContent t)) (templates d)"

definition tsvc_ok :: "'t template_engine \<Rightarrow> db \<Rightarrow> bool" where
  "tsvc_ok eng d \<longleftrightarrow> db_ok d \<and> names_ok d \<and> contents_parse eng d"

lemma tsvc_okD: "tsvc_ok eng d \<Longrightarrow> db_ok d" "tsvc_ok eng d \<Longrightarrow> names_ok d"
  "tsvc_ok eng d \<Longrightarrow> contents_parse eng d"
  by (simp_all add: tsvc_ok_def)

text \<open>\<open>db_ok\<close> and \<open>names_ok\<close> from what the statements on the table keep.\<close>

lemma db_ok_templates:
  assumes "db_ok d" "template_db_ok d'" "notifications d' = notifications d"
    "delivery_attempts d' = delivery_attempts d" "dead_letter_queue d' = dead_letter_queue d"
  shows "db_ok d' \<and> names_ok d'"
  using assms by (simp add: db_ok_def template_db_ok_def audit_ok_def notification_exists_def)

lemma insert_template_tables:
  "insert_template t d = Inr (u, d') \<Longrightarrow>
     d' = d\<lparr>templates := templates d @ [stored_template t]\<rparr>"
  by (auto simp: insert_template_def split: if_splits)

lemma tsvc_Create_keeps [keeps]:
  assumes "tsvc_ok eng d"
  shows "tsvc_ok eng (snd (tsvc_Create eng f uid now req d))"
proof (cases rule: tsvc_Create_state [of eng f uid now req d])
  case (2 t)
  let ?d = "snd (tsvc_Create eng f uid now req d)"
  have "template_db_ok ?d"
    by (rule insert_template_db_ok [OF _ 2(1)])
       (use assms in \<open>simp add: tsvc_ok_def db_ok_def template_db_ok_def\<close>)
  moreover have d: "?d = d\<lparr>templates := templates d @ [stored_template t]\<rparr>"
    by (rule insert_template_tables [OF 2(1)])
  ultimately have "db_ok ?d \<and> names_ok ?d"
    by (intro db_ok_templates [OF tsvc_okD(1) [OF assms]]) simp_all
  moreover have "contents_parse eng ?d"
    using assms 2(2) d by (simp add: tsvc_ok_def contents_parse_def stored_template_def)
  ultimately show ?thesis by (simp add: tsvc_ok_def)
qed (use assms in simp)

lemma change_templates_tables [simp]:
  "notifications (change_templates P g d) = notifications d"
  "delivery_attempts (change_templates P g d) = delivery_attempts d"
  "dead_letter_queue (change_templates P g d) = dead_letter_queue d"
  by (simp_all add: change_templates_def)

lemma tsvc_Update_keeps [keeps]:
  assumes "tsvc_ok eng d"
  shows "tsvc_ok eng (snd (tsvc_Update eng f1 f2 now k req d))"
proof (cases rule: tsvc_Update_state [of eng f1 f2 now k req d])
  case (2 r t)
  let ?d = "snd (tsvc_Update eng f1 f2 now k req d)"
  have "template_db_ok ?d"
    by (rule update_template_db_ok [OF _ 2(2)])
       (use assms in \<open>simp add: tsvc_ok_def db_ok_def template_db_ok_def\<close>)
  moreover have d: "?d = change_templates (\<lambda>r. TID r = TID t) (updated_template t) d"
    by (rule update_template_Inr(1) [OF 2(2)])
  ultimately have "db_ok ?d \<and> names_ok ?d"
    by (intro db_ok_templates [OF tsvc_okD(1) [OF assms]]) simp_all
  moreover have "parses eng (TContent t)"
    using 2(1,3) assms by (auto simp: tsvc_ok_def contents_parse_def list_all_iff template_row_def dest: by_key_SomeD)
  then have "contents_parse eng ?d"
    using assms d by (auto simp: tsvc_ok_def contents_parse_def list_all_iff change_templates_def updated_template_def)
  ultimately show ?thesis by (simp add: tsvc_ok_def)
qed (use assms in simp)

lemma trepo_Delete_keeps [keeps]:
  assumes "tsvc_ok eng d"
  shows "tsvc_ok eng (snd (trepo_Delete f now k d))"
proof -
  let ?d = "change_templates (\<lambda>r. TID r = k) (deactivate now) d"
  have "template_db_ok ?d"
    by (rule deactivate_db_ok) (use assms in \<open>simp add: tsvc_ok_def db_ok_def template_db_ok_def\<close>)
  then have "db_ok ?d \<and> names_ok ?d"
    by (intro db_ok_templates [OF tsvc_okD(1) [OF assms]]) simp_all
  moreover have "contents_parse eng ?d"
    using assms by (auto simp: tsvc_ok_def contents_parse_def list_all_iff change_templates_def deactivate_def)
  ultimately have "tsvc_ok eng ?d" by (simp add: tsvc_ok_def)
  with assms show ?thesis
    unfolding trepo_Delete_def split_beta snd_conv
    by (intro exec_keeps [where I = "tsvc_ok eng"]) auto
qed


section \<open>Rendering\<close>

text \<open>The value a variable gets that the caller does not give.\<close>

definition var_default :: "TemplateVariable list \<Rightarrow> string \<Rightarrow> json option" where
  "var_default vs x =
     (case find (\<lambda>v. VName v = x) vs of None \<Rightarrow> None | Some v \<Rightarrow> map_option JString (Default v))"

definition with_defaults :: "TemplateVariable list \<Rightarrow> (string \<times> json) list \<Rightarrow> string \<Rightarrow> json option" where
  "with_defaults vs m x = (case map_of m x of Some y \<Rightarrow> Some y | None \<Rightarrow> var_default vs x)"

definition missing_var :: "(string \<times> json) list \<Rightarrow> TemplateVariable \<Rightarrow> bool" where
  "missing_var m v \<longleftrightarrow> Required v \<and> map_of m (VName v) = None"

lemma var_default_notin: "x \<notin> VName ` set vs \<Longrightarrow> var_default vs x = None"
  using find_None_iff_notin [of VName x vs] by (simp add: var_default_def)

lemma fill_vars_outcome:
  assumes "distinct (map VName vs)" "fill_vars vs m = (e, m')"
  shows "(case e of
      None \<Rightarrow> (\<forall>v\<in>set vs. \<not> missing_var m v) \<and> (\<forall>x. map_of m' x = with_defaults vs m x)
    | Some err \<Rightarrow> \<exists>v\<in>set vs. missing_var m v \<and>
        err = Wrap [] (Sentinel ErrMissingTemplateVars) ('': '' @ VName v))"
  using assms
proof (induction vs arbitrary: m)
  case Nil
  then show ?case by (auto simp: with_defaults_def var_default_def split: option.split)
next
  case (Cons v vs)
  show ?case
  proof (cases "missing_var m v")
    case True
    with Cons.prems show ?thesis by (auto simp: missing_var_def)
  next
    case ok: False
    define m1 where "m1 = (if map_of m (VName v) = None then
        (case Default v of None \<Rightarrow> m | Some s \<Rightarrow> AList.update (VName v) (JString s) m) else m)"
    have f: "fill_vars vs m1 = (e, m')"
      using Cons.prems(2) ok by (auto simp: m1_def missing_var_def split: option.splits)
    have m1: "map_of m1 x = map_of m x" if "x \<noteq> VName v" for x
      using that by (simp add: m1_def update_conv' split: option.split)
    have same: "missing_var m1 u = missing_var m u" if "u \<in> set vs" for u
    proof -
      have "VName u \<in> VName ` set vs" using that by (rule imageI)
      moreover have "VName v \<notin> VName ` set vs" using Cons.prems(1) by simp
      ultimately have "VName u \<noteq> VName v" by metis
      then show ?thesis by (simp add: missing_var_def m1)
    qed
    have "with_defaults vs m1 x = with_defaults (v # vs) m x" for x
    proof (cases "x = VName v")
      case True
      then have "var_default vs x = None" using Cons.prems(1) by (auto intro: var_default_notin)
      with True show ?thesis
        by (auto simp: with_defaults_def var_default_def m1_def update_conv' split: option.split)
    next
      case False
      then have "VName v \<noteq> x" by simp
      then show ?thesis using m1 [OF False]
        by (simp add: with_defaults_def var_default_def split: option.split)
    qed
    with Cons.IH [OF _ f] Cons.prems(1) ok same show ?thesis
      by (cases e) auto
  qed
qed


text \<open>
  C30. What \<open>Preview\<close> shows is what \<open>Create\<close> stores: a notification created from the same
  template and the same variables has the content and, if there is one, the subject of the
  preview.
\<close>

theorem preview_is_created:
  assumes w: "world_ok w" and p: "Preview eng f tid vars (wdb w) = Inr (subject, content)"
    and c: "Create lib (Some eng) env req w = (Inr n, w')" "row (wdb w) (ID n) = None"
    and req: "CnTemplateID req = Some tid" "CnTemplateVars req = vars"
  shows "Content n = content \<and> (subject \<noteq> [] \<longrightarrow> Subject n = subject) \<and>
    (\<exists>r. row (wdb w') (ID n) = Some r \<and> Content r = content)"
proof (cases rule: Create_cases [of lib "Some eng" env req w])
  case (2 m)
  with c row_in [OF world_ok_notifications [OF w]] show ?thesis by simp
next
  case (4 q d m w1)
  obtain tmpl where t: "template_row (wdb w) tid = Some tmpl" "Active tmpl"
      "fst (Render eng tmpl vars) = Inr (subject, content)"
    using p by (auto simp: Preview_def trepo_GetByID_def query_def split: option.splits sum.splits if_splits)
  obtain vars' where r: "Render eng tmpl vars = (Inr (subject, content), vars')"
    using t(3) by (metis prod.collapse)
  have "render_request (Some eng) (c_template env) req (wdb w) = Inr q"
    using 4(1) by (simp add: accepted_request_def)
  then have q: "CnContent q = content" "subject \<noteq> [] \<longrightarrow> CnSubject q = subject"
    using t r req by (auto simp: render_request_def trepo_GetByID_def query_def Let_def split: option.splits if_splits)
  note i = conjunct2 [OF repo_Create_stored [OF 4(2)]]
  have "row (wdb (w\<lparr>wdb := d\<rparr>)) (ID (requested env q)) = Some (inserted (requested env q))"
    using insert_row_row [OF i] by simp
  then have "ID m = ID (requested env q) \<and> Content m = Content (requested env q) \<and>
      Subject m = Subject (requested env q) \<and>
      (\<exists>r. row (wdb w1) (ID (requested env q)) = Some r \<and> Content r = Content (requested env q))"
    using 4(3) by (auto simp: enqueue_created_def UpdateStatus_state row_change split_beta Let_def split: if_splits)
  moreover have "Subject (requested env q) = CnSubject q"
    by (simp add: requested_def Let_def split: option.split)
  ultimately show ?thesis using c 4(4) q by auto
qed (use c in simp_all)


section \<open>A sample template\<close>

text \<open>An engine whose templates are the name of the variable they show.\<close>

definition sample_engine :: "string template_engine" where
  "sample_engine = \<lparr>tpl_Parse = Inr,
     tpl_Execute = (\<lambda>t m. case map_of m t of Some (JString s) \<Rightarrow> Inr s | _ \<Rightarrow> Inr ''<no value>'')\<rparr>"

definition sample_template :: Template where
  "sample_template =
     (NewTemplate 50 4000 ''welcome'' ChannelSMS ''greeting'')\<lparr>Variables :=
        [\<lparr>VName = ''name'', Required = True, Default = None\<rparr>,
         \<lparr>VName = ''greeting'', Required = False, Default = Some ''Hello''\<rparr>]\<rparr>"

lemma sample_template_fields [simp]:
  "Variables sample_template = [\<lparr>VName = ''name'', Required = True, Default = None\<rparr>,
         \<lparr>VName = ''greeting'', Required = False, Default = Some ''Hello''\<rparr>]"
  "TSubject sample_template = []" "TContent sample_template = ''greeting''"
  by (simp_all add: sample_template_def NewTemplate_def)


definition template_world :: world where
  "template_world = start_world\<lparr>wdb := (wdb start_world)\<lparr>templates := [sample_template]\<rparr>\<rparr>"

lemma template_world_ok: "world_ok template_world"
proof -
  have "notifications_ok (wdb template_world)" "templates_ok (wdb template_world)" by code_simp+
  moreover have "audit_ok (wdb template_world)" by code_simp
  ultimately show ?thesis
    by (simp add: world_ok_def db_ok_def) (simp add: template_world_def sample_world_def)
qed

definition templated_request :: CreateNotificationRequest where
  "templated_request = (sample_request [])\<lparr>CnTemplateID := Some 50,
     CnTemplateVars := Some [(''name'', JString ''Ada'')]\<rparr>"

theorem preview_is_created_witness:
  "\<exists>n w. Create sample_lib (Some sample_engine) (sample_create 9) templated_request template_world = (Inr n, w) \<and>
     Preview sample_engine None 50 (Some [(''name'', JString ''Ada'')]) (wdb template_world) = Inr ([], ''Hello'') \<and>
     Content n = ''Hello''"
proof -
  have "map_option ID (case fst (Create sample_lib (Some sample_engine) (sample_create 9) templated_request template_world) of
      Inl _ \<Rightarrow> None | Inr n \<Rightarrow> Some n) = Some 9" by code_simp
  then obtain n w where c: "Create sample_lib (Some sample_engine) (sample_create 9) templated_request template_world = (Inr n, w)"
      "ID n = 9"
    by (cases "Create sample_lib (Some sample_engine) (sample_create 9) templated_request template_world")
       (auto split: sum.splits)
  have p: "Preview sample_engine None 50 (Some [(''name'', JString ''Ada'')]) (wdb template_world) = Inr ([], ''Hello'')"
    by code_simp
  have "row (wdb template_world) 9 = None" by code_simp
  then have "Content n = ''Hello''"
    using preview_is_created [OF template_world_ok p c(1)] c(2) by (simp add: templated_request_def)
  with c p show ?thesis by auto
qed

end
