(* ===== verification/System.thy ===== *)
theory System
  imports Worker Template_Outcomes
begin

text \<open>
  The programs together: the requests of the API, the workers of the three channels, the
  scheduler and the retry poller act on one database and one Redis, in any order and with any
  faults. Each action is one step of a relation, a worker's round among them; \<open>Interleaving\<close>
  breaks the rounds up and proves what holds in every state that is reached.
\<close>

section \<open>Steps\<close>

definition start :: world where
  "start = \<lparr>wdb = empty_db, wredis = redis_empty, wbreakers = new_breakers, wevents = [], wsent = []\<rparr>"

text \<open>
  A worker that dies between taking a message and processing it leaves the message in flight;
  the program then starts with fresh breakers.
\<close>

inductive step ::
    "uuid_lib \<Rightarrow> 't template_engine \<Rightarrow> DeliveryConfig \<Rightarrow> Limiter \<Rightarrow> world \<Rightarrow> world \<Rightarrow> bool"
    for lib eng cfg lmt where
  create: "step lib eng cfg lmt w (snd (Create lib (Some eng) cenv req w))"
| create_batch: "step lib eng cfg lmt w (snd (CreateBatch lib benv reqs w))"
| cancel: "step lib eng cfg lmt w (snd (Cancel lib kenv k w))"
| cancel_batch: "step lib eng cfg lmt w (snd (CancelBatch f now b w))"
| template_create: "step lib eng cfg lmt w (w\<lparr>wdb := snd (tsvc_Create eng f uid now treq (wdb w))\<rparr>)"
| template_update: "step lib eng cfg lmt w (w\<lparr>wdb := snd (tsvc_Update eng f f' now k ureq (wdb w))\<rparr>)"
| template_delete: "step lib eng cfg lmt w (w\<lparr>wdb := snd (trepo_Delete f now k (wdb w))\<rparr>)"
| worker: "c \<in> {ChannelSMS, ChannelEmail, ChannelPush} \<Longrightarrow>
    step lib eng cfg lmt w (snd (worker_tick lib cfg lmt c tenv w))"
| schedule: "step lib eng cfg lmt w (scheduler_poll lib penv w)"
| retry: "step lib eng cfg lmt w (retry_poll lib penv w)"
| crash: "step lib eng cfg lmt w
    (w\<lparr>wredis := snd (Dequeue f c (wredis w)), wbreakers := new_breakers\<rparr>)"

inductive_cases stepE: "step lib eng cfg lmt w w'"

section \<open>Invariants of every step\<close>

definition system_ok :: "'t template_engine \<Rightarrow> world \<Rightarrow> bool" where
  "system_ok eng w \<longleftrightarrow> world_ok w \<and> tsvc_ok eng (wdb w)"

lemma tsvc_ok_same_templates:
  "tsvc_ok eng d \<Longrightarrow> db_ok d' \<Longrightarrow> templates d' = templates d \<Longrightarrow> tsvc_ok eng d'"
  by (simp add: tsvc_ok_def names_ok_def contents_parse_def)

lemma system_ok_tsvc:
  "system_ok eng w \<Longrightarrow> tsvc_ok eng d \<Longrightarrow> system_ok eng (w\<lparr>wdb := d\<rparr>)"
  by (auto simp: system_ok_def world_ok_def tsvc_ok_def)

lemma system_ok_same_templates:
  "system_ok eng w \<Longrightarrow> world_ok w' \<Longrightarrow> templates (wdb w') = templates (wdb w) \<Longrightarrow> system_ok eng w'"
  using tsvc_ok_same_templates [of eng "wdb w" "wdb w'"] by (simp add: system_ok_def world_ok_def)

text \<open>The notifications' operations leave the templates alone.\<close>

lemma exec_templates:
  "(\<And>a s'. stmt s = Inr (a, s') \<Longrightarrow> templates s' = templates s) \<Longrightarrow>
     templates (snd (exec f stmt s)) = templates s"
  by (rule exec_keeps [where I = "\<lambda>d. templates d = templates s"]) simp_all

lemma repo_templates [simp]:
  "templates (snd (repo_Create f n d)) = templates d"
  "templates (snd (repo_UpdateStatus f now k st d)) = templates d"
  "templates (snd (repo_CancelByBatchID f now k d)) = templates d"
  "templates (snd (repo_GetScheduledReady f now l i d)) = templates d"
  "templates (snd (repo_GetRetryReady f now l i d)) = templates d"
  unfolding repo_Create_def repo_UpdateStatus_def repo_CancelByBatchID_def
    GetScheduledReady_exec GetRetryReady_exec split_beta snd_conv
  by (rule exec_templates; auto simp: cancel_where_def claim_def Let_def
      dest: insert_notification_Inr(3) split: if_splits)+

lemma repo_CreateBatch_templates [simp]:
  "templates (snd (repo_CreateBatch f1 f2 f3 ns d)) = templates d"
  using insert_all_rows [of ns d]
  by (auto simp: repo_CreateBatch_def exec_def split: option.split sum.split)

lemma repo_CancelByID_templates [simp]:
  "templates (snd (repo_CancelByID f1 f2 now k d)) = templates d"
  using exec_templates [of "cancel_where (\<lambda>r. ID r = k) now" d f1]
  by (simp add: repo_CancelByID_def cancel_where_def Let_def split_beta split: sum.split)

lemma enqueue_created_templates [simp]:
  "templates (wdb (snd (enqueue_created lib env n w))) = templates (wdb w)"
  by (simp add: enqueue_created_def Let_def split_beta)

lemma Create_templates [simp]:
  "templates (wdb (snd (Create lib svc env req w))) = templates (wdb w)"
proof (cases rule: Create_cases [of lib svc env req w])
  case (3 q e d)
  with repo_templates(1) [of "c_insert env" "requested env q" "wdb w"] show ?thesis by simp
next
  case (4 q d n w')
  with repo_templates(1) [of "c_insert env" "requested env q" "wdb w"]
    enqueue_created_templates [of lib env "requested env q" "w\<lparr>wdb := d\<rparr>"]
  show ?thesis by simp
qed simp_all

lemma CreateBatch_templates [simp]:
  "templates (wdb (snd (CreateBatch lib env reqs w))) = templates (wdb w)"
  by (simp add: CreateBatch_def Let_def split_beta split: option.split)

lemma Cancel_templates [simp]:
  "templates (wdb (snd (Cancel lib env k w))) = templates (wdb w)"
  "templates (wdb (snd (CancelBatch f now b w))) = templates (wdb w)"
  by (simp_all add: Cancel_def CancelBatch_def split_beta split: option.split sum.split)

lemma poll_templates [simp]:
  "templates (wdb (scheduler_poll lib env w)) = templates (wdb w)"
  "templates (wdb (retry_poll lib env w)) = templates (wdb w)"
  by (simp_all add: scheduler_poll_def retry_poll_def enqueue_claimed_def Let_def split_beta
      split: sum.split)

lemma worker_templates:
  "world_ok w \<Longrightarrow> templates (wdb (snd (worker_tick lib cfg lmt c env w))) = templates (wdb w)"
  using worker_tick_effect(2) [of w lib cfg lmt c env] by (auto simp: only_touches_def)

lemma step_ok:
  assumes "system_ok eng w" "step lib eng cfg lmt w w'"
  shows "system_ok eng w'"
proof -
  have t: "tsvc_ok eng (wdb w)" and w: "world_ok w" using assms(1) by (simp_all add: system_ok_def)
  show ?thesis
    using assms(2)
  proof cases
    case (worker c tenv)
    show ?thesis
      unfolding worker(1)
      by (rule system_ok_same_templates [OF assms(1) conjunct1 [OF worker_tick_ok [OF w]] worker_templates [OF w]])
  next
    case (crash f c)
    have "world_ok w'"
      using assms(1) queue_ok_Dequeue [of "wredis w" f c]
      by (simp add: crash system_ok_def world_ok_def)
    then show ?thesis by (rule system_ok_same_templates [OF assms(1)]) (simp add: crash)
  next
    case template_create
    then show ?thesis using system_ok_tsvc [OF assms(1)] tsvc_Create_keeps [OF t] by simp
  next
    case template_update
    then show ?thesis using system_ok_tsvc [OF assms(1)] tsvc_Update_keeps [OF t] by simp
  next
    case template_delete
    then show ?thesis using system_ok_tsvc [OF assms(1)] trepo_Delete_keeps [OF t] by simp
  qed (auto intro!: system_ok_same_templates [OF assms(1)] keeps simp: w)
qed


section \<open>What a step does to the rows and the messages\<close>

text \<open>
  A row keeps its identity; a final row is left alone but for a failed one that has retries
  left, which becomes queued again and nothing else.
\<close>

definition lawful_row :: "Notification \<Rightarrow> Notification \<Rightarrow> bool" where
  "lawful_row n n' \<longleftrightarrow> identity n' = identity n \<and>
     (Status_IsFinal (NStatus n) \<longrightarrow> n' = n \<or>
        (NStatus n = StatusFailed \<and> RetryCount n < MaxRetries n \<and>
         (\<exists>t. n' = set_status StatusQueued t n)))"

definition lawful_rows :: "db \<Rightarrow> db \<Rightarrow> bool" where
  "lawful_rows d d' \<longleftrightarrow>
     (\<forall>k n. row d k = Some n \<longrightarrow> (\<exists>n'. row d' k = Some n' \<and> lawful_row n n'))"

definition lawful :: "uuid_lib \<Rightarrow> world \<Rightarrow> world \<Rightarrow> bool" where
  "lawful lib w w' \<longleftrightarrow> lawful_rows (wdb w) (wdb w') \<and>
     (\<forall>c. messages (wredis w') c \<subseteq> messages (wredis w) c \<union>
        {queue_message lib n |n k. row (wdb w') k = Some n \<and> NChannel n = c})"

lemma lawful_row_refl [simp]: "lawful_row n n"
  by (simp add: lawful_row_def)

lemma lawful_rows_refl [simp]: "lawful_rows d d"
  by (simp add: lawful_rows_def)

lemma lawful_rows_change:
  assumes "legal_change g" "\<And>n. n \<in> set (notifications d) \<Longrightarrow> P n \<Longrightarrow> lawful_row n (g n)"
  shows "lawful_rows d (change_rows P g d)"
  using assms row_mem [of d] by (auto simp: lawful_rows_def row_change)

lemma lawful_rows_grow: "(\<And>k n. row d k = Some n \<Longrightarrow> row d' k = Some n) \<Longrightarrow> lawful_rows d d'"
  by (auto simp: lawful_rows_def)

lemma lawful_rows_insert: "insert_notification n d = Inr (u, d') \<Longrightarrow> lawful_rows d d'"
  using insert_row_row [of n d u d'] insert_notification_Inr(2) [of n d u d']
  by (intro lawful_rows_grow) auto

lemma lawful_set_status:
  "\<not> Status_IsFinal (NStatus n) \<Longrightarrow> lawful_row n (set_status st t n)"
  by (simp add: lawful_row_def)

lemma lawful_rows_exec:
  "(\<And>a s'. stmt s = Inr (a, s') \<Longrightarrow> lawful_rows s s') \<Longrightarrow> lawful_rows s (snd (exec f stmt s))"
  by (rule exec_keeps [where I = "lawful_rows s"]) simp_all


lemma queue_message_identity:
  "identity n = identity m \<Longrightarrow> queue_message lib n = queue_message lib m"
  using identityD [of n m] by (simp add: queue_message_def)

lemma lawful_rows_message:
  assumes "lawful_rows d d'" "row d k = Some n"
  shows "\<exists>m. row d' k = Some m \<and> queue_message lib n = queue_message lib m \<and> NChannel m = NChannel n"
proof -
  obtain m where m: "row d' k = Some m" "identity m = identity n"
    using assms unfolding lawful_rows_def lawful_row_def by blast
  with queue_message_identity [OF m(2)] identityD(2) [OF m(2)] show ?thesis by auto
qed

lemma queue_message_inserted [simp]:
  "queue_message lib (inserted n) = queue_message lib n"
  "queue_message lib (set_status st t n) = queue_message lib n"
  by (simp_all add: queue_message_def)

lemma lawful_rows_only: "only_touches k w w' \<Longrightarrow> row (wdb w) k = Some n \<Longrightarrow>
    \<not> Status_IsFinal (NStatus n) \<Longrightarrow> lawful_rows (wdb w) (wdb w')"
  unfolding lawful_rows_def
proof (intro allI impI)
  fix j m
  assume a: "only_touches k w w'" "row (wdb w) k = Some n" "\<not> Status_IsFinal (NStatus n)" "row (wdb w) j = Some m"
  then obtain m' where m': "row (wdb w') j = Some m'" "identity m' = identity m"
    unfolding only_touches_def by (metis map_option_eq_Some option.simps(9))
  show "\<exists>n'. row (wdb w') j = Some n' \<and> lawful_row m n'"
  proof (cases "j = k")
    case True
    with a m' show ?thesis by (auto simp: lawful_row_def)
  next
    case False
    with a m' show ?thesis by (auto simp: only_touches_def lawful_row_def)
  qed
qed

section \<open>Every step is lawful\<close>

lemma lawful_Create:
  assumes w: "world_ok w"
  shows "lawful lib w (snd (Create lib svc env req w))"
proof (cases rule: Create_cases [of lib svc env req w])
  case (3 q e d)
  have "d = snd (repo_Create (c_insert env) (requested env q) (wdb w))" using 3(2) by simp
  then have "lawful_rows (wdb w) d"
    unfolding repo_Create_def split_beta snd_conv
    by (metis lawful_rows_exec lawful_rows_insert)
  with 3(3) show ?thesis by (auto simp: lawful_def)
next
  case (4 q d n w')
  let ?n = "requested env q"
  note i = conjunct2 [OF repo_Create_stored [OF 4(2)]]
  have q: "queue_ok (wredis w)" using w by (simp add: world_ok_def)
  have rows: "row d = (row (wdb w))(c_id env \<mapsto> inserted ?n)" "row (wdb w) (c_id env) = None"
    using insert_row_row [OF i] insert_notification_Inr(2) [OF i] by simp_all
  show ?thesis
  proof (cases "NStatus ?n = StatusPending")
    case True
    let ?d = "if executed (c_queued env)
       then change_rows (\<lambda>r. ID r = c_id env) (set_status StatusQueued (c_queued_at env)) d else d"
    have w': "wdb w' = ?d" "wredis w' = snd (Enqueue (c_enqueue env) (c_enqueued env) (queue_message lib ?n) (wredis w))"
      using 4(3) by (auto simp: enqueue_created_pending [OF True] Enqueue_state simp del: requested_sim(7))
    have other: "row ?d k = row (wdb w) k" if "k \<noteq> c_id env" for k
      using that rows row_ID [of d k] by (cases "row d k") (auto simp: row_change)
    have A: "lawful_rows (wdb w) (wdb w')"
      unfolding w'(1) by (rule lawful_rows_grow) (metis other rows(2) option.distinct(1))
    have "\<exists>r. row ?d (c_id env) = Some r \<and> queue_message lib r = queue_message lib ?n \<and>
        NChannel r = NChannel ?n"
      using rows by (cases "executed (c_queued env)") (auto simp: row_change)
    then obtain r where r: "row (wdb w') (c_id env) = Some r" "queue_message lib ?n = queue_message lib r"
        "NChannel r = NChannel ?n" unfolding w'(1) by metis
    have B: "messages (wredis w') c \<subseteq> messages (wredis w) c \<union>
        {queue_message lib n |n k. row (wdb w') k = Some n \<and> NChannel n = c}" for c
    proof -
      have "messages (wredis w') c \<subseteq> messages (wredis w) c \<union> (if c = NChannel ?n then {queue_message lib r} else {})"
        using messages_Enqueue [OF q, of "c_enqueue env" "c_enqueued env" "queue_message lib ?n" c] w'(2) r(2,3)
        by (cases "c = CnChannel q") simp_all
      with r show ?thesis by (auto split: if_splits)
    qed
    from A B have "lawful lib w w'" by (simp add: lawful_def)
    with 4(4) show ?thesis by (simp add: lawful_def)
  next
    case False
    then have "w' = w\<lparr>wdb := d\<rparr>" using 4(3) by (auto simp: enqueue_created_def)
    with 4(4) lawful_rows_insert [OF i] show ?thesis by (auto simp: lawful_def)
  qed
qed (auto simp: lawful_def)

lemma lawful_cancel_where:
  "cancel_where P now d = Inr (a, d') \<Longrightarrow> lawful_rows d d'"
  by (auto simp: cancel_where_def Let_def Status_IsFinal_def intro!: lawful_rows_change lawful_set_status)

lemma lawful_Cancel:
  "lawful lib w (snd (Cancel lib env k w))" "lawful lib w (snd (CancelBatch f now b w))"
proof -
  have "lawful_rows (wdb w) (snd (exec f (cancel_where P t) (wdb w)))" for f P t
    by (rule lawful_rows_exec) (rule lawful_cancel_where)
  then show "lawful lib w (snd (Cancel lib env k w))" "lawful lib w (snd (CancelBatch f now b w))"
    by (auto simp: lawful_def Cancel_def CancelBatch_def repo_CancelByID_def repo_CancelByBatchID_def
        split_beta Let_def split: sum.split option.split)
qed

lemma lawful_claim:
  assumes "notifications_ok d" "claim P due now locked l d = Inr (ns, d')"
    and P: "\<And>n. P n \<Longrightarrow> NStatus n = StatusScheduled \<or> (NStatus n = StatusFailed \<and> RetryCount n < MaxRetries n)"
  shows "lawful_rows d d'"
  unfolding lawful_rows_def
proof (intro allI impI)
  fix k n
  assume n: "row d k = Some n"
  show "\<exists>n'. row d' k = Some n' \<and> lawful_row n n'"
  proof (cases "k \<in> set (map ID ns)")
    case True
    then obtain m where "m \<in> set ns" "ID m = k" by auto
    with claim_returns [OF assms(1,2)] n have "P n" by force
    with P [of n] claim_row [OF assms(2), of k] True n show ?thesis
      by (auto simp: lawful_row_def Status_IsFinal_def)
  next
    case False
    with claim_row [OF assms(2), of k] n show ?thesis by simp
  qed
qed

lemma messages_EnqueueBatch:
  assumes "queue_ok r"
  shows "messages (snd (EnqueueBatch f now ms r)) c \<subseteq> messages r c \<union> {m \<in> set ms. QChannel m = c}"
proof -
  let ?I = "\<lambda>s. queue_ok s \<and> messages s c \<subseteq> messages r c \<union> {m \<in> set ms. QChannel m = c}"
  have add: "?I (zadd_message t m s)" if "?I s" "m \<in> set ms" for t m s
    using that messages_Enqueue [of s None t m c] by (auto simp: Enqueue_state executed_def keeps split: if_splits)
  have "?I (snd (EnqueueBatch f now ms r))"
    unfolding EnqueueBatch_def
  proof (rule pipeline_keeps [where I = ?I])
    fix cmd t
    assume "cmd \<in> set (map (\<lambda>(i, msg). zadd_message (now i) msg) (enumerate 0 ms))" "?I t"
    then obtain i m where "cmd = zadd_message (now i) m" "m \<in> set ms"
      by (auto simp: in_set_enumerate_eq)
    with add \<open>?I t\<close> show "?I (cmd t)" by blast
  qed (use assms in simp)
  then show ?thesis by simp
qed

lemma lawful_poll:
  assumes w: "world_ok w"
    and P: "\<And>n. P n \<Longrightarrow> NStatus n = StatusScheduled \<or> (NStatus n = StatusFailed \<and> RetryCount n < MaxRetries n)"
  shows "lawful lib w (enqueue_claimed lib env (exec f (claim P due now locked l) (wdb w)) w)"
proof -
  have ok: "notifications_ok (wdb w)" using w by (rule world_ok_notifications)
  obtain res d where e: "exec f (claim P due now locked l) (wdb w) = (res, d)" by (metis prod.exhaust)
  have rows: "lawful_rows (wdb w) d"
    using lawful_rows_exec [of "claim P due now locked l" "wdb w" f] lawful_claim [OF ok _ P] e by auto
  show ?thesis
  proof (cases res)
    case (Inl e')
    with e rows show ?thesis by (simp add: lawful_def enqueue_claimed_def)
  next
    case (Inr ns)
    with e have c: "claim P due now locked l (wdb w) = Inr (ns, d)" by (auto dest: exec_InrD)
    let ?r = "snd (EnqueueBatch (q_enqueue env) (q_enqueued env) (map (queue_message lib) ns) (wredis w))"
    have "{m \<in> set (map (queue_message lib) ns). QChannel m = c} \<subseteq>
        {queue_message lib n |n k. row d k = Some n \<and> NChannel n = c}" for c
      using claim_returns [OF ok c] by fastforce
    moreover have "queue_ok (wredis w)" using w by (simp add: world_ok_def)
    ultimately have "messages ?r c \<subseteq> messages (wredis w) c \<union>
        {queue_message lib n |n k. row d k = Some n \<and> NChannel n = c}" for c
      using messages_EnqueueBatch [of "wredis w" "q_enqueue env" "q_enqueued env" "map (queue_message lib) ns" c]
      by blast
    with e Inr rows show ?thesis
      by (auto simp: lawful_def enqueue_claimed_def split_beta Let_def)
  qed
qed

lemma row_appended:
  assumes "notifications_ok (d\<lparr>notifications := notifications d @ ns\<rparr>)" "n \<in> set ns"
  shows "row (d\<lparr>notifications := notifications d @ ns\<rparr>) (ID n) = Some n"
  using row_in [OF assms(1), of n] assms(2) by simp

lemma row_append:
  assumes "row d k = Some n"
  shows "row (d\<lparr>notifications := notifications d @ ns\<rparr>) k = Some n"
proof -
  have "by_key ID (ms @ ns) k = Some r" if "by_key ID ms k = Some r" for ms k r
    using that by (induction ms) (auto split: if_splits)
  with assms show ?thesis by (simp add: row_def)
qed

lemma lawful_rows_append:
  "lawful_rows d (d\<lparr>notifications := notifications d @ ns\<rparr>)"
  by (intro lawful_rows_grow) (rule row_append)

text \<open>What a batch comes to: nothing, a transaction without its messages, or both.\<close>

lemma CreateBatch_state:
  fixes lib env reqs w
  defines "ns \<equiv> batch_accepted env (enumerate 0 reqs)"
  defines "msgs \<equiv> map (queue_message lib) (filter (\<lambda>n. NStatus n = StatusQueued) ns)"
    and "d' \<equiv> (wdb w)\<lparr>notifications := notifications (wdb w) @ map inserted ns\<rparr>"
  obtains (same) "snd (CreateBatch lib env reqs w) = w"
  | (rows) "notifications_ok (wdb w) \<longrightarrow> notifications_ok d'" "snd (CreateBatch lib env reqs w) = w\<lparr>wdb := d'\<rparr>"
  | (queued) "notifications_ok (wdb w) \<longrightarrow> notifications_ok d'" "snd (CreateBatch lib env reqs w) = w\<lparr>wdb := d',
      wredis := snd (EnqueueBatch (b_enqueue env) (b_enqueued env) msgs (wredis w))\<rparr>"
proof -
  define st where "st = fold (batch_step lib env) (enumerate 0 reqs) (batch_start (b_id env) (int (length reqs)))"
  have st: "accepted st = ns" "queueMsgs st = msgs"
    by (simp_all add: st_def batch_loop batch_start_def ns_def msgs_def)
  obtain e d where c: "repo_CreateBatch (b_begin env) (b_send env) (b_commit env) ns (wdb w) = (e, d)"
    by (metis prod.exhaust)
  have d: "d = wdb w \<or> d = d'" "e = None \<Longrightarrow> d = d'"
    using insert_all_rows [of ns "wdb w"] c
    by (auto simp: repo_CreateBatch_def exec_def d'_def split: option.splits sum.splits prod.splits)
  have ok: "notifications_ok (wdb w) \<longrightarrow> notifications_ok d"
    using repo_CreateBatch_keeps [of "wdb w" "b_begin env" "b_send env" "b_commit env" ns] c by auto
  have "snd (CreateBatch lib env reqs w) = w \<or> snd (CreateBatch lib env reqs w) = w\<lparr>wdb := d\<rparr> \<or>
      e = None \<and> snd (CreateBatch lib env reqs w) = w\<lparr>wdb := d,
        wredis := snd (EnqueueBatch (b_enqueue env) (b_enqueued env) msgs (wredis w))\<rparr>"
    by (cases e) (auto simp: CreateBatch_def st_def [symmetric] st c Let_def split_beta)
  with d ok that show thesis by (cases e) auto
qed

lemma row_stored:
  assumes "notifications_ok (d\<lparr>notifications := notifications d @ map inserted ns\<rparr>)" "n \<in> set ns"
  shows "row (d\<lparr>notifications := notifications d @ map inserted ns\<rparr>) (ID n) = Some (inserted n)"
  using row_appended [OF assms(1), of "inserted n"] assms(2) by simp

lemma lawful_CreateBatch:
  assumes w: "world_ok w"
  shows "lawful lib w (snd (CreateBatch lib env reqs w))"
proof (cases rule: CreateBatch_state [of lib env reqs w])
  case same
  then show ?thesis by (simp add: lawful_def)
next
  case rows
  then show ?thesis by (simp add: lawful_def lawful_rows_append)
next
  case queued
  let ?ns = "batch_accepted env (enumerate 0 reqs)"
  let ?msgs = "map (queue_message lib) (filter (\<lambda>n. NStatus n = StatusQueued) ?ns)"
  let ?d = "(wdb w)\<lparr>notifications := notifications (wdb w) @ map inserted ?ns\<rparr>"
  have r: "row ?d (ID n) = Some (inserted n)" if "n \<in> set ?ns" for n
    using row_stored [of "wdb w" ?ns n] queued(1) world_ok_notifications [OF w] that by blast
  have "{m \<in> set ?msgs. QChannel m = c} \<subseteq> {queue_message lib n |n k. row ?d k = Some n \<and> NChannel n = c}" for c
  proof
    fix m
    assume "m \<in> {m \<in> set ?msgs. QChannel m = c}"
    then obtain n where "n \<in> set ?ns" "m = queue_message lib (inserted n)" "NChannel (inserted n) = c"
      by auto
    with r show "m \<in> {queue_message lib n |n k. row ?d k = Some n \<and> NChannel n = c}" by blast
  qed
  moreover have "queue_ok (wredis w)" using w by (simp add: world_ok_def)
  ultimately have "messages (snd (EnqueueBatch (b_enqueue env) (b_enqueued env) ?msgs (wredis w))) c \<subseteq>
      messages (wredis w) c \<union> {queue_message lib n |n k. row ?d k = Some n \<and> NChannel n = c}" for c
    using messages_EnqueueBatch [of "wredis w" "b_enqueue env" "b_enqueued env" ?msgs c] by blast
  with queued(2) show ?thesis by (simp add: lawful_def lawful_rows_append)
qed

lemma lawful_worker:
  assumes w: "world_ok w"
  shows "lawful lib w (snd (worker_tick lib cfg lmt c env w))"
proof -
  let ?w' = "snd (worker_tick lib cfg lmt c env w)"
  have rows: "lawful_rows (wdb w) (wdb ?w')"
    using worker_tick_effect(2) [OF w, of lib cfg lmt c env] lawful_rows_only by fastforce
  note lawful_rows_message [OF rows]
  then have "{queue_message lib n |n k. row (wdb w) k = Some n \<and> NChannel n = c'} \<subseteq>
      {queue_message lib n |n k. row (wdb ?w') k = Some n \<and> NChannel n = c'}" for c'
    by fastforce
  with rows worker_tick_effect(1) [OF w, of lib cfg lmt c env] show ?thesis
    unfolding lawful_def by blast
qed

lemma template_ops_notifications [simp]:
  "notifications (snd (tsvc_Create eng f uid now req d)) = notifications d"
  "notifications (snd (tsvc_Update eng f f' now k ureq d)) = notifications d"
  "notifications (snd (trepo_Delete f now k d)) = notifications d"
proof -
  show "notifications (snd (tsvc_Create eng f uid now req d)) = notifications d"
    by (cases rule: tsvc_Create_state [of eng f uid now req d]) (auto dest!: insert_template_tables)
  show "notifications (snd (tsvc_Update eng f f' now k ureq d)) = notifications d"
    by (cases rule: tsvc_Update_state [of eng f f' now k ureq d])
       (auto dest: update_template_notifications)
  show "notifications (snd (trepo_Delete f now k d)) = notifications d"
    by (simp add: trepo_Delete_def exec_def split: option.split)
qed

lemma lawful_templates:
  "notifications d = notifications (wdb w) \<Longrightarrow> lawful lib w (w\<lparr>wdb := d\<rparr>)"
  by (auto simp: lawful_def lawful_rows_def row_def)

lemma step_lawful:
  assumes "world_ok w" "step lib eng cfg lmt w w'"
  shows "lawful lib w w'"
  using assms(2)
proof cases
  case (crash f c)
  have "queue_ok (wredis w)" using assms(1) by (simp add: world_ok_def)
  then show ?thesis by (simp add: crash lawful_def messages_Dequeue)
next
  case schedule
  then show ?thesis
    unfolding scheduler_poll_def GetScheduledReady_exec by (simp add: lawful_poll [OF assms(1)])
next
  case retry
  then show ?thesis
    unfolding retry_poll_def GetRetryReady_exec by (simp add: lawful_poll [OF assms(1)])
next
  case (worker c tenv)
  with assms(1) show ?thesis by (simp add: lawful_worker)
qed (simp_all add: assms(1) lawful_templates lawful_Create lawful_CreateBatch lawful_Cancel lawful_worker)


section \<open>Settled rows and messages\<close>

definition settled :: "Notification \<Rightarrow> bool" where
  "settled n \<longleftrightarrow> NStatus n = StatusDelivered \<or> NStatus n = StatusCancelled \<or>
     (NStatus n = StatusFailed \<and> MaxRetries n \<le> RetryCount n)"

lemma lawful_row_settled: "lawful_row n n' \<Longrightarrow> settled n \<Longrightarrow> n' = n"
  by (auto simp: lawful_row_def settled_def Status_IsFinal_def)

lemma settled_final: "settled n \<Longrightarrow> Status_IsFinal (NStatus n)"
  by (auto simp: settled_def Status_IsFinal_def)

definition no_orphans :: "uuid_lib \<Rightarrow> world \<Rightarrow> bool" where
  "no_orphans lib w \<longleftrightarrow> (\<forall>c. messages (wredis w) c \<subseteq>
     {queue_message lib n |n k. row (wdb w) k = Some n \<and> NChannel n = c})"

lemma lawful_no_orphans:
  assumes "lawful lib w w'" "no_orphans lib w"
  shows "no_orphans lib w'"
proof -
  have rows: "lawful_rows (wdb w) (wdb w')" using assms(1) by (simp add: lawful_def)
  note lawful_rows_message [OF rows]
  then have "{queue_message lib n |n k. row (wdb w) k = Some n \<and> NChannel n = c} \<subseteq>
      {queue_message lib n |n k. row (wdb w') k = Some n \<and> NChannel n = c}" for c
    by fastforce
  with assms show ?thesis unfolding lawful_def no_orphans_def by blast
qed

lemma start_ok: "system_ok eng start" "no_orphans lib start"
  by (simp add: system_ok_def world_ok_def tsvc_ok_def db_ok_def start_def empty_db_def
        notifications_ok_def audit_ok_def templates_ok_def names_ok_def contents_parse_def
        idempotency_keys_def List.map_filter_def)
     (auto simp: no_orphans_def messages_def start_def waiting_def in_flight_def redis_empty_def zset_score_def)

end
