(* ===== verification/Hub.thy ===== *)
theory Hub
  imports Domain
begin

text \<open>
  \<open>internal/adapter/event/hub.go\<close>: the hub that hands status events to the WebSocket clients.
  One goroutine runs the hub's loop, each client has a bounded channel that its writer empties.
  The text of an event, which \<open>json.Marshal\<close> gives, is represented by the event itself.
\<close>

section \<open>The hub\<close>

text \<open>
  A client is the value of its pointer; \<open>chans\<close> has the channel of every client ever
  registered: its filter, the messages in it and whether it is closed.
\<close>

record chan =
  batchID :: string
  buffer :: "StatusEvent list"
  closed :: bool

record hub =
  clients :: "nat set"
  chans :: "nat \<Rightarrow> chan option"
  broadcast :: "StatusEvent list"
  subscriber :: bool
  has_redis :: bool
  pubsub :: "StatusEvent list"

definition send_capacity :: nat where "send_capacity = 256"

definition broadcast_capacity :: nat where "broadcast_capacity = 256"

definition NewHub :: "bool \<Rightarrow> bool \<Rightarrow> hub" where
  "NewHub redis subs = \<lparr>clients = {}, chans = Map.empty, broadcast = [], subscriber = subs,
     has_redis = redis, pubsub = []\<rparr>"

text \<open>Sending on a closed channel and closing it twice are panics in Go.\<close>

definition chan_send :: "StatusEvent \<Rightarrow> chan \<Rightarrow> (bool \<times> chan) go" where
  "chan_send data ch =
     (if closed ch then Panic
      else if length (buffer ch) < send_capacity then Ret (True, ch\<lparr>buffer := buffer ch @ [data]\<rparr>)
      else Ret (False, ch))"

definition chan_close :: "chan \<Rightarrow> chan go" where
  "chan_close ch = (if closed ch then Panic else Ret (ch\<lparr>closed := True\<rparr>))"

section \<open>The loop's cases\<close>

definition register :: "nat \<Rightarrow> string \<Rightarrow> hub \<Rightarrow> hub" where
  "register c b h =
     h\<lparr>clients := insert c (clients h),
       chans := (chans h)(c \<mapsto> \<lparr>batchID = b, buffer = [], closed = False\<rparr>)\<rparr>"

definition unregister :: "nat \<Rightarrow> hub \<Rightarrow> hub go" where
  "unregister c h =
     (if c \<in> clients h
      then (case chans h c of
              None \<Rightarrow> Panic
            | Some ch \<Rightarrow>
                (case chan_close ch of
                   Panic \<Rightarrow> Panic
                 | Ret ch \<Rightarrow> Ret (h\<lparr>clients := clients h - {c}, chans := (chans h)(c \<mapsto> ch)\<rparr>)))
      else Ret h)"

text \<open>One client in the loop over the clients: skipped, served, or closed and dropped.\<close>

definition offer :: "StatusEvent \<Rightarrow> nat \<Rightarrow> hub \<Rightarrow> hub go" where
  "offer event c h =
     (case chans h c of
        None \<Rightarrow> Panic
      | Some ch \<Rightarrow>
          if batchID ch \<noteq> [] \<and> batchID ch \<noteq> EBatchID event then Ret h
          else
            (case chan_send event ch of
               Panic \<Rightarrow> Panic
             | Ret (True, ch) \<Rightarrow> Ret (h\<lparr>chans := (chans h)(c \<mapsto> ch)\<rparr>)
             | Ret (False, ch) \<Rightarrow>
                 (case chan_close ch of
                    Panic \<Rightarrow> Panic
                  | Ret ch \<Rightarrow> Ret (h\<lparr>clients := clients h - {c}, chans := (chans h)(c \<mapsto> ch)\<rparr>))))"

text \<open>The loop visits the clients in the map's order, which Go leaves open.\<close>

fun offer_all :: "StatusEvent \<Rightarrow> nat list \<Rightarrow> hub \<Rightarrow> hub go" where
  "offer_all event [] h = Ret h"
| "offer_all event (c # cs) h =
     (case offer event c h of Panic \<Rightarrow> Panic | Ret h \<Rightarrow> offer_all event cs h)"

definition broadcast_next :: "nat list \<Rightarrow> hub \<Rightarrow> hub go" where
  "broadcast_next order h =
     (case broadcast h of
        [] \<Rightarrow> Ret h
      | event # rest \<Rightarrow> offer_all event order (h\<lparr>broadcast := rest\<rparr>))"

section \<open>The other goroutines\<close>

definition relay :: "StatusEvent \<Rightarrow> hub \<Rightarrow> hub" where
  "relay event h =
     (if length (broadcast h) < broadcast_capacity then h\<lparr>broadcast := broadcast h @ [event]\<rparr> else h)"

text \<open>\<open>Publish\<close>; what SubscribeRedis does with an event it receives is \<open>relay\<close> alone.\<close>

definition Publish :: "StatusEvent \<Rightarrow> hub \<Rightarrow> hub" where
  "Publish event h =
     (let h = relay event h
      in if has_redis h \<and> \<not> subscriber h then h\<lparr>pubsub := pubsub h @ [event]\<rparr> else h)"

text \<open>The worker's hub publishes what it is given to Redis, full channel or not.\<close>

interpretation redis_publisher: event_publisher Publish pubsub "\<lambda>h. has_redis h \<and> \<not> subscriber h"
  by unfold_locales (simp_all add: Publish_def relay_def Let_def)

text \<open>The writer takes the next message of its client's channel; a closed, empty one ends it.\<close>

definition write_next :: "nat \<Rightarrow> hub \<Rightarrow> StatusEvent option \<times> hub" where
  "write_next c h =
     (case chans h c of
        None \<Rightarrow> (None, h)
      | Some ch \<Rightarrow>
          (case buffer ch of
             [] \<Rightarrow> (None, h)
           | m # ms \<Rightarrow> (Some m, h\<lparr>chans := (chans h)(c \<mapsto> ch\<lparr>buffer := ms\<rparr>)\<rparr>)))"

section \<open>Runs\<close>

text \<open>
  The order in which the goroutines' actions take place. A new client's pointer is one that was
  never used; the order in which a broadcast visits the clients is any list of all of them.
\<close>

datatype hub_action =
    Register nat string
  | Unregister nat
  | Published StatusEvent
  | Received StatusEvent
  | Broadcast "nat list"
  | Write nat

definition possible :: "hub_action \<Rightarrow> hub \<Rightarrow> bool" where
  "possible a h = (case a of
      Register c _ \<Rightarrow> chans h c = None
    | Broadcast order \<Rightarrow> distinct order \<and> set order = clients h
    | _ \<Rightarrow> True)"

definition act :: "hub_action \<Rightarrow> hub \<Rightarrow> hub go" where
  "act a h = (case a of
      Register c b \<Rightarrow> Ret (register c b h)
    | Unregister c \<Rightarrow> unregister c h
    | Published e \<Rightarrow> Ret (Publish e h)
    | Received e \<Rightarrow> Ret (relay e h)
    | Broadcast order \<Rightarrow> broadcast_next order h
    | Write c \<Rightarrow> Ret (snd (write_next c h)))"

inductive hub_run :: "hub \<Rightarrow> hub_action list \<Rightarrow> hub go \<Rightarrow> bool" where
  run_end: "hub_run h [] (Ret h)"
| run_act: "possible a h \<Longrightarrow> act a h = Ret h' \<Longrightarrow> hub_run h' as r \<Longrightarrow> hub_run h (a # as) r"
| run_panic: "possible a h \<Longrightarrow> act a h = Panic \<Longrightarrow> hub_run h (a # as) Panic"

text \<open>What a client's connection is sent, and the events the hub takes up, along a run.\<close>

fun written :: "nat \<Rightarrow> hub \<Rightarrow> hub_action list \<Rightarrow> StatusEvent list" where
  "written c h [] = []"
| "written c h (a # as) =
     (case act a h of
        Panic \<Rightarrow> []
      | Ret h' \<Rightarrow>
          (if a = Write c then (case fst (write_next c h) of None \<Rightarrow> [] | Some m \<Rightarrow> [m]) else []) @
          written c h' as)"

fun taken_up :: "hub \<Rightarrow> hub_action list \<Rightarrow> StatusEvent list" where
  "taken_up h [] = []"
| "taken_up h (a # as) =
     (case act a h of
        Panic \<Rightarrow> []
      | Ret h' \<Rightarrow>
          (case a of Broadcast _ \<Rightarrow> take 1 (broadcast h) | _ \<Rightarrow> []) @ taken_up h' as)"

definition wants :: "string \<Rightarrow> StatusEvent \<Rightarrow> bool" where
  "wants b e \<longleftrightarrow> b = [] \<or> EBatchID e = b"

section \<open>No panic\<close>

text \<open>A registered client has an open channel; no channel holds more than its capacity.\<close>

definition hub_ok :: "hub \<Rightarrow> bool" where
  "hub_ok h \<longleftrightarrow>
     (\<forall>c\<in>clients h. \<exists>ch. chans h c = Some ch \<and> \<not> closed ch) \<and>
     (\<forall>c ch. chans h c = Some ch \<longrightarrow> length (buffer ch) \<le> send_capacity) \<and>
     length (broadcast h) \<le> broadcast_capacity"


lemma hub_ok_new [simp]: "hub_ok (NewHub redis subs)"
  by (simp add: hub_ok_def NewHub_def)

lemma hub_okD:
  assumes "hub_ok h" "c \<in> clients h"
  obtains ch where "chans h c = Some ch" "\<not> closed ch" "length (buffer ch) \<le> send_capacity"
  using assms unfolding hub_ok_def by blast

text \<open>What the loop does with one client's channel.\<close>

definition dropped :: "StatusEvent \<Rightarrow> chan \<Rightarrow> bool" where
  "dropped e ch \<longleftrightarrow> wants (batchID ch) e \<and> send_capacity \<le> length (buffer ch)"

definition offered :: "StatusEvent \<Rightarrow> chan \<Rightarrow> chan" where
  "offered e ch =
     (if \<not> wants (batchID ch) e then ch
      else if dropped e ch then ch\<lparr>closed := True\<rparr> else ch\<lparr>buffer := buffer ch @ [e]\<rparr>)"

lemma offer_effect:
  assumes "chans h c = Some ch" "\<not> closed ch"
  shows "offer e c h = Ret (h\<lparr>clients := (if dropped e ch then clients h - {c} else clients h),
     chans := (chans h)(c \<mapsto> offered e ch)\<rparr>)"
  using assms
  by (auto simp: offer_def wants_def dropped_def offered_def chan_send_def chan_close_def not_less
      fun_upd_idem)

lemma offer_all_effect:
  assumes "distinct cs" "\<forall>c\<in>set cs. \<exists>ch. chans h c = Some ch \<and> \<not> closed ch"
  shows "offer_all e cs h = Ret (h\<lparr>
     clients := clients h - {c \<in> set cs. dropped e (the (chans h c))},
     chans := (\<lambda>c. if c \<in> set cs then map_option (offered e) (chans h c) else chans h c)\<rparr>)"
  using assms
proof (induction cs arbitrary: h)
  case (Cons c cs)
  then obtain ch where ch: "chans h c = Some ch" "\<not> closed ch" by auto
  let ?h = "h\<lparr>clients := (if dropped e ch then clients h - {c} else clients h),
     chans := (chans h)(c \<mapsto> offered e ch)\<rparr>"
  have same: "chans ?h x = chans h x" if "x \<in> set cs" for x using that Cons.prems(1) by auto
  have "offer_all e cs ?h = Ret (?h\<lparr>
     clients := clients ?h - {x \<in> set cs. dropped e (the (chans ?h x))},
     chans := (\<lambda>x. if x \<in> set cs then map_option (offered e) (chans ?h x) else chans ?h x)\<rparr>)"
    by (rule Cons.IH) (use Cons.prems in auto)
  moreover have "clients ?h - {x \<in> set cs. dropped e (the (chans ?h x))} =
      clients h - {x \<in> set (c # cs). dropped e (the (chans h x))}"
    using ch Cons.prems(1) by auto
  moreover have "(\<lambda>x. if x \<in> set cs then map_option (offered e) (chans ?h x) else chans ?h x) =
      (\<lambda>x. if x \<in> set (c # cs) then map_option (offered e) (chans h x) else chans h x)"
    using ch Cons.prems(1) by (auto simp: fun_eq_iff)
  ultimately show ?case by (simp add: offer_effect [OF ch])
qed simp

text \<open>A broadcast on the hub as a whole: the order of the visits makes no difference.\<close>

lemma broadcast_next_effect:
  assumes "hub_ok h" "distinct order" "set order = clients h"
  shows "broadcast_next order h = (case broadcast h of
      [] \<Rightarrow> Ret h
    | e # es \<Rightarrow> Ret (h\<lparr>broadcast := es,
        clients := clients h - {c \<in> clients h. dropped e (the (chans h c))},
        chans := (\<lambda>c. if c \<in> clients h then map_option (offered e) (chans h c) else chans h c)\<rparr>))"
  using assms offer_all_effect [of order "h\<lparr>broadcast := es\<rparr>" e for e es]
  by (auto simp: broadcast_next_def hub_ok_def cong: if_cong split: list.split)

lemma act_ok:
  assumes ok: "hub_ok h" and p: "possible a h"
  shows "\<exists>h'. act a h = Ret h' \<and> hub_ok h'"
proof (cases a)
  case (Register c b)
  with ok p show ?thesis by (auto simp: act_def register_def hub_ok_def possible_def)
next
  case (Unregister c)
  with ok show ?thesis
    by (cases "c \<in> clients h")
       (auto simp: act_def unregister_def chan_close_def hub_ok_def elim!: hub_okD [OF ok])
next
  case (Published e)
  with ok show ?thesis by (auto simp: act_def Publish_def relay_def Let_def hub_ok_def)
next
  case (Received e)
  with ok show ?thesis by (auto simp: act_def relay_def hub_ok_def)
next
  case (Broadcast order)
  with p have o: "distinct order" "set order = clients h" by (simp_all add: possible_def)
  show ?thesis
  proof (cases "broadcast h")
    case Nil
    with Broadcast ok broadcast_next_effect [OF ok o] show ?thesis by (simp add: act_def)
  next
    case (Cons e es)
    have "length (buffer (offered e ch)) \<le> send_capacity" if "length (buffer ch) \<le> send_capacity" for ch
      using that by (auto simp: offered_def dropped_def)
    moreover have "\<not> closed (offered e ch)" if "\<not> closed ch" "\<not> dropped e ch" for ch
      using that by (auto simp: offered_def)
    ultimately show ?thesis
      using Broadcast ok broadcast_next_effect [OF ok o] Cons
      by (auto simp: act_def hub_ok_def split: if_splits) fastforce+
  qed
next
  case (Write c)
  with ok show ?thesis
    by (fastforce simp: act_def write_next_def hub_ok_def split: option.split list.split)
qed


section \<open>What the clients receive\<close>

text \<open>A client that is gone stays gone: its pointer is never used again.\<close>

lemma act_gone:
  assumes "hub_ok h" "possible a h" "act a h = Ret h'" "c \<notin> clients h" "chans h c \<noteq> None"
  shows "c \<notin> clients h' \<and> chans h' c \<noteq> None"
proof (cases a)
  case (Broadcast order)
  with assms(2) have "distinct order" "set order = clients h" by (simp_all add: possible_def)
  from broadcast_next_effect [OF assms(1) this] Broadcast assms show ?thesis
    by (auto simp: act_def split: list.splits)
next
  case (Unregister d)
  with assms show ?thesis
    by (auto simp: act_def unregister_def chan_close_def split: if_splits option.splits go.splits)
qed (use assms in \<open>auto simp: act_def possible_def register_def Publish_def relay_def Let_def
       write_next_def split: option.splits list.splits if_splits\<close>)

lemma run_gone:
  "hub_run h as r \<Longrightarrow> hub_ok h \<Longrightarrow> c \<notin> clients h \<Longrightarrow> chans h c \<noteq> None \<Longrightarrow> r = Ret h' \<Longrightarrow> c \<notin> clients h'"
proof (induction rule: hub_run.induct)
  case (run_act a h h1 as r)
  have "hub_ok h1" using act_ok [OF run_act.prems(1) run_act.hyps(1)] run_act.hyps(2) by simp
  with run_act act_gone [OF run_act.prems(1) run_act.hyps(1,2), of c] show ?case by blast
qed simp_all

text \<open>One action: what is written and what is waiting, against what was waiting and is taken up.\<close>

lemma act_client:
  assumes ok: "hub_ok h" and p: "possible a h" and a: "act a h = Ret h'"
    and c: "c \<in> clients h" "c \<in> clients h'" and ch: "chans h c = Some ch"
  shows "\<exists>ch'. chans h' c = Some ch' \<and> batchID ch' = batchID ch \<and>
    written c h [a] @ buffer ch' = buffer ch @ filter (wants (batchID ch)) (taken_up h [a])"
proof (cases a)
  case (Broadcast order)
  with p have o: "distinct order" "set order = clients h" by (simp_all add: possible_def)
  show ?thesis
  proof (cases "broadcast h")
    case Nil
    with Broadcast a broadcast_next_effect [OF ok o] ch show ?thesis by (simp add: act_def)
  next
    case (Cons e es)
    with Broadcast a broadcast_next_effect [OF ok o] ch c show ?thesis
      by (auto simp: act_def offered_def)
  qed
next
  case (Register d b)
  with p a ch show ?thesis by (auto simp: act_def possible_def register_def)
next
  case (Unregister d)
  with a ch c show ?thesis
    by (auto simp: act_def unregister_def chan_close_def split: if_splits option.splits go.splits)
next
  case (Write d)
  with a ch show ?thesis
    by (auto simp: act_def write_next_def split: option.splits list.splits)
qed (use a ch in \<open>auto simp: act_def Publish_def relay_def Let_def\<close>)

lemma written_Cons: "act a h = Ret h' \<Longrightarrow> written c h (a # as) = written c h [a] @ written c h' as"
  by simp

lemma taken_up_Cons: "act a h = Ret h' \<Longrightarrow> taken_up h (a # as) = taken_up h [a] @ taken_up h' as"
  by simp

lemma hub_run_ok: "hub_run h as r \<Longrightarrow> hub_ok h \<Longrightarrow> \<exists>h'. r = Ret h' \<and> hub_ok h'"
  by (induction rule: hub_run.induct) (use act_ok in fastforce)+

lemma act_stays_known:
  assumes "hub_ok h" "possible a h" "act a h = Ret h1" "chans h c = Some ch"
  shows "chans h1 c \<noteq> None"
  using assms broadcast_next_effect [OF assms(1)]
  by (auto simp: act_def possible_def register_def unregister_def chan_close_def Publish_def relay_def
      Let_def write_next_def split: hub_action.splits option.splits if_splits go.splits list.splits)

lemma hub_run_client:
  "hub_run h as r \<Longrightarrow> hub_ok h \<Longrightarrow> r = Ret h' \<Longrightarrow> c \<in> clients h \<Longrightarrow> c \<in> clients h' \<Longrightarrow>
     chans h c = Some ch \<Longrightarrow>
     \<exists>ch'. chans h' c = Some ch' \<and> batchID ch' = batchID ch \<and>
       written c h as @ buffer ch' = buffer ch @ filter (wants (batchID ch)) (taken_up h as)"
proof (induction arbitrary: ch rule: hub_run.induct)
  case (run_act a h h1 as r)
  note [simp del] = written.simps(2) taken_up.simps(2)
  have ok1: "hub_ok h1" using act_ok [OF run_act.prems(1) run_act.hyps(1)] run_act.hyps(2) by simp
  have c1: "c \<in> clients h1"
    using act_stays_known [OF run_act.prems(1) run_act.hyps(1,2) run_act.prems(5)]
      run_gone [OF run_act.hyps(3) ok1 _ _ run_act.prems(2), of c] run_act.prems(4) by blast
  obtain ch1 where ch1: "chans h1 c = Some ch1" "batchID ch1 = batchID ch"
      "written c h [a] @ buffer ch1 = buffer ch @ filter (wants (batchID ch)) (taken_up h [a])"
    using act_client [OF run_act.prems(1) run_act.hyps(1,2) run_act.prems(3) c1 run_act.prems(5)] by blast
  from run_act.IH [OF ok1 run_act.prems(2) c1 run_act.prems(4) ch1(1)] obtain ch' where
      ch': "chans h' c = Some ch'" "batchID ch' = batchID ch1"
        "written c h1 as @ buffer ch' = buffer ch1 @ filter (wants (batchID ch1)) (taken_up h1 as)"
    by blast
  have "written c h (a # as) @ buffer ch' =
      (written c h [a] @ buffer ch1) @ filter (wants (batchID ch1)) (taken_up h1 as)"
    unfolding written_Cons [OF run_act.hyps(2), of c as] append_assoc ch'(3) ..
  also have "\<dots> = buffer ch @ filter (wants (batchID ch)) (taken_up h (a # as))"
    unfolding ch1(3) taken_up_Cons [OF run_act.hyps(2), of as] ch1(2) filter_append append_assoc ..
  finally show ?case using ch' ch1(2) by auto
qed simp_all

text \<open>
  C35. Whatever the order in which requests, the worker's events, the loop and the writers act,
  the hub never panics, that is, it never sends on a closed channel nor closes one twice; and
  what a client that stays connected was sent, with what waits in its channel, is exactly the
  events the hub took up that pass the client's filter, each once and in their order.
\<close>

theorem hub_serves_clients:
  assumes "hub_ok h" and "hub_run h as r"
  shows "\<exists>h'. r = Ret h' \<and> hub_ok h' \<and>
    (\<forall>c\<in>clients h \<inter> clients h'. \<exists>ch ch'. chans h c = Some ch \<and> chans h' c = Some ch' \<and>
       batchID ch' = batchID ch \<and>
       written c h as @ buffer ch' = buffer ch @ filter (wants (batchID ch)) (taken_up h as))"
proof -
  obtain h' where h': "r = Ret h'" "hub_ok h'" using hub_run_ok [OF assms(2,1)] by blast
  have "\<exists>ch ch'. chans h c = Some ch \<and> chans h' c = Some ch' \<and> batchID ch' = batchID ch \<and>
      written c h as @ buffer ch' = buffer ch @ filter (wants (batchID ch)) (taken_up h as)"
    if "c \<in> clients h \<inter> clients h'" for c
    using hub_run_client [OF assms(2,1) h'(1), of c] that hub_okD [OF assms(1), of c thesis]
    by (metis IntE assms(1) hub_ok_def)
  with h' show ?thesis by blast
qed


section \<open>A sample run\<close>

definition sample_event :: StatusEvent where
  "sample_event = \<lparr>ENotificationID = ''9'', EBatchID = [], EStatus = StatusDelivered,
     EChannel = ChannelSMS, ETimestamp = 0, EError = []\<rparr>"

definition sample_hub :: hub where
  "sample_hub = register 1 [] (NewHub True True)"

lemma sample_hub_fields:
  "clients sample_hub = {1}" "chans sample_hub 1 = Some \<lparr>batchID = [], buffer = [], closed = False\<rparr>"
  "broadcast sample_hub = []" "hub_ok sample_hub"
  by (simp_all add: sample_hub_def register_def hub_ok_def NewHub_def)

theorem hub_serves_clients_witness:
  "\<exists>h' ch'. hub_run sample_hub [Published sample_event, Broadcast [1], Write 1] (Ret h') \<and>
     chans h' 1 = Some ch' \<and>
     written 1 sample_hub [Published sample_event, Broadcast [1], Write 1] @ buffer ch' = [sample_event]"
proof -
  let ?as = "[Published sample_event, Broadcast [1], Write 1]"
  let ?h1 = "sample_hub\<lparr>broadcast := [sample_event]\<rparr>"
  let ?h2 = "sample_hub\<lparr>chans := (chans sample_hub)(1 \<mapsto> \<lparr>batchID = [], buffer = [sample_event], closed = False\<rparr>)\<rparr>"
  let ?h3 = "snd (write_next 1 ?h2)"
  have a1: "act (Published sample_event) sample_hub = Ret ?h1"
    by (simp add: act_def Publish_def relay_def broadcast_capacity_def sample_hub_def register_def NewHub_def)
  have a2: "act (Broadcast [1]) ?h1 = Ret ?h2"
    by (simp add: act_def broadcast_next_def offer_def chan_send_def send_capacity_def sample_hub_def
        register_def NewHub_def)
  have a3: "act (Write 1) ?h2 = Ret ?h3" by (simp add: act_def)
  have r: "hub_run sample_hub ?as (Ret ?h3)"
    by (intro run_act [OF _ a1] run_act [OF _ a2] run_act [OF _ a3] run_end)
       (simp_all add: possible_def sample_hub_fields)
  have c: "clients ?h3 = {1}" by (simp add: write_next_def sample_hub_fields)
  have t: "taken_up sample_hub ?as = [sample_event]"
    using a1 a2 a3 by simp
  obtain h3 where h3: "hub_run sample_hub ?as (Ret h3)" "1 \<in> clients h3"
    using r c by blast
  from hub_serves_clients [OF sample_hub_fields(4) h3(1)] obtain ch ch' where
      "chans sample_hub 1 = Some ch" "chans h3 1 = Some ch'"
      "written 1 sample_hub ?as @ buffer ch' = buffer ch @ filter (wants (batchID ch)) (taken_up sample_hub ?as)"
    using h3(2) sample_hub_fields(1) unfolding go.inject by blast
  with h3(1) sample_hub_fields(2) show ?thesis
    unfolding t by (intro exI [of _ h3] exI [of _ ch']) (simp add: wants_def del: written.simps taken_up.simps One_nat_def)
qed

end
