(* ===== verification/Http_Api.thy ===== *)
theory Http_Api
  imports System Hub
begin

text \<open>
  \<open>internal/adapter/handler\<close> and its \<open>middleware\<close>: what the API answers. A request's
  body is what \<open>encoding/json\<close> makes of it, its URL parameters and its query are strings; the
  router, which picks the handler, and the tracing library are not modelled.
\<close>

section \<open>Responses\<close>

datatype body =
    ErrorBody string
  | NotificationBody Notification
  | BatchBody BatchResult
  | NotificationsBody UUID int "Notification list"
  | StatusBody string
  | AffectedBody string int
  | PageBody PaginatedResult
  | TemplateBody Template
  | TemplatesBody "Template list" int int int int
  | PreviewBody string string
  | HealthBody string string string
  | MetricsBody MetricsReport
  | PlainBody string

record response =
  StatusCode :: int
  Body :: body
  requestIDHeader :: string

definition writeJSON :: "int \<Rightarrow> body \<Rightarrow> response" where
  "writeJSON st v = \<lparr>StatusCode = st, Body = v, requestIDHeader = []\<rparr>"

definition writeError :: "err \<Rightarrow> response" where
  "writeError e =
     (if errors_Is e ErrNotFound then writeJSON 404 (ErrorBody (err_Error e))
      else if errors_Is e ErrCannotCancel then writeJSON 409 (ErrorBody (err_Error e))
      else if errors_Is e ErrBatchTooLarge then writeJSON 400 (ErrorBody (err_Error e))
      else if errors_Is e ErrInvalidChannel \<or> errors_Is e ErrInvalidPriority \<or>
        errors_Is e ErrEmptyRecipient \<or> errors_Is e ErrEmptyContent \<or>
        errors_Is e ErrContentTooLong \<or> errors_Is e ErrScheduleInPast \<or>
        errors_Is e ErrMissingTemplateVars \<or> errors_Is e ErrTemplateInactive
      then writeJSON 400 (ErrorBody (err_Error e))
      else if errors_Is e ErrDuplicateIDKey then writeJSON 409 (ErrorBody (err_Error e))
      else writeJSON 500 (ErrorBody ''internal server error''))"

text \<open>\<open>strconv.Atoi\<close>: an optional sign, decimal digits and the range of an \<open>int\<close>.\<close>

definition Atoi :: "string \<Rightarrow> int option" where
  "Atoi s =
     (let (neg, ds) = (case s of [] \<Rightarrow> (False, [])
        | c # cs \<Rightarrow> if c = CHR ''-'' then (True, cs) else if c = CHR ''+'' then (False, cs) else (False, s));
          v = (if neg then - int (digits_value ds) else int (digits_value ds))
      in if ds \<noteq> [] \<and> list_all is_digit ds \<and> int64_range v then Some v else None)"

section \<open>Notifications\<close>

definition api_Create ::
    "uuid_lib \<Rightarrow> 't template_engine option \<Rightarrow> Create_Env \<Rightarrow> err + CreateNotificationRequest \<Rightarrow> world \<Rightarrow>
       response \<times> world" where
  "api_Create lib svc env decoded w =
     (case decoded of
        Inl _ \<Rightarrow> (writeJSON 400 (ErrorBody ''invalid request body''), w)
      | Inr req \<Rightarrow>
          if CnRecipient req = []
          then (writeJSON 400 (ErrorBody (error_text ErrEmptyRecipient)), w)
          else
            (case Create lib svc env req w of
               (Inl e, w) \<Rightarrow> (writeError e, w)
             | (Inr n, w) \<Rightarrow> (writeJSON 202 (NotificationBody n), w)))"

definition api_CreateBatch ::
    "uuid_lib \<Rightarrow> Batch_Env \<Rightarrow> err + CreateNotificationRequest list \<Rightarrow> world \<Rightarrow> response \<times> world" where
  "api_CreateBatch lib env decoded w =
     (case decoded of
        Inl _ \<Rightarrow> (writeJSON 400 (ErrorBody ''invalid request body''), w)
      | Inr requests \<Rightarrow>
          if length requests = 0
          then (writeJSON 400 (ErrorBody ''notifications array is required''), w)
          else
            (case CreateBatch lib env requests w of
               (Inl e, w) \<Rightarrow> (writeError e, w)
             | (Inr res, w) \<Rightarrow> (writeJSON 202 (BatchBody res), w)))"

definition api_GetByID :: "uuid_lib \<Rightarrow> err fault \<Rightarrow> string \<Rightarrow> world \<Rightarrow> response" where
  "api_GetByID lib f param w =
     (case UUID_Parse lib param of
        Inl _ \<Rightarrow> writeJSON 400 (ErrorBody ''invalid notification ID'')
      | Inr k \<Rightarrow>
          (case svc_GetByID f k (wdb w) of
             Inl e \<Rightarrow> writeError e
           | Inr n \<Rightarrow> writeJSON 200 (NotificationBody n)))"

definition api_GetByBatchID :: "uuid_lib \<Rightarrow> err fault \<Rightarrow> string \<Rightarrow> world \<Rightarrow> response" where
  "api_GetByBatchID lib f param w =
     (case UUID_Parse lib param of
        Inl _ \<Rightarrow> writeJSON 400 (ErrorBody ''invalid batch ID'')
      | Inr b \<Rightarrow>
          (case svc_GetByBatchID f b (wdb w) of
             Inl e \<Rightarrow> writeError e
           | Inr ns \<Rightarrow> writeJSON 200 (NotificationsBody b (int (length ns)) ns)))"

definition api_Cancel :: "uuid_lib \<Rightarrow> Cancel_Env \<Rightarrow> string \<Rightarrow> world \<Rightarrow> response \<times> world" where
  "api_Cancel lib env param w =
     (case UUID_Parse lib param of
        Inl _ \<Rightarrow> (writeJSON 400 (ErrorBody ''invalid notification ID''), w)
      | Inr k \<Rightarrow>
          (case Cancel lib env k w of
             (Some e, w) \<Rightarrow> (writeError e, w)
           | (None, w) \<Rightarrow> (writeJSON 200 (StatusBody ''cancelled''), w)))"

definition api_CancelBatch :: "uuid_lib \<Rightarrow> err fault \<Rightarrow> time \<Rightarrow> string \<Rightarrow> world \<Rightarrow> response \<times> world" where
  "api_CancelBatch lib f now param w =
     (case UUID_Parse lib param of
        Inl _ \<Rightarrow> (writeJSON 400 (ErrorBody ''invalid batch ID''), w)
      | Inr b \<Rightarrow>
          (case CancelBatch f now b w of
             (Inl e, w) \<Rightarrow> (writeError e, w)
           | (Inr affected, w) \<Rightarrow> (writeJSON 200 (AffectedBody ''cancelled'' affected), w)))"

text \<open>
  The query as \<open>Get\<close> reads it: the empty string for a parameter that is not there. Values
  that do not parse are ignored; \<open>parse_time\<close> is \<open>time.Parse\<close> with RFC 3339.
\<close>

definition query_int :: "(string \<Rightarrow> string) \<Rightarrow> string \<Rightarrow> int \<Rightarrow> int" where
  "query_int q key dflt =
     (if q key \<noteq> [] then (case Atoi (q key) of Some v \<Rightarrow> v | None \<Rightarrow> dflt) else dflt)"

definition query_filter ::
    "uuid_lib \<Rightarrow> (string \<Rightarrow> time option) \<Rightarrow> (string \<Rightarrow> string) \<Rightarrow> NotificationFilter" where
  "query_filter lib parse_time q =
     \<lparr>FStatus = (if q ''status'' \<noteq> [] then Some (q ''status'') else None),
      FChannel = (if q ''channel'' \<noteq> [] then Some (q ''channel'') else None),
      FBatchID = (if q ''batch_id'' \<noteq> []
         then (case UUID_Parse lib (q ''batch_id'') of Inl _ \<Rightarrow> None | Inr b \<Rightarrow> Some b) else None),
      FromDate = (if q ''from'' \<noteq> [] then parse_time (q ''from'') else None),
      ToDate = (if q ''to'' \<noteq> [] then parse_time (q ''to'') else None),
      Page = query_int q ''page'' 1, PageSize = query_int q ''page_size'' 20\<rparr>"

definition api_List ::
    "uuid_lib \<Rightarrow> (string \<Rightarrow> time option) \<Rightarrow> err fault \<Rightarrow> err fault \<Rightarrow> (string \<Rightarrow> string) \<Rightarrow> world \<Rightarrow> response" where
  "api_List lib parse_time f1 f2 q w =
     (case svc_List f1 f2 (query_filter lib parse_time q) (wdb w) of
        Inl e \<Rightarrow> writeError e
      | Inr res \<Rightarrow> writeJSON 200 (PageBody res))"

section \<open>Templates\<close>

definition api_CreateTemplate ::
    "'t template_engine \<Rightarrow> err fault \<Rightarrow> UUID \<Rightarrow> time \<Rightarrow> err + CreateTemplateRequest \<Rightarrow> world \<Rightarrow> response \<times> world" where
  "api_CreateTemplate eng f uid now decoded w =
     (case decoded of
        Inl _ \<Rightarrow> (writeJSON 400 (ErrorBody ''invalid request body''), w)
      | Inr req \<Rightarrow>
          (case tsvc_Create eng f uid now req (wdb w) of
             (Inl e, d) \<Rightarrow> (writeError e, w\<lparr>wdb := d\<rparr>)
           | (Inr t, d) \<Rightarrow> (writeJSON 201 (TemplateBody t), w\<lparr>wdb := d\<rparr>)))"

definition api_GetTemplate :: "uuid_lib \<Rightarrow> err fault \<Rightarrow> string \<Rightarrow> world \<Rightarrow> response" where
  "api_GetTemplate lib f param w =
     (case UUID_Parse lib param of
        Inl _ \<Rightarrow> writeJSON 400 (ErrorBody ''invalid template ID'')
      | Inr k \<Rightarrow>
          (case tsvc_GetByID f k (wdb w) of
             Inl e \<Rightarrow> writeError e
           | Inr t \<Rightarrow> writeJSON 200 (TemplateBody t)))"

definition api_UpdateTemplate ::
    "uuid_lib \<Rightarrow> 't template_engine \<Rightarrow> err fault \<Rightarrow> err fault \<Rightarrow> time \<Rightarrow> string \<Rightarrow>
       err + UpdateTemplateRequest \<Rightarrow> world \<Rightarrow> response \<times> world" where
  "api_UpdateTemplate lib eng f1 f2 now param decoded w =
     (case UUID_Parse lib param of
        Inl _ \<Rightarrow> (writeJSON 400 (ErrorBody ''invalid template ID''), w)
      | Inr k \<Rightarrow>
          (case decoded of
             Inl _ \<Rightarrow> (writeJSON 400 (ErrorBody ''invalid request body''), w)
           | Inr req \<Rightarrow>
               (case tsvc_Update eng f1 f2 now k req (wdb w) of
                  (Inl e, d) \<Rightarrow> (writeError e, w\<lparr>wdb := d\<rparr>)
                | (Inr t, d) \<Rightarrow> (writeJSON 200 (TemplateBody t), w\<lparr>wdb := d\<rparr>))))"

definition api_DeleteTemplate :: "uuid_lib \<Rightarrow> err fault \<Rightarrow> time \<Rightarrow> string \<Rightarrow> world \<Rightarrow> response \<times> world" where
  "api_DeleteTemplate lib f now param w =
     (case UUID_Parse lib param of
        Inl _ \<Rightarrow> (writeJSON 400 (ErrorBody ''invalid template ID''), w)
      | Inr k \<Rightarrow>
          (case tsvc_Delete f now k (wdb w) of
             (Some e, d) \<Rightarrow> (writeError e, w\<lparr>wdb := d\<rparr>)
           | (None, d) \<Rightarrow> (writeJSON 200 (StatusBody ''deleted''), w\<lparr>wdb := d\<rparr>)))"

text \<open>The page size of the query is divided by, whatever it is; dividing by 0 is a panic.\<close>

definition api_ListTemplates ::
    "err fault \<Rightarrow> err fault \<Rightarrow> (string \<Rightarrow> string) \<Rightarrow> world \<Rightarrow> response go" where
  "api_ListTemplates f1 f2 q w =
     (let page = query_int q ''page'' 1; pageSize = query_int q ''page_size'' 20
      in case tsvc_List f1 f2 page pageSize (wdb w) of
           Inl e \<Rightarrow> Ret (writeError e)
         | Inr (ts, totalRows) \<Rightarrow>
             if pageSize = 0 then Panic
             else Ret (writeJSON 200
                    (TemplatesBody ts page pageSize totalRows (total_pages totalRows pageSize))))"

definition api_Preview ::
    "uuid_lib \<Rightarrow> 't template_engine \<Rightarrow> err fault \<Rightarrow> string \<Rightarrow> err + json_map \<Rightarrow> world \<Rightarrow> response" where
  "api_Preview lib eng f param decoded w =
     (case UUID_Parse lib param of
        Inl _ \<Rightarrow> writeJSON 400 (ErrorBody ''invalid template ID'')
      | Inr k \<Rightarrow>
          (case decoded of
             Inl _ \<Rightarrow> writeJSON 400 (ErrorBody ''invalid request body'')
           | Inr vars \<Rightarrow>
               (case Preview eng f k vars (wdb w) of
                  Inl e \<Rightarrow> writeError e
                | Inr (subject, text) \<Rightarrow> writeJSON 200 (PreviewBody subject text))))"

section \<open>Health, metrics, WebSocket\<close>

definition health_Check :: "err option \<Rightarrow> err option \<Rightarrow> response" where
  "health_Check db_ping redis_ping =
     (let (st, postgres, code) = (''healthy'', ''up'', 200);
          (st, postgres, code) = (if db_ping \<noteq> None then (''unhealthy'', ''down'', 503) else (st, postgres, code));
          (st, red, code) = (if redis_ping \<noteq> None then (''unhealthy'', ''down'', 503) else (st, ''up'', code))
      in writeJSON code (HealthBody st postgres red))"

text \<open>
  A request as the middlewares and the WebSocket library see it. \<open>upgrade\<close> is that library: it
  takes over the connection or answers the request with an error itself.
\<close>

record http_request =
  Method :: string
  URLPath :: string
  XRequestID :: string
  request_id :: "string option"

record Upgrader =
  ReadBufferSize :: int
  WriteBufferSize :: int
  CheckOrigin :: "http_request \<Rightarrow> bool"

definition upgrader :: Upgrader where
  "upgrader = \<lparr>ReadBufferSize = 1024, WriteBufferSize = 1024, CheckOrigin = (\<lambda>r. True)\<rparr>"

definition ws_Handle ::
    "(Upgrader \<Rightarrow> http_request \<Rightarrow> err option) \<Rightarrow> nat \<Rightarrow> http_request \<Rightarrow> (string \<Rightarrow> string) \<Rightarrow> hub \<Rightarrow> hub" where
  "ws_Handle upgrade c r q h =
     (if upgrade upgrader r \<noteq> None then h else register c (q ''batch_id'') h)"

definition metrics_Handle ::
    "(Channel \<Rightarrow> err fault) \<Rightarrow> (string \<Rightarrow> err fault) \<Rightarrow> time \<Rightarrow> (Channel \<Rightarrow> CircuitBreaker option) \<Rightarrow>
       world \<Rightarrow> response" where
  "metrics_Handle fdepth fget now breakers w =
     writeJSON 200 (MetricsBody (metrics_Get fdepth fget now breakers (wredis w)))"

section \<open>The endpoints\<close>

text \<open>
  A request that the router has handed to its handler: the URL parameter, the decoded body or
  the error of decoding it, the query.
\<close>

datatype endpoint =
    PostNotification "err + CreateNotificationRequest"
  | PostBatch "err + CreateNotificationRequest list"
  | GetNotifications "string \<Rightarrow> string"
  | GetNotification string
  | GetBatch string
  | PatchCancel string
  | PatchCancelBatch string
  | PostTemplate "err + CreateTemplateRequest"
  | GetTemplates "string \<Rightarrow> string"
  | GetTemplate string
  | PutTemplate string "err + UpdateTemplateRequest"
  | DeleteTemplate string
  | PostPreview string "err + json_map"
  | GetHealth
  | GetMetrics

text \<open>The faults, clocks and identifiers of the calls a request makes.\<close>

record Api_Env =
  a_create :: Create_Env
  a_batch :: Batch_Env
  a_cancel :: Cancel_Env
  a_first :: "err fault"
  a_second :: "err fault"
  a_id :: UUID
  a_now :: time
  a_db_ping :: "err option"
  a_redis_ping :: "err option"
  a_depth :: "Channel \<Rightarrow> err fault"
  a_get :: "string \<Rightarrow> err fault"
  a_parse_time :: "string \<Rightarrow> time option"

text \<open>
  The services and handlers of the program, as far as they hold more than a connection: a pointer
  to the template service, which is nil or has its engine, and the breakers of the metrics
  handler, which the API leaves nil.
\<close>

record 't NotificationService =
  ns_templateSvc :: "'t template_engine option"

definition NewTemplateService :: "'t template_engine \<Rightarrow> 't template_engine option" where
  "NewTemplateService eng = Some eng"

definition NewNotificationService :: "'t template_engine option \<Rightarrow> 't NotificationService" where
  "NewNotificationService templateSvc = \<lparr>ns_templateSvc = templateSvc\<rparr>"

record MetricsHandler =
  mh_breakers :: "Channel \<Rightarrow> CircuitBreaker option"

definition NewMetricsHandler :: "(Channel \<Rightarrow> CircuitBreaker option) \<Rightarrow> MetricsHandler" where
  "NewMetricsHandler breakers = \<lparr>mh_breakers = breakers\<rparr>"

definition api_notifSvc :: "'t template_engine \<Rightarrow> 't NotificationService" where
  "api_notifSvc eng = NewNotificationService (NewTemplateService eng)"

definition api_metricsHandler :: MetricsHandler where
  "api_metricsHandler = NewMetricsHandler (\<lambda>_. None)"

lemma api_parts [simp]:
  "ns_templateSvc (api_notifSvc eng) = Some eng" "mh_breakers api_metricsHandler = (\<lambda>_. None)"
  by (simp_all add: api_notifSvc_def NewNotificationService_def NewTemplateService_def
      api_metricsHandler_def NewMetricsHandler_def)


fun serve ::
    "uuid_lib \<Rightarrow> 't template_engine \<Rightarrow> Api_Env \<Rightarrow> endpoint \<Rightarrow> world \<Rightarrow> response go \<times> world" where
  "serve lib eng env (PostNotification b) w =
     apfst Ret (api_Create lib (ns_templateSvc (api_notifSvc eng)) (a_create env) b w)"
| "serve lib eng env (PostBatch b) w = apfst Ret (api_CreateBatch lib (a_batch env) b w)"
| "serve lib eng env (GetNotifications q) w =
     (Ret (api_List lib (a_parse_time env) (a_first env) (a_second env) q w), w)"
| "serve lib eng env (GetNotification p) w = (Ret (api_GetByID lib (a_first env) p w), w)"
| "serve lib eng env (GetBatch p) w = (Ret (api_GetByBatchID lib (a_first env) p w), w)"
| "serve lib eng env (PatchCancel p) w = apfst Ret (api_Cancel lib (a_cancel env) p w)"
| "serve lib eng env (PatchCancelBatch p) w =
     apfst Ret (api_CancelBatch lib (a_first env) (a_now env) p w)"
| "serve lib eng env (PostTemplate b) w =
     apfst Ret (api_CreateTemplate eng (a_first env) (a_id env) (a_now env) b w)"
| "serve lib eng env (GetTemplates q) w = (api_ListTemplates (a_first env) (a_second env) q w, w)"
| "serve lib eng env (GetTemplate p) w = (Ret (api_GetTemplate lib (a_first env) p w), w)"
| "serve lib eng env (PutTemplate p b) w =
     apfst Ret (api_UpdateTemplate lib eng (a_first env) (a_second env) (a_now env) p b w)"
| "serve lib eng env (DeleteTemplate p) w =
     apfst Ret (api_DeleteTemplate lib (a_first env) (a_now env) p w)"
| "serve lib eng env (PostPreview p b) w = (Ret (api_Preview lib eng (a_first env) p b w), w)"
| "serve lib eng env GetHealth w = (Ret (health_Check (a_db_ping env) (a_redis_ping env)), w)"
| "serve lib eng env GetMetrics w =
     (Ret (metrics_Handle (a_depth env) (a_get env) (a_now env) (mh_breakers api_metricsHandler) w), w)"

text \<open>The method and the pattern under which the router finds each handler.\<close>

fun notification_route :: "endpoint \<Rightarrow> (string \<times> string) option" where
  "notification_route (PostNotification _) = Some (''POST'', ''/'')"
| "notification_route (PostBatch _) = Some (''POST'', ''/batch'')"
| "notification_route (GetNotifications _) = Some (''GET'', ''/'')"
| "notification_route (GetNotification _) = Some (''GET'', ''/{id}'')"
| "notification_route (GetBatch _) = Some (''GET'', ''/batch/{batchId}'')"
| "notification_route (PatchCancel _) = Some (''PATCH'', ''/{id}/cancel'')"
| "notification_route (PatchCancelBatch _) = Some (''PATCH'', ''/batch/{batchId}/cancel'')"
| "notification_route _ = None"

fun template_route :: "endpoint \<Rightarrow> (string \<times> string) option" where
  "template_route (PostTemplate _) = Some (''POST'', ''/'')"
| "template_route (GetTemplates _) = Some (''GET'', ''/'')"
| "template_route (GetTemplate _) = Some (''GET'', ''/{id}'')"
| "template_route (PutTemplate _ _) = Some (''PUT'', ''/{id}'')"
| "template_route (DeleteTemplate _) = Some (''DELETE'', ''/{id}'')"
| "template_route (PostPreview _ _) = Some (''POST'', ''/{id}/preview'')"
| "template_route _ = None"

definition api_route :: "endpoint \<Rightarrow> string \<times> string" where
  "api_route ep =
     (case notification_route ep of
        Some (m, p) \<Rightarrow> (m, ''/api/v1'' @ ''/notifications'' @ p)
      | None \<Rightarrow>
          (case template_route ep of
             Some (m, p) \<Rightarrow> (m, ''/api/v1'' @ ''/templates'' @ p)
           | None \<Rightarrow> if ep = GetHealth then (''GET'', ''/health'') else (''GET'', ''/metrics'')))"

text \<open>No two handlers have the same route.\<close>

lemma routes_distinct:
  "distinct (map api_route
     [PostNotification b1, PostBatch b2, GetNotifications q1, GetNotification p1, GetBatch p2,
      PatchCancel p3, PatchCancelBatch p4, PostTemplate b3, GetTemplates q2, GetTemplate p5,
      PutTemplate p6 b4, DeleteTemplate p7, PostPreview p8 b5, GetHealth, GetMetrics])"
  by (simp add: api_route_def)

section \<open>Middleware\<close>

text \<open>
  A handler answers or panics. The middlewares keep a log: the access log's lines, the panics
  that were recovered and the spans that were ended (with the status, if it was set). Stack
  traces, durations and byte counts are left out, and what the tracing library does with a span.
\<close>

datatype log_line =
    HttpRequest string string string int
  | PanicRecovered string
  | SpanEnd string string "int option"

type_synonym 'w handler = "http_request \<Rightarrow> 'w \<times> log_line list \<Rightarrow> response go \<times> 'w \<times> log_line list"

definition GetRequestID :: "http_request \<Rightarrow> string" where
  "GetRequestID r = (case request_id r of Some rid \<Rightarrow> rid | None \<Rightarrow> [])"

text \<open>The header is set before the handler runs.\<close>

definition RequestID :: "string \<Rightarrow> 'w handler \<Rightarrow> 'w handler" where
  "RequestID fresh next r s =
     (let rid = (if XRequestID r = [] then fresh else XRequestID r)
      in case next (r\<lparr>request_id := Some rid\<rparr>) s of
           (Ret resp, s) \<Rightarrow> (Ret (resp\<lparr>requestIDHeader := rid\<rparr>), s)
         | (Panic, s) \<Rightarrow> (Panic, s))"

definition panic_text :: string where
  "panic_text = ''{\"error\":\"internal server error\"}'' @ [CHR 0x0A]"

definition Recovery :: "'w handler \<Rightarrow> 'w handler" where
  "Recovery next r s =
     (case next r s of
        (Ret resp, s) \<Rightarrow> (Ret resp, s)
      | (Panic, w, ls) \<Rightarrow>
          (Ret \<lparr>StatusCode = 500, Body = PlainBody panic_text, requestIDHeader = []\<rparr>,
           w, ls @ [PanicRecovered (GetRequestID r)]))"

text \<open>Logging is not deferred, ending the span is.\<close>

definition Logging :: "'w handler \<Rightarrow> 'w handler" where
  "Logging next r s =
     (case next r s of
        (Ret resp, w, ls) \<Rightarrow>
          (Ret resp, w, ls @ [HttpRequest (GetRequestID r) (Method r) (URLPath r) (StatusCode resp)])
      | (Panic, s) \<Rightarrow> (Panic, s))"

definition Tracing :: "'w handler \<Rightarrow> 'w handler" where
  "Tracing next r s =
     (let span = SpanEnd (Method r @ '' '' @ URLPath r) (GetRequestID r)
      in case next r s of
           (Ret resp, w, ls) \<Rightarrow> (Ret resp, w, ls @ [span (Some (StatusCode resp))])
         | (Panic, w, ls) \<Rightarrow> (Panic, w, ls @ [span None]))"

definition handle :: "(world \<Rightarrow> response go \<times> world) \<Rightarrow> world handler" where
  "handle h r s = (case s of (w, ls) \<Rightarrow> (case h w of (resp, w) \<Rightarrow> (resp, w, ls)))"

definition api_chain :: "string \<Rightarrow> 'w handler \<Rightarrow> 'w handler" where
  "api_chain fresh h = RequestID fresh (Recovery (Logging (Tracing h)))"


section \<open>What the API answers\<close>

text \<open>
  An error of a service is none of the domain's errors; the faults of PostgreSQL are such
  errors.
\<close>

definition service_error :: "err \<Rightarrow> bool" where
  "service_error e \<longleftrightarrow>
     list_all (\<lambda>t. \<not> errors_Is e t)
       [ErrNotFound, ErrCannotCancel, ErrBatchTooLarge, ErrInvalidChannel, ErrInvalidPriority,
        ErrEmptyRecipient, ErrEmptyContent, ErrContentTooLong, ErrScheduleInPast,
        ErrMissingTemplateVars, ErrTemplateInactive, ErrDuplicateIDKey]"

definition service_fault :: "err fault \<Rightarrow> bool" where
  "service_fault f \<longleftrightarrow> nullable (\<lambda>(e, _). service_error e) f"

definition service_faults :: "Api_Env \<Rightarrow> bool" where
  "service_faults env \<longleftrightarrow>
     list_all service_fault
       [c_insert (a_create env), b_begin (a_batch env), b_send (a_batch env), b_commit (a_batch env),
        k_update (a_cancel env), a_first env, a_second env]"

lemma service_error_status [simp]: "service_error e \<Longrightarrow> StatusCode (writeError e) = 500"
  by (simp add: service_error_def writeError_def writeJSON_def)

lemma service_error_texts [simp]:
  "service_error (Text s)" "service_error (constraint_violation s)"
  by (simp_all add: service_error_def constraint_violation_def)

lemma writeJSON_status [simp]: "StatusCode (writeJSON st v) = st"
  by (simp add: writeJSON_def)

lemma writeError_statuses: "StatusCode (writeError e) \<in> {400, 404, 409, 500}"
  by (simp add: writeError_def)

text \<open>A call that changed something and still failed, failed with a service's error.\<close>

definition no_client_error :: "err option \<Rightarrow> 's \<Rightarrow> 's \<Rightarrow> bool" where
  "no_client_error e s s' \<longleftrightarrow> s' = s \<or> nullable service_error e"

lemma exec_no_client_error:
  assumes "service_fault f"
  shows "no_client_error (err_of (fst (exec f stmt s))) s (snd (exec f stmt s))"
  using assms
  by (auto simp: exec_def no_client_error_def service_fault_def split: sum.splits option.splits)

lemma writes_no_client_error:
  assumes "service_fault f"
  shows "no_client_error (fst (repo_Create f n d)) d (snd (repo_Create f n d))"
    and "no_client_error (err_of (fst (repo_CancelByBatchID f now b d))) d
           (snd (repo_CancelByBatchID f now b d))"
    and "no_client_error (fst (trepo_Create f t d)) d (snd (trepo_Create f t d))"
    and "no_client_error (fst (trepo_Update f now t d)) d (snd (snd (trepo_Update f now t d)))"
    and "no_client_error (fst (trepo_Delete f now k d)) d (snd (trepo_Delete f now k d))"
  using exec_no_client_error [OF assms]
  by (simp_all add: repo_Create_def repo_CancelByBatchID_def trepo_Create_def trepo_Update_def
      trepo_Delete_def Let_def split_beta)

lemma CreateBatch_no_client_error:
  assumes "service_fault f1" "service_fault f2" "service_fault f3"
  shows "no_client_error (fst (repo_CreateBatch f1 f2 f3 ns d)) d (snd (repo_CreateBatch f1 f2 f3 ns d))"
  using assms
  by (auto simp: repo_CreateBatch_def exec_def no_client_error_def service_fault_def
      split: option.split sum.split)

lemma cancel_none: "cancel_where P now d = Inr (0, d') \<Longrightarrow> d' = d"
  by (auto simp: cancel_where_def Let_def change_rows_def selected_def filter_empty_conv
      intro!: db.equality map_idI)

lemma CancelByID_no_client_error:
  assumes "service_fault f1"
  shows "no_client_error (fst (repo_CancelByID f1 f2 now k d)) d (snd (repo_CancelByID f1 f2 now k d))"
  using assms
  by (auto simp: repo_CancelByID_def exec_def no_client_error_def service_fault_def Let_def
      split: option.splits sum.splits dest: cancel_none)


definition sound_answer :: "world \<Rightarrow> response \<Rightarrow> world \<Rightarrow> bool" where
  "sound_answer w r w' \<longleftrightarrow>
     StatusCode r \<in> {200, 201, 202, 400, 404, 409, 500, 503} \<and>
     (400 \<le> StatusCode r \<and> StatusCode r < 500 \<longrightarrow> w' = w)"

lemma sound_answer_same [simp]:
  "StatusCode r \<in> {200, 201, 202, 400, 404, 409, 500, 503} \<Longrightarrow> sound_answer w r w"
  by (simp add: sound_answer_def)

lemma sound_answer_error_same [simp]: "sound_answer w (writeError e) w"
  using writeError_statuses [of e] by (auto simp: sound_answer_def)

lemma sound_answer_ok [simp]: "c \<in> {200, 201, 202} \<Longrightarrow> sound_answer w (writeJSON c v) w'"
  by (auto simp: sound_answer_def)

lemma sound_answer_error:
  "no_client_error (Some e) (wdb w) d \<Longrightarrow> sound_answer w (writeError e) (w\<lparr>wdb := d\<rparr>)"
  by (auto simp: no_client_error_def) (simp add: sound_answer_def)

lemma sound_Create:
  assumes "service_fault (c_insert env)"
  shows "sound_answer w (fst (api_Create lib svc env b w)) (snd (api_Create lib svc env b w))"
proof -
  have "sound_answer w (writeError e) w'" if c: "Create lib svc env req w = (Inl e, w')" for req e w'
  proof (cases rule: Create_cases [of lib svc env req w])
    case (3 q e' d)
    with c writes_no_client_error(1) [OF assms, of "requested env q" "wdb w"]
    show ?thesis by (auto intro: sound_answer_error)
  qed (use c in auto)
  then show ?thesis
    by (auto simp: api_Create_def split: sum.split prod.split)
qed

lemma sound_CreateBatch:
  assumes "service_fault (b_begin env)" "service_fault (b_send env)" "service_fault (b_commit env)"
  shows "sound_answer w (fst (api_CreateBatch lib env b w)) (snd (api_CreateBatch lib env b w))"
proof -
  have "sound_answer w (writeError e) w'" if "CreateBatch lib env reqs w = (Inl e, w')" for reqs e w'
    using that CreateBatch_no_client_error [OF assms, of _ "wdb w"]
    by (auto simp: CreateBatch_def Let_def split: if_splits prod.splits option.splits
        intro!: sound_answer_error) (metis fst_conv snd_conv)+
  then show ?thesis
    by (auto simp: api_CreateBatch_def split: sum.split prod.split)
qed

lemma sound_Cancel:
  assumes "service_fault (k_update env)"
  shows "sound_answer w (fst (api_Cancel lib env p w)) (snd (api_Cancel lib env p w))"
  using CancelByID_no_client_error [OF assms, of "k_exists env" "k_updated env" _ "wdb w"]
  by (auto simp: api_Cancel_def Cancel_def split: sum.split prod.split option.split
      intro!: sound_answer_error) (metis fst_conv snd_conv)

lemma sound_CancelBatch:
  assumes "service_fault f"
  shows "sound_answer w (fst (api_CancelBatch lib f now p w)) (snd (api_CancelBatch lib f now p w))"
  using writes_no_client_error(2) [OF assms, of now _ "wdb w"]
  by (auto simp: api_CancelBatch_def CancelBatch_def split: sum.split prod.split
      intro!: sound_answer_error) (metis err_of_simps(1) fst_conv snd_conv)

lemma sound_CreateTemplate:
  assumes "service_fault f"
  shows "sound_answer w (fst (api_CreateTemplate eng f uid now b w))
           (snd (api_CreateTemplate eng f uid now b w))"
  using writes_no_client_error(3) [OF assms, of _ "wdb w"]
  by (auto simp: api_CreateTemplate_def tsvc_Create_def Let_def split: sum.split prod.split option.split
      intro!: sound_answer_error) (metis fst_conv snd_conv)+

lemma sound_UpdateTemplate:
  assumes "service_fault f2"
  shows "sound_answer w (fst (api_UpdateTemplate lib eng f1 f2 now p b w))
           (snd (api_UpdateTemplate lib eng f1 f2 now p b w))"
  using writes_no_client_error(4) [OF assms, of now _ "wdb w"]
  by (auto simp: api_UpdateTemplate_def tsvc_Update_def split: sum.split prod.split option.split
      intro!: sound_answer_error) (metis fst_conv snd_conv)+

lemma sound_DeleteTemplate:
  assumes "service_fault f"
  shows "sound_answer w (fst (api_DeleteTemplate lib f now p w)) (snd (api_DeleteTemplate lib f now p w))"
  using writes_no_client_error(5) [OF assms, of now _ "wdb w"]
  by (auto simp: api_DeleteTemplate_def split: sum.split prod.split option.split
      intro!: sound_answer_error) (metis fst_conv snd_conv)


lemma sound_serve:
  assumes "service_faults env" "serve lib eng env ep w = (Ret r, w')"
  shows "sound_answer w r w'"
proof (cases ep)
  case (PostNotification b)
  with assms sound_Create [of "a_create env" w lib "Some eng" b] show ?thesis
    by (auto simp: service_faults_def apfst_def map_prod_def split_beta)
next
  case (PostBatch b)
  with assms sound_CreateBatch [of "a_batch env" w lib b] show ?thesis
    by (auto simp: service_faults_def apfst_def map_prod_def split_beta)
next
  case (PatchCancel p)
  with assms sound_Cancel [of "a_cancel env" w lib p] show ?thesis
    by (auto simp: service_faults_def apfst_def map_prod_def split_beta)
next
  case (PatchCancelBatch p)
  with assms sound_CancelBatch [of "a_first env" w lib "a_now env" p] show ?thesis
    by (auto simp: service_faults_def apfst_def map_prod_def split_beta)
next
  case (PostTemplate b)
  with assms sound_CreateTemplate [of "a_first env" w eng "a_id env" "a_now env" b] show ?thesis
    by (auto simp: service_faults_def apfst_def map_prod_def split_beta)
next
  case (PutTemplate p b)
  with assms sound_UpdateTemplate [of "a_second env" w lib eng "a_first env" "a_now env" p b] show ?thesis
    by (auto simp: service_faults_def apfst_def map_prod_def split_beta)
next
  case (DeleteTemplate p)
  with assms sound_DeleteTemplate [of "a_first env" w lib "a_now env" p] show ?thesis
    by (auto simp: service_faults_def apfst_def map_prod_def split_beta)
qed (use assms in \<open>auto simp: api_List_def api_GetByID_def api_GetByBatchID_def
    api_ListTemplates_def api_GetTemplate_def api_Preview_def health_Check_def metrics_Handle_def
    Let_def split: sum.splits prod.splits if_splits\<close>)

text \<open>
  C33. Whatever is requested and whatever fails, the API answers, with the request's
  identifier and one of eight statuses; and an answer that blames the client (4xx) means that
  nothing was changed, in the database, in Redis or in the published events.
\<close>

theorem client_errors_change_nothing:
  assumes "service_faults env"
  shows "\<exists>resp w' ls'. api_chain fresh (handle (serve lib eng env ep)) r (w, ls) = (Ret resp, w', ls') \<and>
     requestIDHeader resp = (if XRequestID r = [] then fresh else XRequestID r) \<and>
     StatusCode resp \<in> {200, 201, 202, 400, 404, 409, 500, 503} \<and>
     (400 \<le> StatusCode resp \<and> StatusCode resp < 500 \<longrightarrow> w' = w)"
proof (cases "serve lib eng env ep w")
  case (Pair a w')
  then show ?thesis
    using sound_serve [OF assms, of lib eng ep w]
    by (cases a) (auto simp: api_chain_def RequestID_def Recovery_def Logging_def Tracing_def
        handle_def Let_def sound_answer_def)
qed

text \<open>
  Listing templates with a page size of 0 divides by zero: the answer is the 500 of the
  recovered panic, the panic is logged but the request has no line in the access log, and its
  span ends without a status.
\<close>

theorem template_list_zero_page_size:
  assumes "query_int q ''page_size'' 20 = 0"
    and "trepo_List (a_first env) (a_second env) (query_int q ''page'' 1) 0 (wdb w) = Inr res"
  shows "\<exists>rid name. api_chain fresh (handle (serve lib eng env (GetTemplates q))) r (w, ls) =
     (Ret \<lparr>StatusCode = 500, Body = PlainBody panic_text, requestIDHeader = rid\<rparr>, w,
      ls @ [SpanEnd name rid None, PanicRecovered rid])"
  using assms
  by (auto simp: api_chain_def RequestID_def Recovery_def Logging_def Tracing_def handle_def
      Let_def api_ListTemplates_def GetRequestID_def split: prod.split)

text \<open>
  A page size above 100 is not what the repository uses: it gives 20 templates, and the answer
  counts the pages by the size that was asked for, so its last pages are out of reach.
\<close>

lemma template_list_large_page:
  assumes "query_int q ''page_size'' 20 = s" "100 < s"
    and "api_ListTemplates f1 f2 q w = Ret r" "StatusCode r = 200"
  shows "\<exists>ts p k. Body r = TemplatesBody ts p s k (total_pages k s) \<and> length ts \<le> 20"
  using assms
  by (auto simp: api_ListTemplates_def trepo_List_def page_defaults_def Let_def writeJSON_def
      writeError_def page_of_def split: sum.splits prod.splits if_splits dest!: query_Inr)


text \<open>Every request is an action of the system, or changes nothing.\<close>

lemma serve_step:
  "snd (serve lib eng env ep w) = w \<or> step lib eng cfg lmt w (snd (serve lib eng env ep w))"
proof (cases ep)
  case (PostNotification b)
  have "snd (api_Create lib (Some eng) (a_create env) b w) = w \<or>
      (\<exists>req. snd (api_Create lib (Some eng) (a_create env) b w) =
        snd (Create lib (Some eng) (a_create env) req w))"
    by (auto simp: api_Create_def split: sum.split prod.split) (metis snd_conv)+
  with PostNotification show ?thesis by (auto intro: create)
next
  case (PostBatch b)
  have "snd (api_CreateBatch lib (a_batch env) b w) = w \<or>
      (\<exists>reqs. snd (api_CreateBatch lib (a_batch env) b w) = snd (CreateBatch lib (a_batch env) reqs w))"
    by (auto simp: api_CreateBatch_def split: sum.split prod.split) (metis snd_conv)+
  with PostBatch show ?thesis by (auto intro: create_batch)
next
  case (PatchCancel p)
  have "snd (api_Cancel lib (a_cancel env) p w) = w \<or>
      (\<exists>k. snd (api_Cancel lib (a_cancel env) p w) = snd (Cancel lib (a_cancel env) k w))"
    by (auto simp: api_Cancel_def split: sum.split prod.split option.split) (metis snd_conv)+
  with PatchCancel show ?thesis by (auto intro: cancel)
next
  case (PatchCancelBatch p)
  have "snd (api_CancelBatch lib (a_first env) (a_now env) p w) = w \<or>
      (\<exists>b. snd (api_CancelBatch lib (a_first env) (a_now env) p w) =
        snd (CancelBatch (a_first env) (a_now env) b w))"
    by (auto simp: api_CancelBatch_def split: sum.split prod.split) (metis snd_conv)+
  with PatchCancelBatch show ?thesis by (auto intro: cancel_batch)
next
  case (PostTemplate b)
  have "snd (api_CreateTemplate eng (a_first env) (a_id env) (a_now env) b w) = w \<or>
      (\<exists>req. snd (api_CreateTemplate eng (a_first env) (a_id env) (a_now env) b w) =
        w\<lparr>wdb := snd (tsvc_Create eng (a_first env) (a_id env) (a_now env) req (wdb w))\<rparr>)"
    by (auto simp: api_CreateTemplate_def split: sum.split prod.split) (metis snd_conv)+
  with PostTemplate show ?thesis by (auto intro: template_create)
next
  case (PutTemplate p b)
  have "snd (api_UpdateTemplate lib eng (a_first env) (a_second env) (a_now env) p b w) = w \<or>
      (\<exists>k req. snd (api_UpdateTemplate lib eng (a_first env) (a_second env) (a_now env) p b w) =
        w\<lparr>wdb := snd (tsvc_Update eng (a_first env) (a_second env) (a_now env) k req (wdb w))\<rparr>)"
    by (auto simp: api_UpdateTemplate_def split: sum.split prod.split) (metis snd_conv)+
  with PutTemplate show ?thesis by (auto intro: template_update)
next
  case (DeleteTemplate p)
  have "snd (api_DeleteTemplate lib (a_first env) (a_now env) p w) = w \<or>
      (\<exists>k. snd (api_DeleteTemplate lib (a_first env) (a_now env) p w) =
        w\<lparr>wdb := snd (trepo_Delete (a_first env) (a_now env) k (wdb w))\<rparr>)"
    by (auto simp: api_DeleteTemplate_def split: sum.split prod.split option.split) (metis snd_conv)+
  with DeleteTemplate show ?thesis by (auto intro: template_delete)
qed simp_all

section \<open>Sample requests\<close>

definition sample_api :: Api_Env where
  "sample_api =
     \<lparr>a_create = sample_create 9,
      a_batch = \<lparr>b_id = 20, b_ids = (\<lambda>i. 21 + of_nat i), b_created = (\<lambda>_. 7000), b_checked = (\<lambda>_. 7000),
        b_begin = None, b_send = None, b_commit = None, b_enqueue = None, b_enqueued = (\<lambda>_. 8000)\<rparr>,
      a_cancel = \<lparr>k_update = Some (Text ''connection reset'', 1), k_exists = None, k_updated = 7000,
        k_event = 7000\<rparr>,
      a_first = None, a_second = None, a_id = 30, a_now = 7000, a_db_ping = None, a_redis_ping = None,
      a_depth = (\<lambda>_. None), a_get = (\<lambda>_. None), a_parse_time = (\<lambda>_. None)\<rparr>"

definition sample_http :: http_request where
  "sample_http = \<lparr>Method = ''POST'', URLPath = ''/api/v1/notifications/'', XRequestID = ''r1'',
     request_id = None\<rparr>"

lemma sample_api_faults: "service_faults sample_api"
  by (simp add: service_faults_def service_fault_def sample_api_def)

text \<open>A notification with empty content is refused with a 400 and leaves no trace.\<close>

theorem client_errors_change_nothing_witness:
  "\<exists>resp ls. api_chain ''u'' (handle (serve sample_lib sample_engine sample_api
       (PostNotification (Inr (sample_request []))))) sample_http (start_world, []) =
     (Ret resp, start_world, ls) \<and> StatusCode resp = 400 \<and> requestIDHeader resp = ''r1''"
proof -
  let ?ep = "PostNotification (Inr (sample_request []))"
  let ?s = "fst (api_chain ''u'' (handle (serve sample_lib sample_engine sample_api ?ep))
     sample_http (start_world, []))"
  have st: "(case ?s of Ret r \<Rightarrow> StatusCode r | Panic \<Rightarrow> 0) = 400"
    by code_simp
  have rid: "XRequestID sample_http = ''r1''" by (simp add: sample_http_def)
  from client_errors_change_nothing [OF sample_api_faults, of "''u''" sample_lib sample_engine ?ep
      sample_http start_world "[]"] st rid
  show ?thesis by auto
qed

theorem template_list_zero_page_size_witness:
  "\<exists>rid name. api_chain ''u'' (handle (serve sample_lib sample_engine sample_api
       (GetTemplates (\<lambda>k. if k = ''page_size'' then ''0'' else [])))) sample_http (template_world, []) =
     (Ret \<lparr>StatusCode = 500, Body = PlainBody panic_text, requestIDHeader = rid\<rparr>, template_world,
      [] @ [SpanEnd name rid None, PanicRecovered rid])"
proof (rule template_list_zero_page_size)
  let ?q = "\<lambda>k. if k = ''page_size'' then ''0'' else []"
  show "query_int ?q ''page_size'' 20 = 0" by code_simp
  show "trepo_List (a_first sample_api) (a_second sample_api) (query_int ?q ''page'' 1) 0
      (wdb template_world) = Inr ([sample_template], 1)" by code_simp
qed

end
