(* ===== verification/Config.thy ===== *)
theory Config
  imports Message_Codec "HOL-Library.Signed_Division"
begin

text \<open>
  \<open>internal/config/config.go\<close>: the configuration's records, what \<open>Load\<close> tells the library
  \<open>viper\<close> before it asks it for the configuration, and the data source name of the database.
  What \<open>viper\<close> makes of the file, the environment and the defaults is a parameter.
\<close>

section \<open>The records\<close>

record ServerConfig =
  SvPort :: int
  ReadTimeout :: int
  WriteTimeout :: int
  ShutdownTimeout :: int

record DatabaseConfig =
  DbHost :: string
  DbPort :: int
  DbUser :: string
  DbPassword :: string
  DbName :: string
  SSLMode :: string
  MaxConns :: int

record RedisConfig =
  RdAddr :: string
  RdPassword :: string
  RdDB :: int

record ProviderConfig =
  WebhookURL :: string
  PvTimeout :: int

record WorkerConfig =
  Concurrency :: int
  PollInterval :: int
  RateLimitPerSec :: int
  WkMaxRetries :: int
  RetryBaseDelay :: int
  RetryMaxDelay :: int
  SchedulerInterval :: int

record TracingConfig =
  TrEnabled :: bool
  TrEndpoint :: string

record Config =
  CServer :: ServerConfig
  CDatabase :: DatabaseConfig
  CRedis :: RedisConfig
  CProvider :: ProviderConfig
  CWorker :: WorkerConfig
  CTracing :: TracingConfig

section \<open>Loading\<close>

datatype setting = SInt int | SText string | SBool bool

record viper =
  config_name :: string
  config_type :: string
  config_paths :: "string list"
  setting_defaults :: "(string \<times> setting) list"
  env_prefix :: string
  automatic_env :: bool
  env_bindings :: "(string \<times> string) list"

definition default_settings :: "(string \<times> setting) list" where
  "default_settings =
     [(''server.port'', SInt 8080), (''server.read_timeout'', SText ''15s''),
      (''server.write_timeout'', SText ''15s''), (''server.shutdown_timeout'', SText ''30s''),
      (''database.host'', SText ''localhost''), (''database.port'', SInt 5432),
      (''database.user'', SText ''postgres''), (''database.name'', SText ''notifications''),
      (''database.ssl_mode'', SText ''disable''), (''database.max_conns'', SInt 25),
      (''redis.addr'', SText ''localhost:6379''), (''redis.db'', SInt 0),
      (''provider.timeout'', SText ''10s''), (''worker.concurrency'', SInt 5),
      (''worker.poll_interval'', SText ''100ms''), (''worker.rate_limit_per_sec'', SInt 100),
      (''worker.max_retries'', SInt 3), (''worker.retry_base_delay'', SText ''1s''),
      (''worker.retry_max_delay'', SText ''5m''), (''worker.scheduler_interval'', SText ''5s''),
      (''tracing.enabled'', SBool True), (''tracing.endpoint'', SText ''localhost:4318'')]"

definition bindEnvs :: "(string \<times> string) list" where
  "bindEnvs =
     [(''server.port'', ''NOTIFY_SERVER_PORT''), (''database.host'', ''NOTIFY_DB_HOST''),
      (''database.port'', ''NOTIFY_DB_PORT''), (''database.user'', ''NOTIFY_DB_USER''),
      (''database.password'', ''NOTIFY_DB_PASSWORD''), (''database.name'', ''NOTIFY_DB_NAME''),
      (''database.ssl_mode'', ''NOTIFY_DB_SSL_MODE''), (''database.max_conns'', ''NOTIFY_DB_MAX_CONNS''),
      (''redis.addr'', ''NOTIFY_REDIS_ADDR''), (''redis.password'', ''NOTIFY_REDIS_PASSWORD''),
      (''provider.webhook_url'', ''NOTIFY_PROVIDER_WEBHOOK_URL''),
      (''provider.timeout'', ''NOTIFY_PROVIDER_TIMEOUT''),
      (''worker.concurrency'', ''NOTIFY_WORKER_CONCURRENCY''),
      (''worker.rate_limit_per_sec'', ''NOTIFY_WORKER_RATE_LIMIT''),
      (''worker.max_retries'', ''NOTIFY_WORKER_MAX_RETRIES''),
      (''tracing.enabled'', ''NOTIFY_TRACING_ENABLED''),
      (''tracing.endpoint'', ''NOTIFY_TRACING_ENDPOINT'')]"

text \<open>The order in which the bindings are made is that of a Go map, and does not matter.\<close>

definition load_setup :: viper where
  "load_setup =
     \<lparr>config_name = ''config'', config_type = ''yaml'', config_paths = [''.'', ''./config''],
      setting_defaults = default_settings, env_prefix = ''NOTIFY'', automatic_env = True,
      env_bindings = bindEnvs\<rparr>"

definition Load :: "(viper \<Rightarrow> err + Config) \<Rightarrow> err + Config" where
  "Load unmarshal = (case unmarshal load_setup of Inl e \<Rightarrow> Inl e | Inr cfg \<Rightarrow> Inr cfg)"

text \<open>The keys of the fields, by their tags.\<close>

definition config_keys :: "string list" where
  "config_keys =
     map ((@) ''server.'') [''port'', ''read_timeout'', ''write_timeout'', ''shutdown_timeout''] @
     map ((@) ''database.'') [''host'', ''port'', ''user'', ''password'', ''name'', ''ssl_mode'', ''max_conns''] @
     map ((@) ''redis.'') [''addr'', ''password'', ''db''] @
     map ((@) ''provider.'') [''webhook_url'', ''timeout''] @
     map ((@) ''worker.'') [''concurrency'', ''poll_interval'', ''rate_limit_per_sec'', ''max_retries'',
       ''retry_base_delay'', ''retry_max_delay'', ''scheduler_interval''] @
     map ((@) ''tracing.'') [''enabled'', ''endpoint'']"

text \<open>
  Every default and every binding is for a field, and no key or variable is bound twice. The
  fields without a default are the passwords and the webhook's address; the retry delays have
  no variable of their own.
\<close>

lemma settings_are_fields:
  "list_all (\<lambda>k. k \<in> set config_keys) (map fst default_settings @ map fst bindEnvs)"
  "distinct (map fst default_settings)" "distinct (map fst bindEnvs)" "distinct (map snd bindEnvs)"
  by code_simp+

lemma no_default:
  "filter (\<lambda>k. k \<notin> set (map fst default_settings)) config_keys =
     [''database.password'', ''redis.password'', ''provider.webhook_url'']"
  by code_simp

lemma retry_delays_unbound:
  "''worker.retry_base_delay'' \<notin> set (map fst bindEnvs)"
  "''worker.retry_max_delay'' \<notin> set (map fst bindEnvs)"
  by code_simp+

section \<open>The data source name\<close>

function int_digits :: "int \<Rightarrow> string \<Rightarrow> string" where
  "int_digits n s =
     (if n > 0 then int_digits (n sdiv 10) (char_of (nat (48 + n smod 10)) # s) else s)"
  by pat_completeness auto
termination
  by (relation "measure (\<lambda>(n, _). nat n)") (auto simp: signed_divide_int_def)

declare int_digits.simps [simp del]

definition intToStr :: "int \<Rightarrow> string" where
  "intToStr n = (if n = 0 then ''0'' else int_digits n [])"

definition DSN :: "DatabaseConfig \<Rightarrow> string" where
  "DSN d = ''postgres://'' @ DbUser d @ '':'' @ DbPassword d @ ''@'' @ DbHost d @ '':'' @
     intToStr (DbPort d) @ ''/'' @ DbName d @ ''?sslmode='' @ SSLMode d"

lemma int_digits_nat: "0 < n \<Longrightarrow> int_digits (int n) s = nat_string n @ s"
proof (induction n arbitrary: s rule: nat_string.induct)
  case (1 n)
  have step: "int_digits (int n) s = int_digits (int (n div 10)) (char_of (48 + n mod 10) # s)"
    using 1(2) by (subst int_digits.simps)
      (simp add: signed_divide_int_def signed_modulo_int_def zdiv_int nat_add_distrib nat_mod_distrib)
  show ?case
  proof (cases "n < 10")
    case True
    then have "int_digits (int (n div 10)) (char_of (48 + n mod 10) # s) = char_of (48 + n mod 10) # s"
      by (subst int_digits.simps) simp
    with step True show ?thesis by (simp add: nat_string.simps [of n])
  next
    case False
    then have "0 < n div 10" by simp
    with 1(1) [OF False] step False show ?thesis by (simp add: nat_string.simps [of n])
  qed
qed

text \<open>
  \<open>intToStr\<close> ends for every number. A number from 0 up is written as its decimal digits,
  a negative one as the empty text.
\<close>

theorem intToStr_decimal:
  "intToStr n = (if n < 0 then [] else nat_string (nat n))"
proof (cases "n > 0")
  case True
  then show ?thesis using int_digits_nat [of "nat n" "[]"] by (simp add: intToStr_def)
next
  case False
  moreover have "CHR ''0'' = char_of (48 :: nat)" by code_simp
  ultimately show ?thesis
    by (auto simp: intToStr_def int_digits.simps [of n] nat_string.simps [of 0])
qed

text \<open>Nothing is escaped: different credentials can give the same name.\<close>

lemma DSN_ambiguous:
  assumes "DbUser d = ''a'' @ '':'' @ ''b''" "DbPassword d = ''c''"
  shows "DSN d = DSN (d\<lparr>DbUser := ''a'', DbPassword := ''b'' @ '':'' @ ''c''\<rparr>)"
  using assms by (simp add: DSN_def)

end
