(* ===== verification/Webhook.thy ===== *)
theory Webhook
  imports Delivery
begin

text \<open>
  \<open>internal/adapter/provider/webhook.go\<close>: the provider that \<open>Process\<close> sends with. What the
  network and the provider answer is a parameter, with the encoding and decoding of its JSON.
\<close>

section \<open>Timestamps\<close>

text \<open>The civil date of a number of days since 1970-01-01, and a time as RFC 3339 writes it.\<close>

definition civil :: "int \<Rightarrow> int \<times> int \<times> int" where
  "civil days =
     (let z = days + 719468; era = z div 146097; doe = z mod 146097;
          yoe = (doe - doe div 1460 + doe div 36524 - doe div 146096) div 365;
          doy = doe - (365 * yoe + yoe div 4 - yoe div 100);
          mp = (5 * doy + 2) div 153;
          day = doy - (153 * mp + 2) div 5 + 1;
          month = (if mp < 10 then mp + 3 else mp - 9)
      in (yoe + era * 400 + (if month \<le> 2 then 1 else 0), month, day))"

definition padded :: "nat \<Rightarrow> int \<Rightarrow> string" where
  "padded k i = (let s = nat_string (nat i) in replicate (k - length s) CHR ''0'' @ s)"

definition format_RFC3339 :: "time \<Rightarrow> string" where
  "format_RFC3339 t =
     (let secs = t div Second; (y, m, d) = civil (secs div 86400); sod = secs mod 86400
      in padded 4 y @ ''-'' @ padded 2 m @ ''-'' @ padded 2 d @ ''T'' @ padded 2 (sod div 3600) @ '':'' @
         padded 2 (sod div 60 mod 60) @ '':'' @ padded 2 (sod mod 60) @ ''Z'')"

lemma format_examples:
  "format_RFC3339 0 = ''1970-01-01T00:00:00Z''"
  "format_RFC3339 (951782399 * Second) = ''2000-02-28T23:59:59Z''"
  "format_RFC3339 (951868799 * Second + 7) = ''2000-02-29T23:59:59Z''"
  "format_RFC3339 (1767225600 * Second) = ''2026-01-01T00:00:00Z''"
  by code_simp+

section \<open>Sending\<close>

record WebhookProvider =
  wp_url :: string
  wp_timeout :: duration

definition NewWebhookProvider :: "string \<Rightarrow> duration \<Rightarrow> WebhookProvider" where
  "NewWebhookProvider webhookURL timeout = \<lparr>wp_url = webhookURL, wp_timeout = timeout\<rparr>"

record web_request =
  WMethod :: string
  WURL :: string
  WContentType :: string
  WBody :: string

record http_reply =
  ReplyStatus :: int
  ReplyBody :: "err + string"

text \<open>
  The client of the standard library: \<open>h_NewRequest\<close> refuses a method or a URL, \<open>h_Do\<close> gets the
  client's timeout and the request.
\<close>

record http_client =
  h_Marshal :: "SendRequest \<Rightarrow> err + string"
  h_NewRequest :: "string \<Rightarrow> string \<Rightarrow> err option"
  h_Do :: "duration \<Rightarrow> web_request \<Rightarrow> err + http_reply"
  h_Unmarshal :: "string \<Rightarrow> err + SendResponse"

definition wrapped :: "string \<Rightarrow> err \<Rightarrow> err" where
  "wrapped what e = Wrap (what @ '': '') e []"

definition web_request :: "WebhookProvider \<Rightarrow> string \<Rightarrow> web_request" where
  "web_request p body = \<lparr>WMethod = ''POST'', WURL = wp_url p, WContentType = ''application/json'',
     WBody = body\<rparr>"

definition Send :: "http_client \<Rightarrow> WebhookProvider \<Rightarrow> time \<Rightarrow> SendRequest \<Rightarrow> err + SendResponse" where
  "Send http p now req =
     (case h_Marshal http req of
        Inl e \<Rightarrow> Inl (wrapped ''marshal request'' e)
      | Inr body \<Rightarrow>
          (case h_NewRequest http ''POST'' (wp_url p) of
             Some e \<Rightarrow> Inl (wrapped ''create request'' e)
           | None \<Rightarrow>
               (case h_Do http (wp_timeout p) (web_request p body) of
                  Inl e \<Rightarrow> Inl (wrapped ''send request'' e)
                | Inr resp \<Rightarrow>
                    (case ReplyBody resp of
                       Inl e \<Rightarrow> Inl (wrapped ''read response'' e)
                     | Inr respBody \<Rightarrow>
                         if ReplyStatus resp < 200 \<or> ReplyStatus resp \<ge> 300
                         then Inl (Text (''provider returned status '' @ int_string (ReplyStatus resp) @
                                '': '' @ respBody))
                         else
                           (case h_Unmarshal http respBody of
                              Inl _ \<Rightarrow> Inr \<lparr>MessageID = [], RStatus = ''accepted'',
                                 RTimestamp = format_RFC3339 now\<rparr>
                            | Inr sendResp \<Rightarrow> Inr sendResp)))))"

text \<open>The provider as \<open>Process\<close> sees it: never a nil response without an error.\<close>

definition webhook :: "http_client \<Rightarrow> WebhookProvider \<Rightarrow> time \<Rightarrow> SendRequest \<Rightarrow> err + SendResponse option" where
  "webhook http p now req = (case Send http p now req of Inl e \<Rightarrow> Inl e | Inr r \<Rightarrow> Inr (Some r))"

text \<open>
  What \<open>Process\<close> may expect of its port \<open>DeliveryProvider\<close>: no error means a response. Then what
  it records as sent carries the provider's identifier; \<open>Process\<close> itself also copes with a
  response that is missing.
\<close>

locale delivery_provider =
  fixes send :: "SendRequest \<Rightarrow> err + SendResponse option"
  assumes answered: "send req = Inr r \<Longrightarrow> r \<noteq> None"
begin

lemma accepted_is_named:
  assumes "send_and_record lib cfg env breaker n w = (None, w')" "p_send env = send"
  obtains r where "send (send_request n) = Inr (Some r)"
    "\<And>uid now dur. AProviderMsgID (delivery_attempt uid now dur (send (send_request n)) n) =
       Some (MessageID r)"
proof -
  obtain r where "send (send_request n) = Inr r"
    using assms by (cases "send (send_request n)") (auto simp: send_and_record_def Let_def split_beta)
  with answered [OF this] that show ?thesis by (auto simp: delivery_attempt_def)
qed

end

interpretation webhook_provider: delivery_provider "webhook http p now"
  by unfold_locales (auto simp: webhook_def split: sum.splits)

text \<open>
  Sending succeeds exactly if an answer with a 2xx status was read, whatever its body; the
  answer's identifier is empty if the body is not the provider's JSON.
\<close>

lemma Send_succeeds:
  "(\<exists>r. Send http p now req = Inr r) \<longleftrightarrow>
     (\<exists>body resp text. h_Marshal http req = Inr body \<and> h_NewRequest http ''POST'' (wp_url p) = None \<and>
        h_Do http (wp_timeout p) (web_request p body) = Inr resp \<and> ReplyBody resp = Inr text \<and>
        200 \<le> ReplyStatus resp \<and> ReplyStatus resp < 300)"
  by (auto simp: Send_def split: sum.split option.split)

text \<open>A refusal's body becomes the error's text as it is, legal for the database or not.\<close>

lemma ascii_append: "ascii (s @ t) \<longleftrightarrow> ascii s \<and> ascii t"
  by (simp add: ascii_def)

lemma text_ok_ascii_append: "ascii s \<Longrightarrow> text_ok (s @ t) = text_ok t"
  by (induction s) (auto simp: ascii_def text_ok_def text_length_def split: option.split)

lemma ascii_digits: "list_all is_digit s \<Longrightarrow> ascii s"
  by (auto simp: ascii_def is_digit_def list_all_iff)

lemma ascii_int_string: "ascii (int_string i)"
  using ascii_digits [of "nat_string (nat i)"] ascii_digits [of "nat_string (nat (- i))"]
    nat_string_digits [of "nat i"] nat_string_digits [of "nat (- i)"]
  by (simp add: int_string_def) (simp add: ascii_def)

lemma Send_refused_text:
  assumes "h_Marshal http req = Inr body" "h_NewRequest http ''POST'' (wp_url p) = None"
    and "h_Do http (wp_timeout p) (web_request p body) = Inr resp" "ReplyBody resp = Inr text"
    and "ReplyStatus resp < 200 \<or> 300 \<le> ReplyStatus resp"
  obtains e where "Send http p now req = Inl e" "text_ok (err_Error e) = text_ok text"
proof
  let ?pre = "''provider returned status '' @ int_string (ReplyStatus resp) @ '': ''"
  show "Send http p now req = Inl (Text (?pre @ text))"
    using assms by (auto simp: Send_def)
  have "ascii ''provider returned status ''" "ascii '': ''" by code_simp+
  then have "ascii ?pre" by (simp add: ascii_append ascii_int_string del: append.simps)
  from text_ok_ascii_append [OF this] show "text_ok (err_Error (Text (?pre @ text))) = text_ok text"
    by simp
qed

end
