(* ===== verification/Cache.thy ===== *)
theory Cache
  imports Go_Runtime Domain
begin

text \<open>
  \<open>internal/port/cache.go\<close> and \<open>internal/adapter/cache/redis.go\<close>: a cache of texts with times
  to live. The interface is a locale, with the lock that \<open>SetNX\<close> is meant for proved in it;
  the Redis cache provides it. The programs create the cache and do not use it yet.
\<close>

section \<open>The interface\<close>

locale cache_port =
  fixes get :: "int \<Rightarrow> string \<Rightarrow> 's \<Rightarrow> string"
    and put :: "int \<Rightarrow> string \<Rightarrow> string \<Rightarrow> duration \<Rightarrow> 's \<Rightarrow> 's"
    and setnx :: "int \<Rightarrow> string \<Rightarrow> string \<Rightarrow> duration \<Rightarrow> 's \<Rightarrow> bool \<times> 's"
    and delete :: "string \<Rightarrow> 's \<Rightarrow> 's"
    and exists :: "int \<Rightarrow> string \<Rightarrow> 's \<Rightarrow> bool"
    and alive :: "duration \<Rightarrow> int \<Rightarrow> int \<Rightarrow> bool"
  assumes get_absent: "\<not> exists t k c \<Longrightarrow> get t k c = []"
    and get_set: "0 \<le> ttl \<Longrightarrow> alive ttl s t \<Longrightarrow> get t k (put s k v ttl c) = v"
    and exists_set: "0 \<le> ttl \<Longrightarrow> exists t k (put s k v ttl c) \<longleftrightarrow> alive ttl s t"
    and get_set_other: "k' \<noteq> k \<Longrightarrow> get t k' (put s k v ttl c) = get t k' c"
    and exists_set_other: "k' \<noteq> k \<Longrightarrow> exists t k' (put s k v ttl c) = exists t k' c"
    and exists_delete: "exists t k' (delete k c) \<longleftrightarrow> k' \<noteq> k \<and> exists t k' c"
    and get_delete_other: "k' \<noteq> k \<Longrightarrow> get t k' (delete k c) = get t k' c"
    and setnx_free: "\<not> exists s k c \<Longrightarrow> setnx s k v ttl c = (True, put s k v ttl c)"
    and setnx_taken: "exists s k c \<Longrightarrow> setnx s k v ttl c = (False, c)"
begin

text \<open>While a lock is alive nobody else gets it, and it holds its owner's value.\<close>

lemma lock_held:
  assumes "setnx s k v ttl c = (True, c')" "0 \<le> ttl" "alive ttl s t"
  shows "setnx t k v' ttl' c' = (False, c')" "get t k c' = v"
proof -
  have "\<not> exists s k c" using assms(1) setnx_taken [of s k c v ttl] by auto
  with assms(1) have c': "c' = put s k v ttl c" using setnx_free [of s k c v ttl] by simp
  show "setnx t k v' ttl' c' = (False, c')"
    using assms(2,3) by (intro setnx_taken) (simp add: c' exists_set)
  show "get t k c' = v" using assms(2,3) by (simp add: c' get_set)
qed

text \<open>It is free again once it is deleted or has expired.\<close>

lemma lock_released:
  "fst (setnx t k v' ttl' (delete k c))"
  using setnx_free [of t k "delete k c"] by (simp add: exists_delete)

lemma lock_expired:
  assumes "setnx s k v ttl c = (True, c')" "0 \<le> ttl" "\<not> alive ttl s t"
  shows "fst (setnx t k v' ttl' c')" "get t k c' = []"
proof -
  have "\<not> exists s k c" using assms(1) setnx_taken [of s k c v ttl] by auto
  with assms(1) have c': "c' = put s k v ttl c" using setnx_free [of s k c v ttl] by simp
  have "\<not> exists t k c'" using assms(2,3) by (simp add: c' exists_set)
  then show "fst (setnx t k v' ttl' c')" "get t k c' = []"
    using setnx_free [of t k c'] get_absent [of t k c'] by simp_all
qed

end

section \<open>The Redis cache\<close>

text \<open>
  A key has its value and its deadline in the server's milliseconds; after the deadline it is
  absent. The client sends a time to live in milliseconds, at least 1, none if it is not
  positive, and for -1 asks \<open>SET\<close> to keep the one there is.
\<close>

type_synonym cache = "string \<Rightarrow> (string \<times> int option) option"

definition unexpired :: "int \<Rightarrow> int option \<Rightarrow> bool" where
  "unexpired srv d \<longleftrightarrow> (case d of None \<Rightarrow> True | Some t \<Rightarrow> srv \<le> t)"

definition current :: "int \<Rightarrow> string \<Rightarrow> cache \<Rightarrow> (string \<times> int option) option" where
  "current srv key c =
     (case c key of None \<Rightarrow> None | Some (v, d) \<Rightarrow> if unexpired srv d then Some (v, d) else None)"

definition deadline :: "int \<Rightarrow> duration \<Rightarrow> int option" where
  "deadline srv ttl = (if 0 < ttl then Some (srv + max 1 (Milliseconds ttl)) else None)"

definition cache_Get :: "err fault \<Rightarrow> int \<Rightarrow> string \<Rightarrow> cache \<Rightarrow> err + string" where
  "cache_Get f srv key c =
     (case query f (current srv key c) of
        Inl e \<Rightarrow> Inl e
      | Inr None \<Rightarrow> Inr []
      | Inr (Some (v, _)) \<Rightarrow> Inr v)"

definition cache_Set :: "err fault \<Rightarrow> int \<Rightarrow> string \<Rightarrow> string \<Rightarrow> duration \<Rightarrow> cache \<Rightarrow> err option \<times> cache" where
  "cache_Set f srv key v ttl c =
     (let stmt = (\<lambda>c. Inr ((), c(key \<mapsto> (v, if ttl = -1 then Option.bind (current srv key c) snd
                                            else deadline srv ttl))))
      in case exec f stmt c of (res, c) \<Rightarrow> (err_of res, c))"

definition cache_SetNX ::
    "err fault \<Rightarrow> int \<Rightarrow> string \<Rightarrow> string \<Rightarrow> duration \<Rightarrow> cache \<Rightarrow> (err + bool) \<times> cache" where
  "cache_SetNX f srv key v ttl c =
     exec f (\<lambda>c. if current srv key c \<noteq> None then Inr (False, c)
                 else Inr (True, c(key \<mapsto> (v, deadline srv ttl)))) c"

definition cache_Delete :: "err fault \<Rightarrow> string \<Rightarrow> cache \<Rightarrow> err option \<times> cache" where
  "cache_Delete f key c =
     (case exec f (\<lambda>c. Inr ((), c(key := None))) c of (res, c) \<Rightarrow> (err_of res, c))"

definition cache_Exists :: "err fault \<Rightarrow> int \<Rightarrow> string \<Rightarrow> cache \<Rightarrow> err + bool" where
  "cache_Exists f srv key c =
     (case query f (if current srv key c \<noteq> None then 1 else (0::int)) of
        Inl e \<Rightarrow> Inl e | Inr n \<Rightarrow> Inr (n > 0))"

text \<open>The operations when the server answers.\<close>

definition got :: "int \<Rightarrow> string \<Rightarrow> cache \<Rightarrow> string" where
  "got srv key c = (case cache_Get None srv key c of Inl _ \<Rightarrow> [] | Inr v \<Rightarrow> v)"

definition existing :: "int \<Rightarrow> string \<Rightarrow> cache \<Rightarrow> bool" where
  "existing srv key c \<longleftrightarrow> cache_Exists None srv key c = Inr True"

definition obtained :: "(err + bool) \<times> cache \<Rightarrow> bool \<times> cache" where
  "obtained r = (fst r = Inr True, snd r)"

lemma existing_current [simp]: "existing srv key c \<longleftrightarrow> current srv key c \<noteq> None"
  by (simp add: existing_def cache_Exists_def)

lemma got_current: "got srv key c = (case current srv key c of None \<Rightarrow> [] | Some (v, _) \<Rightarrow> v)"
  by (auto simp: got_def cache_Get_def split: option.split)

lemma current_upd [simp]:
  "current srv key (c(k \<mapsto> (v, d))) =
     (if key = k then if unexpired srv d then Some (v, d) else None else current srv key c)"
  "current srv key (c(k := None)) = (if key = k then None else current srv key c)"
  by (simp_all add: current_def)

lemma deadline_none: "deadline s (- 1) = None"
  by (simp add: deadline_def)

lemma current_none: "\<forall>a b. current s k c \<noteq> Some (a, b) \<Longrightarrow> current s k c = None"
  by (cases "current s k c") auto

interpretation redis_cache: cache_port got "\<lambda>srv k v ttl c. snd (cache_Set None srv k v ttl c)"
  "\<lambda>srv k v ttl c. obtained (cache_SetNX None srv k v ttl c)" "\<lambda>k c. snd (cache_Delete None k c)"
  existing "\<lambda>ttl s t. unexpired t (deadline s ttl)"
  by unfold_locales
    (auto simp: got_current cache_Set_def cache_SetNX_def cache_Delete_def obtained_def
      deadline_none current_none split: option.split)

text \<open>A lock taken for a second is not given again for a second.\<close>

lemma redis_lock:
  assumes "cache_SetNX None s key v Second c = (Inr True, c')" "t \<le> s + 1000"
  shows "cache_SetNX None t key v' ttl c' = (Inr False, c')"
proof -
  have d: "unexpired t (deadline s Second)"
    using assms(2) by (simp add: unexpired_def deadline_def Milliseconds_def Second_def)
  have "obtained (cache_SetNX None s key v Second c) = (True, c')"
    using assms(1) by (simp add: obtained_def)
  from redis_cache.lock_held(1) [OF this _ d, of v' ttl]
  have "obtained (cache_SetNX None t key v' ttl c') = (False, c')" by (simp add: Second_def)
  then show ?thesis by (auto simp: obtained_def cache_SetNX_def split: if_splits)
qed

end
