(* ===== verification/Programs.thy ===== *)
theory Programs
  imports Http_Api Config Webhook Cache
begin

text \<open>
  The loops of the scheduler and the retry poller, and how \<open>cmd/worker/main.go\<close> puts the
  worker's program together from its configuration.
\<close>

section \<open>The pollers' loops\<close>

text \<open>
  A loop receives ticks until its context ends. A ticker needs a positive interval, anything
  else is a panic; the first component says whether the loop goes on.
\<close>

datatype poll_signal = PollDone | PollTick Poll_Env

definition NewTicker :: "duration \<Rightarrow> unit go" where
  "NewTicker d = (if d \<le> 0 then Panic else Ret ())"

fun scheduler_loop :: "uuid_lib \<Rightarrow> poll_signal list \<Rightarrow> world \<Rightarrow> bool \<times> world" where
  "scheduler_loop lib [] w = (True, w)"
| "scheduler_loop lib (PollDone # sigs) w = (False, w)"
| "scheduler_loop lib (PollTick env # sigs) w = scheduler_loop lib sigs (scheduler_poll lib env w)"

definition scheduler_Run :: "uuid_lib \<Rightarrow> duration \<Rightarrow> poll_signal list \<Rightarrow> world \<Rightarrow> bool go \<times> world" where
  "scheduler_Run lib interval sigs w =
     (case NewTicker interval of
        Panic \<Rightarrow> (Panic, w)
      | Ret _ \<Rightarrow> apfst Ret (scheduler_loop lib sigs w))"

fun retry_loop :: "uuid_lib \<Rightarrow> poll_signal list \<Rightarrow> world \<Rightarrow> bool \<times> world" where
  "retry_loop lib [] w = (True, w)"
| "retry_loop lib (PollDone # sigs) w = (False, w)"
| "retry_loop lib (PollTick env # sigs) w = retry_loop lib sigs (retry_poll lib env w)"

definition retry_Run :: "uuid_lib \<Rightarrow> duration \<Rightarrow> poll_signal list \<Rightarrow> world \<Rightarrow> bool go \<times> world" where
  "retry_Run lib interval sigs w =
     (case NewTicker interval of
        Panic \<Rightarrow> (Panic, w)
      | Ret _ \<Rightarrow> apfst Ret (retry_loop lib sigs w))"

text \<open>With a positive interval a loop ends only with its context, and is a run of the system.\<close>

lemma scheduled_run:
  "(step lib eng cfg lmt)\<^sup>*\<^sup>* (scheduler_poll lib env w) w' \<Longrightarrow> (step lib eng cfg lmt)\<^sup>*\<^sup>* w w'"
  by (rule converse_rtranclp_into_rtranclp) (rule schedule)

lemma retried_run:
  "(step lib eng cfg lmt)\<^sup>*\<^sup>* (retry_poll lib env w) w' \<Longrightarrow> (step lib eng cfg lmt)\<^sup>*\<^sup>* w w'"
  by (rule converse_rtranclp_into_rtranclp) (rule retry)

lemma scheduler_loop_run:
  "(step lib eng cfg lmt)\<^sup>*\<^sup>* w (snd (scheduler_loop lib sigs w)) \<and>
     (fst (scheduler_loop lib sigs w) \<longleftrightarrow> PollDone \<notin> set sigs)"
  by (induction lib sigs w rule: scheduler_loop.induct)
     (auto intro: scheduled_run)

lemma retry_loop_run:
  "(step lib eng cfg lmt)\<^sup>*\<^sup>* w (snd (retry_loop lib sigs w)) \<and>
     (fst (retry_loop lib sigs w) \<longleftrightarrow> PollDone \<notin> set sigs)"
  by (induction lib sigs w rule: retry_loop.induct)
     (auto intro: retried_run)

lemma pollers_run:
  assumes "0 < interval"
  shows "(step lib eng cfg lmt)\<^sup>*\<^sup>* w (snd (scheduler_Run lib interval sigs w))"
    "(step lib eng cfg lmt)\<^sup>*\<^sup>* w (snd (retry_Run lib interval sigs w))"
    "fst (scheduler_Run lib interval sigs w) = Ret (PollDone \<notin> set sigs)"
    "fst (retry_Run lib interval sigs w) = Ret (PollDone \<notin> set sigs)"
  using assms scheduler_loop_run [of lib eng cfg lmt w sigs] retry_loop_run [of lib eng cfg lmt w sigs]
  by (simp_all add: scheduler_Run_def retry_Run_def NewTicker_def)

section \<open>The worker program\<close>

definition delivery_config :: "Config \<Rightarrow> DeliveryConfig" where
  "delivery_config cfg = \<lparr>CMaxRetries = WkMaxRetries (CWorker cfg),
     BaseDelay = RetryBaseDelay (CWorker cfg), MaxDelay = RetryMaxDelay (CWorker cfg)\<rparr>"

definition worker_limiter :: "Config \<Rightarrow> Limiter" where
  "worker_limiter cfg = NewLimiter (RateLimitPerSec (CWorker cfg))"

text \<open>
  What the worker's services are made of. The repositories, the queue and the metrics collector
  hold nothing but the connection to the database or to Redis, which the world stands for.
\<close>

record DeliveryService =
  ds_limiter :: Limiter
  ds_breakers :: "Channel \<Rightarrow> CircuitBreaker option"
  ds_maxRetries :: int
  ds_baseDelay :: duration
  ds_maxDelay :: duration

definition NewDeliveryService :: "Limiter \<Rightarrow> DeliveryConfig \<Rightarrow> DeliveryService" where
  "NewDeliveryService lmt cfg =
     \<lparr>ds_limiter = lmt, ds_breakers = new_breakers, ds_maxRetries = CMaxRetries cfg,
      ds_baseDelay = BaseDelay cfg, ds_maxDelay = MaxDelay cfg\<rparr>"

record SchedulerService =
  ss_interval :: duration

definition NewSchedulerService :: "duration \<Rightarrow> SchedulerService" where
  "NewSchedulerService interval = \<lparr>ss_interval = interval\<rparr>"

record RetryPoller =
  rp_interval :: duration

definition NewRetryPoller :: "duration \<Rightarrow> RetryPoller" where
  "NewRetryPoller interval = \<lparr>rp_interval = interval\<rparr>"

record worker_services =
  webhookProvider :: WebhookProvider
  worker_hub :: hub
  deliverySvc :: DeliveryService
  scheduler :: SchedulerService
  retryPoller :: RetryPoller

definition worker_services :: "Config \<Rightarrow> worker_services" where
  "worker_services cfg =
     \<lparr>webhookProvider = NewWebhookProvider (WebhookURL (CProvider cfg)) (PvTimeout (CProvider cfg)),
      worker_hub = NewHub True False,
      deliverySvc = NewDeliveryService (worker_limiter cfg) (delivery_config cfg),
      scheduler = NewSchedulerService (SchedulerInterval (CWorker cfg)),
      retryPoller = NewRetryPoller (5 * Second)\<rparr>"

text \<open>
  What the worker's delivery service sends with: the configured address, with the configured
  timeout.
\<close>

definition worker_provider ::
    "Config \<Rightarrow> http_client \<Rightarrow> time \<Rightarrow> SendRequest \<Rightarrow> err + SendResponse option" where
  "worker_provider cfg http now = webhook http (webhookProvider (worker_services cfg)) now"

lemma worker_sends_to_provider:
  assumes "send_and_record lib (delivery_config cfg) env breaker n w = (None, w')"
    and "p_send env = worker_provider cfg http now"
  obtains body resp r where
    "h_Marshal http (send_request n) = Inr body"
    "h_Do http (PvTimeout (CProvider cfg)) \<lparr>WMethod = ''POST'', WURL = WebhookURL (CProvider cfg),
       WContentType = ''application/json'', WBody = body\<rparr> = Inr resp"
    "200 \<le> ReplyStatus resp" "ReplyStatus resp < 300"
    "worker_provider cfg http now (send_request n) = Inr (Some r)"
proof -
  let ?p = "webhookProvider (worker_services cfg)"
  have p: "?p = NewWebhookProvider (WebhookURL (CProvider cfg)) (PvTimeout (CProvider cfg))"
    by (simp add: worker_services_def)
  have u: "p_send env = webhook http ?p now" using assms(2) by (simp add: worker_provider_def)
  obtain r where r: "webhook http ?p now (send_request n) = Inr (Some r)"
    by (rule webhook_provider.accepted_is_named [OF assms(1) u])
  then have "Send http ?p now (send_request n) = Inr r" by (simp add: webhook_def split: sum.splits)
  then have "\<exists>r. Send http ?p now (send_request n) = Inr r" ..
  from this [unfolded Send_succeeds] r that show ?thesis
    by (auto simp: p NewWebhookProvider_def web_request_def worker_provider_def)
qed

definition api_hub :: hub where
  "api_hub = NewHub True True"

text \<open>
  Whatever events the worker's services publish, its hub hands them to Redis in the same order;
  the API's hub hands none on.
\<close>

lemma worker_events_to_redis:
  "wevents w = [] \<Longrightarrow>
     pubsub (fold Publish es (worker_hub (worker_services cfg))) = wevents (fold world_publish es w)"
  using redis_publisher.publish_all [of "worker_hub (worker_services cfg)" es]
    world_publisher.publish_all [where s = w and es = es]
  by (simp add: worker_services_def NewHub_def)

lemma api_events_stay: "pubsub (fold Publish es api_hub) = []"
proof -
  have "pubsub (fold Publish es h) = pubsub h" if "subscriber h" for h
    using that by (induction es arbitrary: h) (simp_all add: Publish_def relay_def Let_def)
  then show ?thesis by (simp add: api_hub_def NewHub_def)
qed

text \<open>The API's server and what it tells the CORS library.\<close>

record http_Server =
  Addr :: string
  srv_ReadTimeout :: duration
  srv_WriteTimeout :: duration

definition api_server :: "Config \<Rightarrow> http_Server" where
  "api_server cfg = \<lparr>Addr = '':'' @ int_string (SvPort (CServer cfg)),
     srv_ReadTimeout = ReadTimeout (CServer cfg), srv_WriteTimeout = WriteTimeout (CServer cfg)\<rparr>"

record cors_Options =
  AllowedOrigins :: "string list"
  AllowedMethods :: "string list"
  AllowedHeaders :: "string list"
  ExposedHeaders :: "string list"
  AllowCredentials :: bool
  MaxAge :: int

definition api_cors :: cors_Options where
  "api_cors =
     \<lparr>AllowedOrigins = [''*''],
      AllowedMethods = [''GET'', ''POST'', ''PUT'', ''PATCH'', ''DELETE'', ''OPTIONS''],
      AllowedHeaders = [''Accept'', ''Authorization'', ''Content-Type'', ''X-Request-ID'', ''X-Idempotency-Key''],
      ExposedHeaders = [''X-Request-ID''],
      AllowCredentials = True, MaxAge = 300\<rparr>"

text \<open>A page of another origin may use every route.\<close>

lemma routes_allowed: "fst (api_route ep) \<in> set (AllowedMethods api_cors)"
  by (cases ep) (simp_all add: api_route_def api_cors_def)

datatype goroutine =
    HubRun
  | SubscriberRun
  | ServerRun http_Server
  | SchedulerRun duration
  | RetryPollerRun duration
  | WorkerRun Channel nat duration

definition goroutines :: "Config \<Rightarrow> goroutine list" where
  "goroutines cfg =
     [HubRun, SchedulerRun (ss_interval (scheduler (worker_services cfg))),
      RetryPollerRun (rp_interval (retryPoller (worker_services cfg)))] @
     concat (map (\<lambda>ch. map (\<lambda>i. WorkerRun ch i (PollInterval (CWorker cfg)))
       [0..<nat (Concurrency (CWorker cfg))]) [ChannelSMS, ChannelEmail, ChannelPush])"

lemma worker_services_intervals [simp]:
  "ss_interval (scheduler (worker_services cfg)) = SchedulerInterval (CWorker cfg)"
  "rp_interval (retryPoller (worker_services cfg)) = 5 * Second"
  by (simp_all add: worker_services_def NewSchedulerService_def NewRetryPoller_def)

definition ticks :: "goroutine \<Rightarrow> unit go" where
  "ticks g = (case g of
      HubRun \<Rightarrow> Ret () | SubscriberRun \<Rightarrow> Ret () | ServerRun _ \<Rightarrow> Ret ()
    | SchedulerRun d \<Rightarrow> NewTicker d | RetryPollerRun d \<Rightarrow> NewTicker d
    | WorkerRun _ _ d \<Rightarrow> NewTicker d)"

text \<open>
  Each channel that is valid has as many workers as configured, and no other has one. The
  program panics at once unless its intervals are positive.
\<close>

lemma workers_per_channel:
  "length (filter (\<lambda>g. \<exists>i d. g = WorkerRun ch i d) (goroutines cfg)) =
     (if Channel_IsValid ch then nat (Concurrency (CWorker cfg)) else 0)"
proof -
  have f: "length (filter (\<lambda>g. \<exists>i d. g = WorkerRun ch i d) (map (\<lambda>i. WorkerRun c i x) xs)) =
      (if c = ch then length xs else 0)" for c x and xs :: "nat list"
    by (induction xs) auto
  show ?thesis
    by (auto simp: goroutines_def f Channel_IsValid_def ChannelSMS_def ChannelEmail_def ChannelPush_def)
qed

lemma goroutines_tick:
  assumes "0 < Concurrency (CWorker cfg)"
  shows "list_all (\<lambda>g. ticks g = Ret ()) (goroutines cfg) \<longleftrightarrow>
     0 < SchedulerInterval (CWorker cfg) \<and> 0 < PollInterval (CWorker cfg)"
  using assms by (simp add: goroutines_def ticks_def list_all_iff ball_Un)
    (auto simp: NewTicker_def Second_def intro!: exI [of _ 0])

text \<open>The number of connections that is configured for the pool is never passed on.\<close>

lemma max_conns_ignored: "DSN (d\<lparr>MaxConns := n\<rparr>) = DSN d"
  by (simp add: DSN_def)

text \<open>
  One notification that always fails opens the breaker of its channel if and only if at least five
  attempts are configured: the attempts count one by one, from whatever notification they are.
\<close>

lemma breaker_opened_by_retries:
  assumes "Channel_IsValid c"
  shows "\<exists>b. ds_breakers (deliverySvc (worker_services cfg)) c = Some b \<and>
    (state (foldl (\<lambda>b t. cb_RecordFailure t (snd (cb_Allow t b))) b ts) = StateClosed \<longleftrightarrow> length ts < 5)"
proof -
  have b: "ds_breakers (deliverySvc (worker_services cfg)) c = Some (cb_New 5 3 3 (30 * Second))"
    using assms by (auto simp: worker_services_def NewDeliveryService_def new_breakers_def Channel_IsValid_def
        channel_defs)
  let ?P = "\<lambda>n b. failureThreshold b = 5 \<and>
    (if n < 5 then state b = StateClosed \<and> failureCount b = int n else state b \<noteq> StateClosed)"
  have step: "?P (Suc n) (cb_RecordFailure t (snd (cb_Allow t b)))" if "?P n b" for n b t
    using that by (auto simp: cb_RecordFailure_def cb_Allow_def Let_def split: State.splits if_splits)
  have "?P (length ts) (foldl (\<lambda>b t. cb_RecordFailure t (snd (cb_Allow t b))) (cb_New 5 3 3 (30 * Second)) ts)"
  proof (induction ts rule: rev_induct)
    case Nil
    show ?case by (simp add: cb_New_def)
  next
    case (snoc t ts)
    from step [OF this, of t] show ?case by simp
  qed
  with b show ?thesis by (simp split: if_splits)
qed

end
