(* ===== verification/Lifecycle.thy ===== *)
theory Lifecycle
  imports Programs
begin

text \<open>
  How the two programs start and end: the functions \<open>main\<close> of \<open>cmd/api/main.go\<close> and
  \<open>cmd/worker/main.go\<close>, with what each call reports as an argument. Logging, the wiring of
  adapters and services (which calls nothing) and the registration of the signals are left out.
\<close>

section \<open>A function with deferred calls\<close>

text \<open>
  A tracer provider: where it exports to, under which service name, how long it collects a batch,
  and what it passes on with a request. The exporter and the resource are the library's.
\<close>

record Tracer =
  tr_endpoint :: string
  tr_insecure :: bool
  tr_service :: string
  tr_batch_timeout :: duration
  tr_propagators :: "string list"

definition initTracer :: "string \<Rightarrow> err option \<Rightarrow> err option \<Rightarrow> string \<Rightarrow> err + Tracer" where
  "initTracer service exporter_error resource_error endpoint =
     (case exporter_error of
        Some e \<Rightarrow> Inl e
      | None \<Rightarrow>
          (case resource_error of
             Some e \<Rightarrow> Inl e
           | None \<Rightarrow> Inr \<lparr>tr_endpoint = endpoint, tr_insecure = True, tr_service = service,
               tr_batch_timeout = 5 * Second, tr_propagators = [''tracecontext'', ''baggage'']\<rparr>))"

datatype main_act =
    SetTracerProvider Tracer
  | NewPool string
  | PingDatabase
  | NewRedis string string int
  | PingRedis
  | Go goroutine
  | AwaitSignal
  | CancelContext
  | WaitWorkers
  | ShutdownServer duration
  | CancelShutdown
  | ShutdownTracer
  | ClosePool
  | CloseRedis
  | OsExit int

text \<open>
  Deferred calls run when the function returns, the last one first; \<open>os.Exit\<close> ends the process
  without them.
\<close>

datatype main_stmt = Do main_act | Defer main_act | Exit int

fun run_main :: "main_stmt list \<Rightarrow> main_act list \<Rightarrow> main_act list" where
  "run_main [] deferred = deferred"
| "run_main (Do a # ss) deferred = a # run_main ss deferred"
| "run_main (Defer a # ss) deferred = run_main ss (a # deferred)"
| "run_main (Exit c # ss) deferred = [OsExit c]"

section \<open>The two programs\<close>

record Main_Env =
  loaded :: "err + Config"
  exporter_error :: "err option"
  resource_error :: "err option"
  pool_error :: "err option"
  db_ping_error :: "err option"
  redis_ping_error :: "err option"
  serve_error :: "err option"

definition worker_initTracer :: "Main_Env \<Rightarrow> string \<Rightarrow> err + Tracer" where
  "worker_initTracer env endpoint =
     initTracer ''notification-worker'' (exporter_error env) (resource_error env) endpoint"

definition api_initTracer :: "Main_Env \<Rightarrow> string \<Rightarrow> err + Tracer" where
  "api_initTracer env endpoint =
     initTracer ''notification-api'' (exporter_error env) (resource_error env) endpoint"

definition tracing_part :: "(string \<Rightarrow> err + Tracer) \<Rightarrow> Config \<Rightarrow> main_stmt list" where
  "tracing_part init cfg =
     (if TrEnabled (CTracing cfg)
      then (case init (TrEndpoint (CTracing cfg)) of
              Inl e \<Rightarrow> []
            | Inr tp \<Rightarrow> [Do (SetTracerProvider tp), Defer ShutdownTracer])
      else [])"

definition new_redis :: "Config \<Rightarrow> main_stmt list" where
  "new_redis cfg =
     [Do (NewRedis (RdAddr (CRedis cfg)) (RdPassword (CRedis cfg)) (RdDB (CRedis cfg))), Defer CloseRedis]"

definition worker_shutdown :: "main_stmt list" where
  "worker_shutdown = [Do AwaitSignal, Do CancelContext, Do WaitWorkers]"

definition worker_body :: "Main_Env \<Rightarrow> main_stmt list" where
  "worker_body env =
     (case loaded env of
        Inl e \<Rightarrow> [Exit 1]
      | Inr cfg \<Rightarrow>
          Defer CancelContext # tracing_part (worker_initTracer env) cfg @
          Do (NewPool (DSN (CDatabase cfg))) #
          (if pool_error env \<noteq> None then [Exit 1]
           else Defer ClosePool # new_redis cfg @ map (\<lambda>g. Do (Go g)) (goroutines cfg) @ worker_shutdown))"

definition api_shutdown :: "Config \<Rightarrow> main_stmt list" where
  "api_shutdown cfg =
     [Do AwaitSignal, Defer CancelShutdown, Do (ShutdownServer (ShutdownTimeout (CServer cfg)))]"

text \<open>A server that cannot serve ends the process from its own goroutine.\<close>

definition api_serving :: "Main_Env \<Rightarrow> Config \<Rightarrow> main_stmt list" where
  "api_serving env cfg =
     Do (Go (ServerRun (api_server cfg))) #
     (if serve_error env \<noteq> None then [Exit 1] else api_shutdown cfg)"

definition api_body :: "Main_Env \<Rightarrow> main_stmt list" where
  "api_body env =
     (case loaded env of
        Inl e \<Rightarrow> [Exit 1]
      | Inr cfg \<Rightarrow>
          Defer CancelContext # tracing_part (api_initTracer env) cfg @
          Do (NewPool (DSN (CDatabase cfg))) #
          (if pool_error env \<noteq> None then [Exit 1]
           else
             Defer ClosePool # Do PingDatabase #
             (if db_ping_error env \<noteq> None then [Exit 1]
              else
                new_redis cfg @ Do PingRedis #
                (if redis_ping_error env \<noteq> None then [Exit 1]
                 else
                   Do (Go HubRun) # Do (Go SubscriberRun) # api_serving env cfg))))"

definition worker_main :: "Main_Env \<Rightarrow> main_act list" where
  "worker_main env = run_main (worker_body env) []"

definition api_main :: "Main_Env \<Rightarrow> main_act list" where
  "api_main env = run_main (api_body env) []"

section \<open>Order\<close>

text \<open>\<open>before a b xs\<close>: \<open>a\<close> occurs in \<open>xs\<close>, and no \<open>b\<close> comes earlier.\<close>

fun before :: "'a \<Rightarrow> 'a \<Rightarrow> 'a list \<Rightarrow> bool" where
  "before a b [] = False"
| "before a b (x # xs) = (if x = b then False else x = a \<or> before a b xs)"

lemma run_main_Do: "run_main (map (\<lambda>g. Do (f g)) gs @ ss) ds = map f gs @ run_main ss ds"
  by (induction gs) simp_all

lemma before_append:
  "b \<notin> set xs \<Longrightarrow> before a b (xs @ ys) \<longleftrightarrow> a \<in> set xs \<or> before a b ys"
  by (induction xs) auto

text \<open>What tracing adds at the start and at the end; without a tracer, nothing.\<close>

lemma run_tracing:
  obtains tr es where "set tr \<subseteq> range SetTracerProvider" "set es \<subseteq> {ShutdownTracer}"
    "\<And>ss ds. run_main (tracing_part init cfg @ ss) ds = tr @ run_main ss (es @ ds)"
proof (cases "if TrEnabled (CTracing cfg) then init (TrEndpoint (CTracing cfg)) else Inl (Text [])")
  case (Inl e)
  then show ?thesis by (intro that [of "[]" "[]"]) (auto simp: tracing_part_def split: if_splits)
next
  case (Inr tp)
  then show ?thesis
    by (intro that [of "[SetTracerProvider tp]" "[ShutdownTracer]"]) (auto simp: tracing_part_def split: if_splits)
qed

lemma worker_main_runs:
  assumes "loaded env = Inr cfg" "pool_error env = None"
  obtains tr es where "set tr \<subseteq> range SetTracerProvider" "set es \<subseteq> {ShutdownTracer}" "worker_main env =
    tr @ [NewPool (DSN (CDatabase cfg)),
      NewRedis (RdAddr (CRedis cfg)) (RdPassword (CRedis cfg)) (RdDB (CRedis cfg))] @
    map Go (goroutines cfg) @ [AwaitSignal, CancelContext, WaitWorkers, CloseRedis, ClosePool] @ es @ [CancelContext]"
proof -
  obtain tr es where t: "set tr \<subseteq> range SetTracerProvider" "set es \<subseteq> {ShutdownTracer}"
    "\<And>ss ds. run_main (tracing_part (worker_initTracer env) cfg @ ss) ds = tr @ run_main ss (es @ ds)"
    by (rule run_tracing [of "worker_initTracer env" cfg]) blast
  from that [OF t(1,2)] assms show ?thesis
    by (simp add: worker_main_def worker_body_def worker_shutdown_def new_redis_def run_main_Do t(3))
qed

lemma worker_main_exits:
  assumes "\<And>cfg. loaded env = Inr cfg \<Longrightarrow> pool_error env \<noteq> None"
  shows "set (worker_main env) \<subseteq> {OsExit 1} \<union> range SetTracerProvider \<union> range NewPool \<and>
    last (worker_main env) = OsExit 1 \<and> OsExit 1 \<in> set (worker_main env)"
  using assms
  by (cases "loaded env") (auto simp: worker_main_def worker_body_def worker_shutdown_def tracing_part_def split: sum.split)

text \<open>
  C40. The API serves only after PostgreSQL and Redis have answered; the worker does not ask. A
  program either exits with code 1, and then it closes nothing it opened, or it runs until the
  signal and then closes Redis before the pool. The worker waits for its workers first, so none
  of them meets a closed client; but its tracer is shut down with a context that is already
  cancelled, while the API's is not.
\<close>

theorem main_order:
  shows "(Go (ServerRun p) \<in> set (api_main env) \<longrightarrow>
      db_ping_error env = None \<and> redis_ping_error env = None \<and>
      before PingDatabase (Go (ServerRun p)) (api_main env) \<and>
      before PingRedis (Go (ServerRun p)) (api_main env)) \<and>
    (\<forall>m\<in>{worker_main env, api_main env}.
      if OsExit 1 \<in> set m then last m = OsExit 1 \<and> CloseRedis \<notin> set m \<and> ClosePool \<notin> set m
      else before AwaitSignal CloseRedis m \<and> before CloseRedis ClosePool m \<and> last m = CancelContext) \<and>
    (AwaitSignal \<in> set (worker_main env) \<longrightarrow> before WaitWorkers CloseRedis (worker_main env)) \<and>
    (ShutdownTracer \<in> set (worker_main env) \<longrightarrow> before CancelContext ShutdownTracer (worker_main env)) \<and>
    (ShutdownTracer \<in> set (api_main env) \<longrightarrow> before ShutdownTracer CancelContext (api_main env))"
proof -
  have api: "(Go (ServerRun p) \<in> set (api_main env) \<longrightarrow>
      db_ping_error env = None \<and> redis_ping_error env = None \<and>
      before PingDatabase (Go (ServerRun p)) (api_main env) \<and>
      before PingRedis (Go (ServerRun p)) (api_main env)) \<and>
    (if OsExit 1 \<in> set (api_main env) then last (api_main env) = OsExit 1 \<and>
        CloseRedis \<notin> set (api_main env) \<and> ClosePool \<notin> set (api_main env)
      else before AwaitSignal CloseRedis (api_main env) \<and> before CloseRedis ClosePool (api_main env) \<and>
        last (api_main env) = CancelContext) \<and>
    (ShutdownTracer \<in> set (api_main env) \<longrightarrow> before ShutdownTracer CancelContext (api_main env))"
    by (cases "loaded env") (auto simp: api_main_def api_body_def api_serving_def api_shutdown_def tracing_part_def new_redis_def split: sum.split)
  have worker: "(if OsExit 1 \<in> set (worker_main env) then last (worker_main env) = OsExit 1 \<and>
        CloseRedis \<notin> set (worker_main env) \<and> ClosePool \<notin> set (worker_main env)
      else before AwaitSignal CloseRedis (worker_main env) \<and> before CloseRedis ClosePool (worker_main env) \<and>
        last (worker_main env) = CancelContext) \<and>
    (AwaitSignal \<in> set (worker_main env) \<longrightarrow> before WaitWorkers CloseRedis (worker_main env)) \<and>
    (ShutdownTracer \<in> set (worker_main env) \<longrightarrow> before CancelContext ShutdownTracer (worker_main env))"
  proof (cases "\<exists>cfg. loaded env = Inr cfg \<and> pool_error env = None")
    case True
    then obtain cfg where c: "loaded env = Inr cfg" "pool_error env = None" by blast
    obtain tr es where tr: "set tr \<subseteq> range SetTracerProvider" "set es \<subseteq> {ShutdownTracer}" "worker_main env =
        tr @ [NewPool (DSN (CDatabase cfg)),
          NewRedis (RdAddr (CRedis cfg)) (RdPassword (CRedis cfg)) (RdDB (CRedis cfg))] @
        map Go (goroutines cfg) @ [AwaitSignal, CancelContext, WaitWorkers, CloseRedis, ClosePool] @ es @ [CancelContext]"
      by (rule worker_main_runs [OF c])
    have "x \<notin> set tr" if "\<forall>tp. x \<noteq> SetTracerProvider tp" for x using tr(1) that by blast
    moreover have "x \<notin> set es" if "x \<noteq> ShutdownTracer" for x using tr(2) that by blast
    ultimately show ?thesis unfolding tr(3) by (simp add: before_append image_iff)
  next
    case False
    with worker_main_exits [of env] show ?thesis by auto
  qed
  show ?thesis using api worker by simp
qed

text \<open>Sample: PostgreSQL is away. The API exits, the worker starts its workers all the same.\<close>

definition sample_settings :: Config where
  "sample_settings =
     \<lparr>CServer = \<lparr>SvPort = 8080, ReadTimeout = 15 * Second, WriteTimeout = 15 * Second, ShutdownTimeout = 30 * Second\<rparr>,
      CDatabase = \<lparr>DbHost = ''db'', DbPort = 5432, DbUser = ''u'', DbPassword = ''p'', DbName = ''n'',
        SSLMode = ''disable'', MaxConns = 10\<rparr>,
      CRedis = \<lparr>RdAddr = ''redis:6379'', RdPassword = [], RdDB = 0\<rparr>,
      CProvider = \<lparr>WebhookURL = ''http://x'', PvTimeout = 10 * Second\<rparr>,
      CWorker = \<lparr>Concurrency = 1, PollInterval = 1000000, RateLimitPerSec = 100, WkMaxRetries = 3,
        RetryBaseDelay = Second, RetryMaxDelay = 60 * Second, SchedulerInterval = 5 * Second\<rparr>,
      CTracing = \<lparr>TrEnabled = True, TrEndpoint = ''jaeger''\<rparr>\<rparr>"

definition no_database :: Main_Env where
  "no_database = \<lparr>loaded = Inr sample_settings, exporter_error = None, resource_error = None, pool_error = None,
     db_ping_error = Some (Text ''connection refused''), redis_ping_error = None, serve_error = None\<rparr>"

theorem main_order_witness:
  "AwaitSignal \<in> set (worker_main no_database) \<and> Go (WorkerRun ChannelSMS 0 1000000) \<in> set (worker_main no_database) \<and>
   before WaitWorkers CloseRedis (worker_main no_database) \<and>
   before CancelContext ShutdownTracer (worker_main no_database) \<and>
   last (api_main no_database) = OsExit 1 \<and> ClosePool \<notin> set (api_main no_database)"
proof -
  have w: "AwaitSignal \<in> set (worker_main no_database)" "ShutdownTracer \<in> set (worker_main no_database)"
    "Go (WorkerRun ChannelSMS 0 1000000) \<in> set (worker_main no_database)"
    by (simp_all add: worker_main_def worker_body_def worker_shutdown_def no_database_def sample_settings_def tracing_part_def worker_initTracer_def api_initTracer_def initTracer_def
        new_redis_def goroutines_def)
  have a: "OsExit 1 \<in> set (api_main no_database)"
    by (simp add: api_main_def api_body_def api_serving_def api_shutdown_def no_database_def sample_settings_def tracing_part_def worker_initTracer_def api_initTracer_def initTracer_def)
  from main_order [of "api_server sample_settings" no_database] w a show ?thesis by simp
qed

end
