(* ===== verification/Interleaving.thy ===== *)
theory Interleaving
  imports System
begin

text \<open>
  The programs with their workers' rounds broken into single calls: between two calls of a
  worker any other action of the programs can take place, and a worker goes on with the copy of
  the notification that it has read. \<open>call_step\<close> is \<open>Process\<close> of \<open>service/delivery.go\<close> as a
  machine of one call at a time; a round that nothing comes between is \<open>Process\<close>.
\<close>

section \<open>A round, call by call\<close>

text \<open>
  Where a worker stands. Each step makes at most one access to the table of notifications and
  one to the queue; what it does besides (attempts, dead letters, counters, breaker, event)
  belongs to other data.
\<close>

datatype stage =
    Taken
  | Loaded Notification
  | Marked Notification
  | Admitted Notification
  | Refused Notification
  | Requeued Notification
  | Allowed Notification
  | Sent Notification "err + SendResponse option"
  | Delivering Notification
  | Retrying Notification err
  | Finished

fun call_step ::
    "uuid_lib \<Rightarrow> DeliveryConfig \<Rightarrow> Limiter \<Rightarrow> Process_Env \<Rightarrow> string \<Rightarrow> stage \<Rightarrow> world \<Rightarrow> stage go \<times> world" where
  "call_step lib cfg lmt env s Taken w =
     (case UUID_Parse lib s of
        Inl e \<Rightarrow> (Ret Finished, w)
      | Inr k \<Rightarrow>
          (case repo_GetByID (p_get env) k (wdb w) of
             Inl e \<Rightarrow> (Ret Finished, w)
           | Inr n \<Rightarrow> (Ret (if Status_IsFinal (NStatus n) then Finished else Loaded n), w)))"
| "call_step lib cfg lmt env s (Loaded n) w =
     (case with_update (p_mark env) (p_marked env) (n\<lparr>NStatus := StatusProcessing\<rparr>) w of
        (Some e, n, w) \<Rightarrow> (Ret Finished, w)
      | (None, n, w) \<Rightarrow> (Ret (Marked n), publishEvent lib (p_event env) n w))"
| "call_step lib cfg lmt env s (Marked n) w =
     (case wbreakers w (NChannel n) of
        None \<Rightarrow> (Panic, w)
      | Some breaker \<Rightarrow>
          (let (ok, breaker) = cb_Allow (p_allow env) breaker
           in (Ret (if ok then Admitted n else Retrying n (Sentinel ErrCircuitOpen)),
               w\<lparr>wbreakers := (wbreakers w)(NChannel n \<mapsto> breaker)\<rparr>)))"
| "call_step lib cfg lmt env s (Admitted n) w =
     (case limiter_Allow lmt (p_limit env) (p_limit_server env) (p_limit_now env)
             (p_limit_id env) (NChannel n) (wredis w) of
        (Inl e, r) \<Rightarrow> (Ret Finished, w\<lparr>wredis := r\<rparr>)
      | (Inr allowed, r) \<Rightarrow> (Ret (if allowed then Allowed n else Refused n), w\<lparr>wredis := r\<rparr>))"
| "call_step lib cfg lmt env s (Refused n) w =
     (let (_, r) = Enqueue (p_requeue env) (p_requeued env) (queue_message lib n) (wredis w)
      in (Ret (Requeued n), w\<lparr>wredis := r\<rparr>))"
| "call_step lib cfg lmt env s (Requeued n) w =
     (let (_, n, w) = with_update (p_queued_fault env) (p_queued env) (n\<lparr>NStatus := StatusQueued\<rparr>) w
      in (Ret Finished, w))"
| "call_step lib cfg lmt env s (Allowed n) w =
     (Ret (Sent n (p_send env (send_request n))), w\<lparr>wsent := wsent w @ [send_request n]\<rparr>)"
| "call_step lib cfg lmt env s (Sent n res) w =
     (let dur = time_Sub (p_end env) (p_start env);
          attempt = delivery_attempt (p_attempt_id env) (p_attempt_created env) dur res n;
          (_, d) = attempt_Create (p_attempt env) attempt (wdb w)
      in case wbreakers w (NChannel n) of
           None \<Rightarrow> (Panic, w)
         | Some breaker \<Rightarrow>
             (case res of
                Inl sendErr \<Rightarrow>
                  (Ret (Retrying n sendErr),
                   w\<lparr>wdb := d,
                     wbreakers := (wbreakers w)(NChannel n \<mapsto> cb_RecordFailure (p_failure env) breaker),
                     wredis := RecordFailure (p_metrics env) (wredis w)\<rparr>)
              | Inr resp \<Rightarrow>
                  (Ret (Delivering (n\<lparr>NStatus := StatusDelivered, SentAt := Some (p_sent_at env),
                        ProviderMsgID := (case resp of None \<Rightarrow> ProviderMsgID n
                                          | Some r \<Rightarrow> Some (MessageID r))\<rparr>)),
                   w\<lparr>wredis := RecordDelivery (p_metrics env) (Milliseconds dur) (wredis w), wdb := d,
                     wbreakers := (wbreakers w)(NChannel n \<mapsto> cb_RecordSuccess breaker)\<rparr>)))"
| "call_step lib cfg lmt env s (Delivering n) w =
     (let (_, n, w) = with_update (p_final env) (p_finished env) n w
      in (Ret Finished, publishEvent lib (p_event2 env) n w))"
| "call_step lib cfg lmt env s (Retrying n e) w =
     (Ret Finished, handleRetry lib cfg (p_retry env) n e w)"
| "call_step lib cfg lmt env s Finished w = (Ret Finished, w)"

fun run_calls ::
    "uuid_lib \<Rightarrow> DeliveryConfig \<Rightarrow> Limiter \<Rightarrow> Process_Env \<Rightarrow> string \<Rightarrow> nat \<Rightarrow> stage \<Rightarrow> world \<Rightarrow>
       stage go \<times> world" where
  "run_calls lib cfg lmt env s 0 ph w = (Ret ph, w)"
| "run_calls lib cfg lmt env s (Suc k) ph w =
     (case call_step lib cfg lmt env s ph w of
        (Ret ph, w) \<Rightarrow> run_calls lib cfg lmt env s k ph w
      | (Panic, w) \<Rightarrow> (Panic, w))"

lemma run_finished [simp]: "run_calls lib cfg lmt env s k Finished w = (Ret Finished, w)"
  by (induction k) simp_all

lemma run_retrying [simp]:
  "run_calls lib cfg lmt env s (Suc k) (Retrying n e) w =
     (Ret Finished, handleRetry lib cfg (p_retry env) n e w)"
  by simp

lemma run_allowed:
  assumes "wbreakers w (NChannel n) = Some b"
  shows "run_calls lib cfg lmt env s (Suc (Suc (Suc k))) (Allowed n) w =
     (Ret Finished, snd (send_and_record lib cfg env b n w))"
  using assms
  by (cases "p_send env (send_request n)") (simp_all add: send_and_record_def Let_def split_beta)

lemma run_admitted:
  assumes "wbreakers w (NChannel n) = Some b"
  shows "run_calls lib cfg lmt env s (Suc (Suc (Suc (Suc k)))) (Admitted n) w =
     (Ret Finished, snd (limit_and_send lib cfg lmt env b n w))"
  using assms run_allowed [of "w\<lparr>wredis := r\<rparr>" n b lib cfg lmt env s k for r]
  by (auto simp: limit_and_send_def Let_def split_beta simp del: run_calls.simps(2)
      simp: run_calls.simps(2) [of _ _ _ _ _ _ "Admitted _"] run_calls.simps(2) [of _ _ _ _ _ _ "Refused _"]
        run_calls.simps(2) [of _ _ _ _ _ _ "Requeued _"]
      split: sum.split prod.split)

text \<open>C11. A round that nothing comes between is \<open>Process\<close>: after seven steps at most it has ended as
  \<open>Process\<close> ends and in the same world.\<close>

theorem calls_are_Process:
  "run_calls lib cfg lmt env s 7 Taken w =
     (case Process lib cfg lmt env s w of
        (Ret _, w') \<Rightarrow> (Ret Finished, w')
      | (Panic, w') \<Rightarrow> (Panic, w'))"
proof (cases "UUID_Parse lib s")
  case parse: (Inr k)
  show ?thesis
  proof (cases "repo_GetByID (p_get env) k (wdb w)")
    case get: (Inr n)
    obtain e n1 w1 where u: "with_update (p_mark env) (p_marked env) (n\<lparr>NStatus := StatusProcessing\<rparr>) w = (e, n1, w1)"
      by (metis prod_cases3)
    let ?w2 = "publishEvent lib (p_event env) n1 w1"
    show ?thesis
    proof (cases "wbreakers ?w2 (NChannel n1)")
      case None
      with parse get u show ?thesis
        by (cases e) (simp_all add: Process_def eval_nat_numeral)
    next
      case b: (Some b)
      obtain ok b' where a: "cb_Allow (p_allow env) b = (ok, b')" by (metis prod.exhaust)
      let ?w3 = "?w2\<lparr>wbreakers := (wbreakers ?w2)(NChannel n1 \<mapsto> b')\<rparr>"
      have "run_calls lib cfg lmt env s 4 (Admitted n1) ?w3 =
          (Ret Finished, snd (limit_and_send lib cfg lmt env b' n1 ?w3))"
        using run_admitted [of ?w3 n1 b' lib cfg lmt env s 0] by (simp add: eval_nat_numeral)
      moreover have "run_calls lib cfg lmt env s (Suc (Suc (Suc (Suc m)))) Taken w =
          (if Status_IsFinal (NStatus n) then (Ret Finished, w)
           else case e of Some _ \<Rightarrow> (Ret Finished, w1)
             | None \<Rightarrow> if ok then run_calls lib cfg lmt env s (Suc m) (Admitted n1) ?w3
                 else (Ret Finished, handleRetry lib cfg (p_retry env) n1 (Sentinel ErrCircuitOpen) ?w3))" for m
        using parse get u a b
        by (cases e) (simp_all del: publishEvent_simps)
      moreover note this [of 3]
      ultimately show ?thesis
        using parse get u a b
        by (cases e) (simp_all add: Process_def Let_def apfst_def map_prod_def split_beta)
    qed
  qed (use parse in \<open>simp add: Process_def eval_nat_numeral\<close>)
qed (simp add: Process_def eval_nat_numeral)


section \<open>What a call does\<close>

fun copy :: "stage \<Rightarrow> Notification option" where
  "copy Taken = None"
| "copy (Loaded n) = Some n"
| "copy (Marked n) = Some n"
| "copy (Admitted n) = Some n"
| "copy (Refused n) = Some n"
| "copy (Requeued n) = Some n"
| "copy (Allowed n) = Some n"
| "copy (Sent n res) = Some n"
| "copy (Delivering n) = Some n"
| "copy (Retrying n e) = Some n"
| "copy Finished = None"

text \<open>The copy may be out of date, but it is a copy of a row.\<close>

definition sound_copy :: "db \<Rightarrow> stage \<Rightarrow> bool" where
  "sound_copy d ph \<longleftrightarrow>
     (\<forall>n. copy ph = Some n \<longrightarrow> map_option identity (row d (ID n)) = Some (identity n))"

lemma sound_copy_simps [simp]:
  "sound_copy d Taken" "sound_copy d Finished"
  by (simp_all add: sound_copy_def)

lemma identity_upd [simp]:
  "identity (n\<lparr>NStatus := st\<rparr>) = identity n" "identity (n\<lparr>UpdatedAt := t\<rparr>) = identity n"
  "identity (n\<lparr>SentAt := t'\<rparr>) = identity n" "identity (n\<lparr>ProviderMsgID := p\<rparr>) = identity n"
  by (simp_all add: identity_def)

lemma sound_copy_cong:
  assumes "sound_copy d ph" "\<And>k. map_option identity (row d' k) = map_option identity (row d k)"
    and "\<And>n'. copy ph' = Some n' \<Longrightarrow> \<exists>n. copy ph = Some n \<and> identity n' = identity n"
  shows "sound_copy d' ph'"
  unfolding sound_copy_def
proof (intro allI impI)
  fix n'
  assume "copy ph' = Some n'"
  then obtain n where n: "copy ph = Some n" "identity n' = identity n" using assms(3) by blast
  then show "map_option identity (row d' (ID n')) = Some (identity n')"
    using assms(1,2) identityD(1) [OF n(2)] by (simp add: sound_copy_def)
qed

lemma copy_channel:
  assumes "world_ok w" "sound_copy (wdb w) ph" "copy ph = Some n"
  shows "Channel_IsValid (NChannel n)" "\<exists>b. wbreakers w (NChannel n) = Some b \<and> cb_wf b"
proof -
  from assms(2,3) have "map_option identity (row (wdb w) (ID n)) = Some (identity n)"
    by (simp add: sound_copy_def)
  then obtain m where m: "row (wdb w) (ID n) = Some m" "identity m = identity n" by auto
  then have "row_ok (TID ` set (templates (wdb w))) m"
    using assms(1) by (auto simp: world_ok_def db_ok_def intro: row_ok_row)
  then show v: "Channel_IsValid (NChannel n)" using identityD(2) [OF m(2)] by (simp add: row_ok_def)
  show "\<exists>b. wbreakers w (NChannel n) = Some b \<and> cb_wf b"
    using breakers_okD [OF _ v] assms(1) by (simp add: world_ok_def)
qed

text \<open>A call that holds a copy touches that notification's row only and queues its message only.\<close>

definition good_call :: "uuid_lib \<Rightarrow> Notification \<Rightarrow> world \<Rightarrow> world \<Rightarrow> bool" where
  "good_call lib n w w' \<longleftrightarrow> good_step (ID n) w w' \<and>
     (\<forall>c. messages (wredis w') c \<subseteq>
        messages (wredis w) c \<union> (if NChannel n = c then {queue_message lib n} else {}))"

lemma good_call_redis: "good_step (ID n) w w' \<Longrightarrow> wredis w' = wredis w \<Longrightarrow> good_call lib n w w'"
  by (auto simp: good_call_def)

lemma good_call_messages:
  "good_step (ID n) w w' \<Longrightarrow> (\<And>c. messages (wredis w') c = messages (wredis w) c) \<Longrightarrow> good_call lib n w w'"
  by (simp add: good_call_def)

lemma messages_metrics [simp]:
  "messages (RecordDelivery f l r) c = messages r c" "messages (RecordFailure f r) c = messages r c"
  by (rule messages_cong; simp)+

lemma good_Sent:
  assumes b: "cb_wf b'" and q: "queue_ok (wredis w) \<Longrightarrow> queue_ok r"
    and m: "\<And>c. messages r c = messages (wredis w) c"
  shows "good_call lib n w (w\<lparr>wdb := snd (attempt_Create f a (wdb w)),
     wbreakers := (wbreakers w)(c \<mapsto> b'), wredis := r\<rparr>)"
proof (rule good_call_messages)
  let ?w1 = "w\<lparr>wdb := snd (attempt_Create f a (wdb w))\<rparr>"
  let ?w2 = "?w1\<lparr>wbreakers := (wbreakers ?w1)(c \<mapsto> b')\<rparr>"
  have "good_step (ID n) w ?w1" by (rule good_attempt)
  also have "good_step (ID n) ?w1 ?w2" by (rule good_breaker) (rule b)
  also have "good_step (ID n) ?w2 (?w2\<lparr>wredis := r\<rparr>)" by (rule good_redis) (simp add: q)
  finally show "good_step (ID n) w (w\<lparr>wdb := snd (attempt_Create f a (wdb w)),
     wbreakers := (wbreakers w)(c \<mapsto> b'), wredis := r\<rparr>)" by simp
qed (simp add: m)


lemma world_upd_order:
  "w\<lparr>wredis := r, wdb := d, wbreakers := b\<rparr> = w\<lparr>wdb := d, wbreakers := b, wredis := r\<rparr>"
  by (cases w) simp

definition next_sound :: "Notification \<Rightarrow> stage go \<Rightarrow> bool" where
  "next_sound n res \<longleftrightarrow> (\<exists>ph. res = Ret ph \<and> (\<forall>n'. copy ph = Some n' \<longrightarrow> identity n' = identity n))"

lemma next_sound_simps [simp]:
  "next_sound n Panic = False"
  "next_sound n (Ret ph) \<longleftrightarrow> (\<forall>n'. copy ph = Some n' \<longrightarrow> identity n' = identity n)"
  by (simp_all add: next_sound_def)

lemma call_step_copy:
  assumes w: "world_ok w" and sc: "sound_copy (wdb w) ph" and cp: "copy ph = Some n"
    and p: "call_step lib cfg lmt env s ph w = (res, w')"
  shows "good_call lib n w w' \<and> next_sound n res"
proof -
  obtain b where b: "wbreakers w (NChannel n) = Some b" "cb_wf b"
    using copy_channel(2) [OF w sc cp] by blast
  have q: "queue_ok (wredis w)" using w by (simp add: world_ok_def)
  show ?thesis
  proof (cases ph)
    case (Loaded m)
    with cp have m: "m = n" by simp
    obtain e n1 w1 where u: "with_update (p_mark env) (p_marked env) (n\<lparr>NStatus := StatusProcessing\<rparr>) w = (e, n1, w1)"
      by (metis prod_cases3)
    note k = with_update_mark [OF u]
    have "good_step (ID n) w w1" using k(2) by simp
    with good_step_trans [OF this good_publishEvent] p Loaded m u k(1,6) show ?thesis
      by (cases e) (auto intro!: good_call_redis simp: good_call_def)
  next
    case (Marked m)
    with cp have m: "m = n" by simp
    obtain ok b' where a: "cb_Allow (p_allow env) b = (ok, b')" by (metis prod.exhaust)
    with b(2) have "cb_wf b'" using cb_wf_Allow [of b "p_allow env"] by simp
    from good_breaker [OF this, of "ID n" w "NChannel n"] p Marked m a b(1) show ?thesis
      by (auto intro!: good_call_redis split: if_splits)
  next
    case (Admitted m)
    with cp have m: "m = n" by simp
    obtain a r where l: "limiter_Allow lmt (p_limit env) (p_limit_server env) (p_limit_now env)
             (p_limit_id env) (NChannel n) (wredis w) = (a, r)" by (metis prod.exhaust)
    have "queue_ok r" "messages r c = messages (wredis w) c" for c
      using queue_ok_limiter [OF q] messages_limiter l by (metis snd_conv)+
    with p Admitted m l good_redis [of w r "ID n"] show ?thesis
      by (cases a) (auto intro!: good_call_messages split: if_splits)
  next
    case (Refused m)
    with cp have m: "m = n" by simp
    let ?r = "snd (Enqueue (p_requeue env) (p_requeued env) (queue_message lib n) (wredis w))"
    have "good_step (ID n) w (w\<lparr>wredis := ?r\<rparr>)" by (rule good_redis) (simp add: keeps)
    moreover have "messages ?r c \<subseteq>
        messages (wredis w) c \<union> (if NChannel n = c then {queue_message lib n} else {})" for c
      using messages_Enqueue [OF q, of "p_requeue env" "p_requeued env" "queue_message lib n" c]
      by (simp split: if_splits)
    ultimately have "good_call lib n w (w\<lparr>wredis := ?r\<rparr>)"
      unfolding good_call_def by simp
    moreover have "w' = w\<lparr>wredis := ?r\<rparr>" "res = Ret (Requeued n)"
      using p Refused m by (auto simp: Let_def split_beta)
    ultimately show ?thesis by simp
  next
    case (Requeued m)
    with cp p have "w' = snd (snd (with_update (p_queued_fault env) (p_queued env) (n\<lparr>NStatus := StatusQueued\<rparr>) w))"
        "res = Ret Finished" by (auto simp: Let_def split_beta)
    then show ?thesis by (auto intro!: good_call_redis good_with_update)
  next
    case (Allowed m)
    with cp p show ?thesis by (auto intro!: good_call_redis good_wsent)
  next
    case (Sent m r)
    with cp have m: "m = n" by simp
    have F: "cb_wf (cb_RecordFailure t b)" "cb_wf (cb_RecordSuccess b)" for t
      using b(2) by (simp_all add: keeps)
    show ?thesis
    proof (cases r)
      case (Inl e)
      with p Sent m b(1) good_Sent [OF F(1), of w "RecordFailure (p_metrics env) (wredis w)"] show ?thesis
        by (auto simp: Let_def split_beta keeps)
    next
      case (Inr resp)
      with p Sent m b(1) good_Sent [OF F(2), of w "RecordDelivery (p_metrics env) t (wredis w)" for t]
      show ?thesis by (auto simp: Let_def split_beta keeps world_upd_order)
    qed
  next
    case (Delivering m)
    with cp p have "w' = publishEvent lib (p_event2 env) (n\<lparr>UpdatedAt := p_finished env\<rparr>)
         (snd (snd (with_update (p_final env) (p_finished env) n w)))" "res = Ret Finished"
      by (auto simp: Let_def split_beta)
    then show ?thesis
      by (auto intro!: good_call_redis good_step_trans [OF good_with_update good_publishEvent])
  next
    case (Retrying m e)
    with cp p show ?thesis by (auto intro!: good_call_redis handleRetry_good)
  qed (use cp in simp_all)
qed


lemma call_step_no_copy:
  assumes "copy ph = None" "call_step lib cfg lmt env s ph w = (res, w')"
  shows "w' = w \<and> (\<exists>ph'. res = Ret ph' \<and>
    (\<forall>n. copy ph' = Some n \<longrightarrow> row (wdb w) (ID n) = Some n \<and> \<not> Status_IsFinal (NStatus n)))"
proof (cases ph)
  case Taken
  show ?thesis
  proof (cases "UUID_Parse lib s")
    case (Inr k)
    show ?thesis
    proof (cases "repo_GetByID (p_get env) k (wdb w)")
      case n: (Inr n)
      then have "row (wdb w) k = Some n"
        by (auto simp: repo_GetByID_def split: sum.splits option.splits dest: query_Inr)
      with assms(2) Taken Inr n row_ID [OF this] show ?thesis by auto
    qed (use assms(2) Taken Inr in auto)
  qed (use assms(2) Taken in auto)
qed (use assms in auto)

section \<open>The programs, interleaved\<close>

record job =
  jch :: Channel
  jid :: string
  jstage :: stage

text \<open>
  The world and the workers that are at work. Whatever \<open>step\<close> allows can happen at any time,
  and so can the next call of any worker, with any answer. A worker that is done acknowledges
  its message; when the program dies its workers are gone and it starts with new breakers.
\<close>

inductive istep ::
    "uuid_lib \<Rightarrow> 't template_engine \<Rightarrow> DeliveryConfig \<Rightarrow> Limiter \<Rightarrow> world \<times> job list \<Rightarrow> world \<times> job list \<Rightarrow> bool"
    for lib eng cfg lmt where
  other: "step lib eng cfg lmt w w' \<Longrightarrow> istep lib eng cfg lmt (w, js) (w', js)"
| take: "Dequeue f c (wredis w) = (Inr (Some m), r) \<Longrightarrow>
    istep lib eng cfg lmt (w, js)
      (w\<lparr>wredis := r\<rparr>, js @ [\<lparr>jch = c, jid = QNotificationID m, jstage = Taken\<rparr>])"
| advance: "i < length js \<Longrightarrow> call_step lib cfg lmt env (jid (js ! i)) (jstage (js ! i)) w = (Ret ph, w') \<Longrightarrow>
    istep lib eng cfg lmt (w, js) (w', js[i := (js ! i)\<lparr>jstage := ph\<rparr>])"
| acknowledge: "i < length js \<Longrightarrow> jstage (js ! i) = Finished \<Longrightarrow>
    istep lib eng cfg lmt (w, js)
      (w\<lparr>wredis := snd (Acknowledge f1 f2 (jch (js ! i)) (jid (js ! i)) (wredis w))\<rparr>,
       List.take i js @ drop (Suc i) js)"
| die: "istep lib eng cfg lmt (w, js) (w\<lparr>wbreakers := new_breakers\<rparr>, [])"

inductive ireachable ::
    "uuid_lib \<Rightarrow> 't template_engine \<Rightarrow> DeliveryConfig \<Rightarrow> Limiter \<Rightarrow> world \<times> job list \<Rightarrow> bool"
    for lib eng cfg lmt where
  ireach_start: "ireachable lib eng cfg lmt (start, [])"
| ireach_step: "ireachable lib eng cfg lmt s \<Longrightarrow> istep lib eng cfg lmt s s' \<Longrightarrow> ireachable lib eng cfg lmt s'"

section \<open>What every action keeps\<close>

text \<open>A row stays and keeps its identity.\<close>

definition rows_stay :: "db \<Rightarrow> db \<Rightarrow> bool" where
  "rows_stay d d' \<longleftrightarrow>
     (\<forall>k n. row d k = Some n \<longrightarrow> (\<exists>n'. row d' k = Some n' \<and> identity n' = identity n))"

lemma rows_stay_refl [simp]: "rows_stay d d"
  by (simp add: rows_stay_def)

lemma rows_stay_lawful: "lawful_rows d d' \<Longrightarrow> rows_stay d d'"
  unfolding lawful_rows_def rows_stay_def lawful_row_def by blast

lemma rows_stay_touches: "only_touches k w w' \<Longrightarrow> rows_stay (wdb w) (wdb w')"
  unfolding rows_stay_def only_touches_def by (metis map_option_eq_Some option.simps(9))

lemma sound_copy_stays: "rows_stay d d' \<Longrightarrow> sound_copy d ph \<Longrightarrow> sound_copy d' ph"
  unfolding rows_stay_def sound_copy_def by fastforce

definition interleaved_ok :: "uuid_lib \<Rightarrow> 't template_engine \<Rightarrow> world \<times> job list \<Rightarrow> bool" where
  "interleaved_ok lib eng s \<longleftrightarrow> (case s of (w, js) \<Rightarrow>
     system_ok eng w \<and> no_orphans lib w \<and> (\<forall>j\<in>set js. sound_copy (wdb w) (jstage j)))"

lemma no_orphans_grow:
  assumes "no_orphans lib w" "rows_stay (wdb w) (wdb w')"
    and "\<And>c. messages (wredis w') c \<subseteq> messages (wredis w) c \<union>
      {queue_message lib n |n k. map_option identity (row (wdb w) k) = Some (identity n) \<and> NChannel n = c}"
  shows "no_orphans lib w'"
  unfolding no_orphans_def
proof (intro allI subsetI)
  fix c m
  assume "m \<in> messages (wredis w') c"
  with assms(1,3) have "m \<in> {queue_message lib n |n k. map_option identity (row (wdb w) k) = Some (identity n) \<and> NChannel n = c}"
    unfolding no_orphans_def by fastforce
  then obtain n k where n: "m = queue_message lib n" "NChannel n = c"
      "map_option identity (row (wdb w) k) = Some (identity n)" by blast
  then obtain n' where n': "row (wdb w') k = Some n'" "identity n' = identity n"
    using assms(2) unfolding rows_stay_def by fastforce
  have "m = queue_message lib n'" "NChannel n' = c"
    using n queue_message_identity [OF n'(2), of lib] identityD(2) [OF n'(2)] by auto
  with n'(1) show "m \<in> {queue_message lib n |n k. row (wdb w') k = Some n \<and> NChannel n = c}" by blast
qed

lemma istep_keeps:
  assumes "interleaved_ok lib eng s" "istep lib eng cfg lmt s s'"
  shows "interleaved_ok lib eng s' \<and> rows_stay (wdb (fst s)) (wdb (fst s'))"
  using assms(2)
proof cases
  case (other w w' js)
  have w: "system_ok eng w" "no_orphans lib w" "world_ok w"
    using assms(1) other(1) by (simp_all add: interleaved_ok_def system_ok_def)
  have l: "lawful lib w w'" using step_lawful [OF w(3) other(3)] .
  then have r: "rows_stay (wdb w) (wdb w')" by (simp add: lawful_def rows_stay_lawful)
  with step_ok [OF w(1) other(3)] lawful_no_orphans [OF l w(2)] assms(1) other(1,2) show ?thesis
    by (auto simp: interleaved_ok_def intro: sound_copy_stays)
next
  case (take f c w m r js)
  have w: "system_ok eng w" "no_orphans lib w" "queue_ok (wredis w)"
    using assms(1) take(1) by (simp_all add: interleaved_ok_def system_ok_def world_ok_def)
  have "messages r c' = messages (wredis w) c'" "queue_ok r" for c'
    using messages_Dequeue [OF w(3), of f c c'] queue_ok_Dequeue [OF w(3), of f c] take(3) by simp_all
  with w assms(1) take(1,2) show ?thesis
    by (auto simp: interleaved_ok_def no_orphans_def system_ok_def world_ok_def)
next
  case (advance i js env w ph w')
  let ?j = "js ! i"
  have w: "system_ok eng w" "no_orphans lib w" "world_ok w" and js: "\<forall>j\<in>set js. sound_copy (wdb w) (jstage j)"
    using assms(1) advance(1) by (simp_all add: interleaved_ok_def system_ok_def)
  have j: "sound_copy (wdb w) (jstage ?j)" using js advance(3) by simp
  have "interleaved_ok lib eng (w', js) \<and> rows_stay (wdb w) (wdb w') \<and> sound_copy (wdb w') ph"
  proof (cases "copy (jstage ?j)")
    case None
    from call_step_no_copy [OF None advance(4)] have "w' = w"
      "\<And>n. copy ph = Some n \<Longrightarrow> row (wdb w) (ID n) = Some n" by auto
    with assms(1) advance(1) show ?thesis by (simp add: sound_copy_def)
  next
    case (Some n)
    from call_step_copy [OF w(3) j Some advance(4)]
    have g: "good_call lib n w w'" "\<And>n'. copy ph = Some n' \<Longrightarrow> identity n' = identity n" by auto
    have t: "world_ok w'" "only_touches (ID n) w w'"
      using g(1) w(3) by (auto simp: good_call_def good_step_def)
    have r: "rows_stay (wdb w) (wdb w')" using t(2) by (rule rows_stay_touches)
    have n: "map_option identity (row (wdb w) (ID n)) = Some (identity n)"
      using j Some by (simp add: sound_copy_def)
    have "system_ok eng w'"
      using system_ok_same_templates [OF w(1) t(1)] t(2) by (simp add: only_touches_def)
    moreover have "no_orphans lib w'"
    proof (rule no_orphans_grow [OF w(2) r])
      fix c
      have "(if NChannel n = c then {queue_message lib n} else {}) \<subseteq>
          {queue_message lib n |n k. map_option identity (row (wdb w) k) = Some (identity n) \<and> NChannel n = c}"
        using n by auto
      with g(1) show "messages (wredis w') c \<subseteq> messages (wredis w) c \<union>
          {queue_message lib n |n k. map_option identity (row (wdb w) k) = Some (identity n) \<and> NChannel n = c}"
        unfolding good_call_def by blast
    qed
    moreover have "sound_copy (wdb w') ph"
      by (rule sound_copy_cong [OF j]) (use t(2) g(2) Some in \<open>auto simp: only_touches_def\<close>)
    ultimately show ?thesis
      using js r by (auto simp: interleaved_ok_def intro: sound_copy_stays)
  qed
  with advance(1,2) show ?thesis
    by (auto simp: interleaved_ok_def dest!: set_update_subset_insert [THEN subsetD])
next
  case (acknowledge i js w f1 f2)
  let ?r = "snd (Acknowledge f1 f2 (jch (js ! i)) (jid (js ! i)) (wredis w))"
  have w: "system_ok eng w" "no_orphans lib w" "queue_ok (wredis w)"
    using assms(1) acknowledge(1) by (simp_all add: interleaved_ok_def system_ok_def world_ok_def)
  have "queue_ok ?r" using w(3) by (simp add: keeps)
  moreover have "no_orphans lib (w\<lparr>wredis := ?r\<rparr>)"
    using w(2) messages_Acknowledge unfolding no_orphans_def by simp blast
  ultimately show ?thesis
    using w assms(1) acknowledge(1,2)
    by (auto simp: interleaved_ok_def system_ok_def world_ok_def dest: in_set_takeD in_set_dropD)
next
  case (die w js)
  with assms(1) show ?thesis
    by (auto simp: interleaved_ok_def no_orphans_def system_ok_def world_ok_def)
qed


section \<open>Histories\<close>

lemma start_interleaved_ok: "interleaved_ok lib eng (start, [])"
  by (simp add: interleaved_ok_def start_ok)

lemma ireachable_ok: "ireachable lib eng cfg lmt s \<Longrightarrow> interleaved_ok lib eng s"
  by (induction rule: ireachable.induct) (auto simp: start_interleaved_ok dest: istep_keeps)

interpretation interleaved: transitions "istep lib eng cfg lmt" "interleaved_ok lib eng"
  for lib eng cfg lmt
  by unfold_locales (blast dest: istep_keeps)

text \<open>
  C2. In every state the programs reach, whatever the order of the actions and calls and the
  faults, the tables satisfy their constraints, every attempt and dead letter belongs to a
  notification, template names are unique, every template's content is one the engine parses,
  the queues hold messages of their own channel only, every channel has a breaker with sound
  counters, and no worker's next call panics.
\<close>

theorem system_invariant:
  assumes "ireachable lib eng cfg lmt (w, js)"
  shows "world_ok w \<and> names_ok (wdb w) \<and> contents_parse eng (wdb w) \<and>
    (\<forall>j\<in>set js. fst (call_step lib cfg lmt env (jid j) (jstage j) w) \<noteq> Panic)"
proof -
  have i: "interleaved_ok lib eng (w, js)" using ireachable_ok [OF assms] .
  then have w: "world_ok w" by (simp add: interleaved_ok_def system_ok_def)
  have "fst (call_step lib cfg lmt env (jid j) (jstage j) w) \<noteq> Panic" if j: "j \<in> set js" for j
  proof (cases "copy (jstage j)")
    case None
    from call_step_no_copy [OF this] show ?thesis by (metis go.distinct(1) prod.collapse)
  next
    case (Some n)
    have "sound_copy (wdb w) (jstage j)" using i j by (simp add: interleaved_ok_def)
    from call_step_copy [OF w this Some] show ?thesis by (metis next_sound_simps(1) prod.collapse)
  qed
  with i show ?thesis by (simp add: interleaved_ok_def system_ok_def tsvc_ok_def)
qed

text \<open>No worker holds a copy of the notification.\<close>

definition unclaimed :: "UUID \<Rightarrow> job list \<Rightarrow> bool" where
  "unclaimed k js \<longleftrightarrow> (\<forall>j\<in>set js. \<forall>m. copy (jstage j) = Some m \<longrightarrow> ID m \<noteq> k)"

lemma unclaimed_update:
  "unclaimed k js \<Longrightarrow> (\<And>m. copy ph = Some m \<Longrightarrow> ID m \<noteq> k) \<Longrightarrow> unclaimed k (js[i := j\<lparr>jstage := ph\<rparr>])"
  by (auto simp: unclaimed_def dest!: set_update_subset_insert [THEN subsetD])

lemma istep_settled:
  assumes "interleaved_ok lib eng s" "istep lib eng cfg lmt s s'"
    and "row (wdb (fst s)) k = Some n" "settled n" "unclaimed k (snd s)"
  shows "row (wdb (fst s')) k = Some n \<and> unclaimed k (snd s')"
  using assms(2)
proof cases
  case (other w w' js)
  have "world_ok w" using assms(1) other(1) by (simp add: interleaved_ok_def system_ok_def)
  then have "lawful_rows (wdb w) (wdb w')" using step_lawful [OF _ other(3)] by (simp add: lawful_def)
  with assms(3) other(1) obtain n' where "row (wdb w') k = Some n'" "lawful_row n n'"
    by (auto simp: lawful_rows_def)
  with lawful_row_settled assms(4,5) other(1,2) show ?thesis by fastforce
next
  case (advance i js env w ph w')
  let ?j = "js ! i"
  have w: "world_ok w" "sound_copy (wdb w) (jstage ?j)"
    using assms(1) advance(1,3) by (simp_all add: interleaved_ok_def system_ok_def)
  have "row (wdb w') k = Some n \<and> (\<forall>m. copy ph = Some m \<longrightarrow> ID m \<noteq> k)"
  proof (cases "copy (jstage ?j)")
    case None
    from call_step_no_copy [OF None advance(4)] have *: "w' = w"
      "\<And>m. copy ph = Some m \<Longrightarrow> row (wdb w) (ID m) = Some m \<and> \<not> Status_IsFinal (NStatus m)" by auto
    have "ID m \<noteq> k" if "copy ph = Some m" for m
    proof
      assume "ID m = k"
      with *(2) [OF that] assms(3) advance(1) have "m = n" by simp
      with *(2) [OF that] settled_final [OF assms(4)] show False by simp
    qed
    with *(1) assms(3) advance(1) show ?thesis by simp
  next
    case (Some m)
    have m: "ID m \<noteq> k" using assms(5) advance(1,3) Some by (auto simp: unclaimed_def)
    have g: "good_call lib m w w'" "\<forall>m'. copy ph = Some m' \<longrightarrow> identity m' = identity m"
      using call_step_copy [OF w Some advance(4)] by simp_all
    then have "row (wdb w') k = row (wdb w) k"
      using m by (simp add: good_call_def good_step_def only_touches_def)
    moreover have "\<forall>m'. copy ph = Some m' \<longrightarrow> ID m' \<noteq> k"
      using g(2) m identityD(1) by metis
    ultimately show ?thesis using assms(3) advance(1) by simp
  qed
  with advance(1,2) assms(5) show ?thesis by (simp add: unclaimed_update)
qed (use assms(3,5) in \<open>auto simp: unclaimed_def dest: in_set_takeD in_set_dropD\<close>)



text \<open>
  C6. Every message that waits in a queue or is in flight names an existing notification, bears
  its priority and is in the queue of its channel, so that a worker that takes it finds the
  row; and no notification has two different messages.
\<close>

theorem no_orphan_messages:
  assumes "uuid_lib_ok lib" and "ireachable lib eng cfg lmt (w, js)" and "m \<in> messages (wredis w) c"
  shows "(\<exists>n. UUID_Parse lib (QNotificationID m) = Inr (ID n) \<and> row (wdb w) (ID n) = Some n \<and>
      NChannel n = c \<and> m = queue_message lib n) \<and>
    (\<forall>c'. \<forall>m'\<in>messages (wredis w) c'. QNotificationID m' = QNotificationID m \<longrightarrow> m' = m)"
proof -
  have o: "\<exists>n. UUID_Parse lib (QNotificationID m) = Inr (ID n) \<and> row (wdb w) (ID n) = Some n \<and>
      NChannel n = c \<and> m = queue_message lib n" if "m \<in> messages (wredis w) c" for m c
  proof -
    have "no_orphans lib w" using ireachable_ok [OF assms(2)] by (simp add: interleaved_ok_def)
    with that have "m \<in> {queue_message lib n |n k. row (wdb w) k = Some n \<and> NChannel n = c}"
      by (simp add: no_orphans_def subset_eq)
    then obtain n k where n: "m = queue_message lib n" "row (wdb w) k = Some n" "NChannel n = c"
      by blast
    with row_ID [OF n(2)] assms(1) show ?thesis
      by (intro exI [of _ n]) (simp add: uuid_lib_ok_def queue_message_def)
  qed
  have "m' = m" if mm: "m' \<in> messages (wredis w) c'" "QNotificationID m' = QNotificationID m" for c' m'
  proof -
    obtain n where n: "UUID_Parse lib (QNotificationID m) = Inr (ID n)" "row (wdb w) (ID n) = Some n"
        "m = queue_message lib n" using o [OF assms(3)] by blast
    obtain n' where n': "UUID_Parse lib (QNotificationID m') = Inr (ID n')"
        "row (wdb w) (ID n') = Some n'" "m' = queue_message lib n'" using o [OF mm(1)] by blast
    from n(1) n'(1) mm(2) have "ID n = ID n'" by simp
    with n(2) n'(2) have "n = n'" by (metis option.inject)
    with n(3) n'(3) show ?thesis by simp
  qed
  with o [OF assms(3)] show ?thesis by blast
qed

section \<open>A cancellation that comes between\<close>

lemma Cancel_succeeds:
  assumes w: "world_ok w" and c: "Cancel lib kenv k w = (None, w1)" and r: "row (wdb w) k = Some n"
  shows "\<exists>t. row (wdb w1) k = Some (set_status StatusCancelled t n)"
    "wredis w1 = wredis w" "wbreakers w1 = wbreakers w" "wsent w1 = wsent w"
    "delivery_attempts (wdb w1) = delivery_attempts (wdb w)" "templates (wdb w1) = templates (wdb w)"
proof -
  obtain a d where e: "exec (k_update kenv) (cancel_where (\<lambda>r. ID r = k) (k_updated kenv)) (wdb w) = (Inr a, d)"
    and a: "a \<noteq> 0" and w1: "w1 = w\<lparr>wdb := d, wevents := wevents w @ [cancelled_event lib (k_event kenv) k]\<rparr>"
    using c by (auto simp: Cancel_def repo_CancelByID_def Let_def split: prod.splits option.splits sum.splits if_splits)
  let ?Q = "\<lambda>r. ID r = k \<and> (NStatus r = StatusPending \<or> NStatus r = StatusScheduled \<or> NStatus r = StatusQueued)"
  have d: "d = change_rows ?Q (set_status StatusCancelled (k_updated kenv)) (wdb w)"
    and sel: "a = int (length (selected ?Q (wdb w)))"
    using exec_InrD [OF e] by (auto simp: cancel_where_def Let_def)
  from a sel obtain m where m: "m \<in> set (notifications (wdb w))" "?Q m"
    by (auto simp: selected_def filter_empty_conv)
  with row_in [OF world_ok_notifications [OF w], of m] r have "?Q n" by auto
  with r have "row d k = Some (set_status StatusCancelled (k_updated kenv) n)"
    unfolding d by (simp add: row_change)
  then show "\<exists>t. row (wdb w1) k = Some (set_status StatusCancelled t n)" unfolding w1 by auto
  show "wredis w1 = wredis w" "wbreakers w1 = wbreakers w" "wsent w1 = wsent w"
    "delivery_attempts (wdb w1) = delivery_attempts (wdb w)" "templates (wdb w1) = templates (wdb w)"
    by (simp_all add: w1 d)
qed

text \<open>
  C4. A worker does not notice a cancellation that comes after it has read the notification:
  the cancellation is answered with success and the row is cancelled, and then the worker sends
  the notification all the same and the row becomes delivered.
\<close>

theorem cancel_overwritten:
  assumes p: "processable lib s k n w" and c: "Cancel lib kenv k w = (None, w1)"
    and f: "faultless env" and b: "breaker_admits env (NChannel n) w"
    and l: "limiter_admits lmt env (NChannel n) w"
    and a: "attempt_recordable env n w" and ok: "p_send env (send_request n) = Inr (Some resp)"
    and m: "varchar_ok 255 (MessageID resp)"
  shows "call_step lib cfg lmt env s Taken w = (Ret (Loaded n), w) \<and>
    map_option NStatus (row (wdb w1) k) = Some StatusCancelled \<and>
    (\<exists>w2. run_calls lib cfg lmt env s 6 (Loaded n) w1 = (Ret Finished, w2) \<and>
       wsent w2 = wsent w @ [send_request n] \<and>
       map_option NStatus (row (wdb w2) k) = Some StatusDelivered)"
proof -
  have w: "world_ok w" and pk: "UUID_Parse lib s = Inr k" "\<not> Status_IsFinal (NStatus n)"
    using p by (simp_all add: processable_def)
  note P = processableD [OF p]
  obtain t where r1: "row (wdb w1) k = Some (set_status StatusCancelled t n)"
    using Cancel_succeeds(1) [OF w c P(1)] by blast
  note C = Cancel_succeeds(2-6) [OF w c P(1)]
  have load: "call_step lib cfg lmt env s Taken w = (Ret (Loaded n), w)"
    using pk P(1) f by (simp add: repo_GetByID_def faultless_def)
  let ?n = "n\<lparr>NStatus := StatusProcessing\<rparr>"
  have n: "update_params_ok ?n" "update_row_ok ?n"
    using P(3,4) by (auto simp: marked_def update_params_ok_def update_row_ok_def)
  obtain d where u: "with_update None (p_marked env) ?n w1 = (None, marked env n, w1\<lparr>wdb := d\<rparr>)"
    and d: "row d = (row (wdb w1))(k \<mapsto> updated (marked env n) (set_status StatusCancelled t n))"
      "delivery_attempts d = delivery_attempts (wdb w1)"
    using with_update_ok [of w1 ?n, OF _ n] r1 P(2) by (auto simp: marked_def)
  let ?w2 = "publishEvent lib (p_event env) (marked env n) (w1\<lparr>wdb := d\<rparr>)"
  obtain br where br: "wbreakers ?w2 (NChannel n) = Some br" "fst (cb_Allow (p_allow env) br)"
    using b C(2) by (auto simp: breaker_admits_def split: option.splits)
  let ?b = "snd (cb_Allow (p_allow env) br)"
  let ?w3 = "?w2\<lparr>wbreakers := (wbreakers ?w2)(NChannel n \<mapsto> ?b)\<rparr>"
  have run: "run_calls lib cfg lmt env s (Suc (Suc i)) (Loaded n) w1 =
      run_calls lib cfg lmt env s i (Admitted (marked env n)) ?w3" for i
    using u f br by (simp add: faultless_def split_beta del: publishEvent_simps)
  have "run_calls lib cfg lmt env s 4 (Admitted (marked env n)) ?w3 =
      (Ret Finished, snd (limit_and_send lib cfg lmt env ?b (marked env n) ?w3))"
    using run_admitted [of ?w3 "marked env n" ?b lib cfg lmt env s 0] by (simp add: eval_nat_numeral)
  moreover have "limiter_admits lmt env (NChannel (marked env n)) ?w3"
    using l C(1) by (simp add: limiter_admits_def)
  then obtain r where "limit_and_send lib cfg lmt env ?b (marked env n) ?w3 =
      send_and_record lib cfg env ?b (marked env n) (?w3\<lparr>wredis := r\<rparr>)"
    using limit_and_send_admitted [OF faultlessD(3) [OF f], of lmt "marked env n" ?w3 lib cfg ?b] by blast
  moreover have q: "row (wdb (?w3\<lparr>wredis := r\<rparr>)) (ID (marked env n)) =
      Some (updated (marked env n) (set_status StatusCancelled t n))"
    using d P(2) by simp
  have a1: "attempt_recordable env (marked env n) (?w3\<lparr>wredis := r\<rparr>)"
    using a d(2) C(4) by (simp add: attempt_recordable_def)
  have send: "p_send env (send_request (marked env n)) = Inr (Some resp)" using ok by simp
  have mm: "nullable (varchar_ok 255) (map_option MessageID (Some resp))" using m by simp
  from send_success [OF f send mm q a1 P(3,4), of lib cfg ?b] obtain w4 where
    "send_and_record lib cfg env ?b (marked env n) (?w3\<lparr>wredis := r\<rparr>) = (None, w4)"
    "wsent w4 = wsent w @ [send_request n]" "map_option NStatus (row (wdb w4) k) = Some StatusDelivered"
    using C(3) P(2) by auto
  ultimately show ?thesis
    using load run [of 4] r1 by auto
qed

section \<open>A sample history\<close>

definition after_create :: world where
  "after_create = snd (Create sample_lib (Some sample_engine) (sample_create 9) (sample_request ''Hello'') start)"

definition after_cancel :: world where
  "after_cancel = snd (Cancel sample_lib
     \<lparr>k_update = None, k_exists = None, k_updated = 10000, k_event = 10000\<rparr> 9 after_create)"

lemma sample_reachable:
  "ireachable sample_lib sample_engine cfg lmt (after_create, [])"
  "ireachable sample_lib sample_engine cfg lmt (after_cancel, [])"
  by (auto simp: after_create_def after_cancel_def intro!: ireach_step [OF _ other [OF create]]
      ireach_step [OF _ other [OF cancel]] ireach_start)

lemma sample_lib_ok: "uuid_lib_ok sample_lib"
  using read_nat_string [of "[]"] by (simp add: uuid_lib_ok_def sample_lib_def)

theorem system_invariant_witness:
  "world_ok after_cancel \<and> names_ok (wdb after_cancel) \<and> contents_parse sample_engine (wdb after_cancel)"
  using system_invariant [OF sample_reachable(2)] by blast


theorem no_orphan_messages_witness:
  "\<exists>n. row (wdb after_create) 9 = Some n \<and> queue_message sample_lib n =
     \<lparr>QNotificationID = ''9'', QChannel = ''sms'', QPriority = 0, TraceParent = []\<rparr>"
proof -
  let ?m = "\<lparr>QNotificationID = ''9'', QChannel = ''sms'', QPriority = 0, TraceParent = []\<rparr> :: QueueMessage"
  have "waiting (wredis after_create) ''sms'' ?m \<noteq> None" by code_simp
  then have "?m \<in> messages (wredis after_create) ''sms''" by (auto simp: messages_def)
  moreover have "UUID_Parse sample_lib ''9'' = Inr 9" by code_simp
  ultimately obtain n where "Inr 9 = (Inr (ID n) :: err + UUID)" "row (wdb after_create) (ID n) = Some n"
      "?m = queue_message sample_lib n"
    using no_orphan_messages [OF sample_lib_ok sample_reachable(1) [of sample_config "NewLimiter 5"], of ?m "''sms''"]
    unfolding QueueMessage.select_convs by metis
  then show ?thesis by auto
qed


theorem cancel_overwritten_witness:
  "\<exists>w1 w2. Cancel sample_lib \<lparr>k_update = None, k_exists = None, k_updated = 500, k_event = 500\<rparr> 5
      (sample_world (to_send 0)) = (None, w1) \<and>
    map_option NStatus (row (wdb w1) 5) = Some StatusCancelled \<and>
    run_calls sample_lib sample_config (NewLimiter 100)
      (sample_env (Inr (Some \<lparr>MessageID = ''m-1'', RStatus = ''accepted'', RTimestamp = []\<rparr>))) ''5''
      6 (Loaded (to_send 0)) w1 = (Ret Finished, w2) \<and>
    map_option NStatus (row (wdb w2) 5) = Some StatusDelivered"
proof -
  let ?k = "\<lparr>k_update = None, k_exists = None, k_updated = 500, k_event = 500\<rparr> :: Cancel_Env"
  let ?r = "\<lparr>MessageID = ''m-1'', RStatus = ''accepted'', RTimestamp = []\<rparr>"
  have "fst (Cancel sample_lib ?k 5 (sample_world (to_send 0))) = None" by code_simp
  then obtain w1 where c: "Cancel sample_lib ?k 5 (sample_world (to_send 0)) = (None, w1)"
    by (metis prod.exhaust_sel)
  have v: "varchar_ok 255 (MessageID ?r)" by (simp add: varchar_ok_def ascii_length ascii_def)
  from cancel_overwritten [OF sample_processable [of 0] c, of "sample_env (Inr (Some ?r))"
      "NewLimiter 100" ?r sample_config] v c
  show ?thesis by auto
qed

end
