(* ===== verification/End_To_End.thy ===== *)
theory End_To_End
  imports Interleaving
begin

text \<open>
  The way of one notification through both programs: a request to the API, the queue in Redis,
  a worker's round, the provider.
\<close>

section \<open>What the request leaves behind\<close>

lemma render_without_template:
  "CnTemplateID req = None \<Longrightarrow> render_request svc f req d = Inr req' \<longleftrightarrow> req' = req"
  by (auto simp: render_request_def)

lemma Create_immediate:
  assumes w: "world_ok w" and c: "Create lib svc env req w = (Inr n, w1)"
    and new: "row (wdb w) (ID n) = None"
    and req: "CnTemplateID req = None" "CnScheduledAt req = None"
    and f: "c_queued env = None" "c_enqueue env = None"
  shows "n = (requested env req)\<lparr>NStatus := StatusQueued\<rparr>"
    and "row (wdb w1) (ID n) =
      Some (set_status StatusQueued (c_queued_at env) (inserted (requested env req)))"
    and "wredis w1 = zadd_message (c_enqueued env) (queue_message lib n) (wredis w)"
    and "wbreakers w1 = wbreakers w" "wsent w1 = wsent w"
    and "delivery_attempts (wdb w1) = delivery_attempts (wdb w)"
proof -
  obtain q d m w' where 4: "accepted_request svc env req (wdb w) q"
      "repo_Create (c_insert env) (requested env q) (wdb w) = (None, d)"
      "enqueue_created lib env (requested env q) (w\<lparr>wdb := d\<rparr>) = (m, w')"
      "n = m" "w1 = w'\<lparr>wevents := wevents w' @ [created_event lib m]\<rparr>"
    using c new row_in [OF world_ok_notifications [OF w]]
    by (cases rule: Create_cases [of lib svc env req w]) auto
  have q: "q = req" using 4(1) req(1) by (simp add: accepted_request_def render_without_template)
  note i = conjunct2 [OF repo_Create_stored [OF 4(2)]]
  have d: "row d (c_id env) = Some (inserted (requested env req))"
    "delivery_attempts d = delivery_attempts (wdb w)"
    using insert_row_row [OF i] insert_notification_Inr(3) [OF i] by (simp_all add: q)
  have p: "NStatus (requested env req) = StatusPending" using req(2) by simp
  note e = 4(3) [unfolded q enqueue_created_pending [OF p], symmetric]
  show n: "n = (requested env req)\<lparr>NStatus := StatusQueued\<rparr>" using e 4(4) by simp
  show "row (wdb w1) (ID n) =
      Some (set_status StatusQueued (c_queued_at env) (inserted (requested env req)))"
    using e 4(5) d(1) f by (simp add: n executed_def row_change)
  show "wredis w1 = zadd_message (c_enqueued env) (queue_message lib n) (wredis w)"
    using e 4(5) f by (simp add: n executed_def)
  show "wbreakers w1 = wbreakers w" "wsent w1 = wsent w"
    "delivery_attempts (wdb w1) = delivery_attempts (wdb w)"
    using e 4(5) d(2) by simp_all
qed

section \<open>The queue with one message\<close>

lemma Dequeue_single:
  assumes q: "queue_ok r" and one: "waiting r c = [m \<mapsto> s]" and none: "in_flight r c = {}"
  obtains r' where "Dequeue None c r = (Inr (Some m), r')" "queue_ok r'" "waiting r' c = Map.empty"
    "in_flight r' c = {m}"
proof -
  obtain mo r' where d: "Dequeue None c r = (Inr mo, r')" using Dequeue_never_errs [OF q] by blast
  then have dq: "deq_ok c r = (mo, r')" by (simp add: deq_ok_def)
  have "mo = Some m"
  proof (cases mo)
    case None
    with redis_queue.deq_None [OF q, of c r'] dq one show ?thesis by simp
  next
    case (Some m')
    with redis_queue.deq_least [OF q, of c m' r'] dq one show ?thesis by (auto split: if_splits)
  qed
  with d dq have d: "Dequeue None c r = (Inr (Some m), r')" and dq: "deq_ok c r = (Some m, r')" by simp_all
  show ?thesis
  proof (rule that [OF d])
    show "queue_ok r'" using queue_ok_Dequeue [OF q, of None c] d by simp
    show "waiting r' c = Map.empty" using redis_queue.wait_deq [OF q dq, of c] one by simp
    show "in_flight r' c = {m}" using redis_queue.flight_deq [OF q dq, of c] none by simp
  qed
qed

lemma Acknowledge_single:
  assumes q: "queue_ok r" and one: "in_flight r c = {m}"
  shows "waiting (snd (Acknowledge None None c (QNotificationID m) r)) c' = waiting r c'"
    and "in_flight (snd (Acknowledge None None c (QNotificationID m) r)) c = {}"
proof -
  let ?r = "ack_ok c (QNotificationID m) r"
  show "waiting (snd (Acknowledge None None c (QNotificationID m) r)) c' = waiting r c'"
    using redis_queue.wait_ack [of c "QNotificationID m" r] by (simp add: ack_ok_def)
  have "m \<notin> in_flight ?r c"
    by (rule redis_queue.flight_ack_removes [OF q]) (use one in auto)
  moreover have "in_flight ?r c \<subseteq> {m}"
    using redis_queue.flight_ack [OF q, of c "QNotificationID m"] one by simp
  ultimately show "in_flight (snd (Acknowledge None None c (QNotificationID m) r)) c = {}"
    by (auto simp: ack_ok_def)
qed

text \<open>The queue and the limiter's windows have different keys.\<close>

lemma limiter_admits_keys:
  assumes "zsets (wredis w') (limiter_key c) = zsets (wredis w) (limiter_key c)"
    and "expiry (wredis w') (limiter_key c) = expiry (wredis w) (limiter_key c)"
  shows "limiter_admits lmt env c w' = limiter_admits lmt env c w"
proof -
  have "live srv (limiter_key c) (wredis w') = live srv (limiter_key c) (wredis w)" for srv
    using assms by (simp add: live_def split: option.split)
  then show ?thesis by (simp add: limiter_admits_def slidingWindowScript_def Let_def)
qed

lemma queue_leaves_limiter:
  "zsets (zadd_message t m r) (limiter_key c) = zsets r (limiter_key c)"
  "expiry (zadd_message t m r) = expiry r"
  "zsets (snd (Dequeue f c' r)) (limiter_key c) = zsets r (limiter_key c)"
  "expiry (snd (Dequeue f c' r)) = expiry r"
  by (auto simp: zadd_message_def Let_def Dequeue_def exec_def dequeueScript_def
      split: option.split sum.split prod.split)

section \<open>A round with one message\<close>

text \<open>
  A worker's round in a channel in which one message waits and none is in flight: what the round
  comes to when the processing of the message leaves the queue alone.
\<close>

lemma round_single:
  assumes w: "world_ok w" and one: "waiting (wredis w) c = [m \<mapsto> t]" and none: "in_flight (wredis w) c = {}"
    and tf: "t_dequeue env = None" "t_members env = None" "t_remove env = None"
  obtains r where "world_ok (w\<lparr>wredis := r\<rparr>)"
    "zsets r (limiter_key c) = zsets (wredis w) (limiter_key c)" "expiry r = expiry (wredis w)"
    "\<And>res w2. Process lib cfg lmt (t_process env) (QNotificationID m) (w\<lparr>wredis := r\<rparr>) = (Ret res, w2) \<Longrightarrow>
       same_queue r (wredis w2) \<Longrightarrow>
       \<exists>r2. worker_tick lib cfg lmt c env w = (Ret True, w2\<lparr>wredis := r2\<rparr>) \<and>
         world_ok (w2\<lparr>wredis := r2\<rparr>) \<and> waiting r2 c = Map.empty \<and> in_flight r2 c = {}"
proof -
  have q: "queue_ok (wredis w)" using w by (simp add: world_ok_def)
  obtain r where d: "Dequeue None c (wredis w) = (Inr (Some m), r)" "queue_ok r"
      "waiting r c = Map.empty" "in_flight r c = {m}"
    by (rule Dequeue_single [OF q one none])
  have r: "r = snd (Dequeue None c (wredis w))" using d(1) by simp
  show ?thesis
  proof (rule that [of r])
    show "world_ok (w\<lparr>wredis := r\<rparr>)" using w d(2) by (rule world_ok_redis)
    show "zsets r (limiter_key c) = zsets (wredis w) (limiter_key c)" "expiry r = expiry (wredis w)"
      by (simp_all add: r queue_leaves_limiter)
    fix res w2
    assume P: "Process lib cfg lmt (t_process env) (QNotificationID m) (w\<lparr>wredis := r\<rparr>) = (Ret res, w2)"
      and s: "same_queue r (wredis w2)"
    let ?r2 = "snd (Acknowledge None None c (QNotificationID m) (wredis w2))"
    have q2: "queue_ok (wredis w2)"
      using Process_effect [OF world_ok_redis [OF w d(2)] P] by (simp add: world_ok_def)
    have f: "waiting (wredis w2) c = Map.empty" "in_flight (wredis w2) c = {m}"
      using same_queueD [OF s, of c] d(3,4) by simp_all
    have tick: "worker_tick lib cfg lmt c env w = (Ret True, w2\<lparr>wredis := ?r2\<rparr>)"
      using d(1) P tf by (simp add: worker_tick_def split_beta)
    then have "world_ok (w2\<lparr>wredis := ?r2\<rparr>)"
      using worker_tick_ok [OF w, of lib cfg lmt c env] by simp
    with tick f(1) Acknowledge_single [OF q2 f(2)]
    show "\<exists>r2. worker_tick lib cfg lmt c env w = (Ret True, w2\<lparr>wredis := r2\<rparr>) \<and>
        world_ok (w2\<lparr>wredis := r2\<rparr>) \<and> waiting r2 c = Map.empty \<and> in_flight r2 c = {}"
      by (intro exI [of _ ?r2]) simp
  qed
qed

section \<open>A sample\<close>

definition accepted_response :: SendResponse where
  "accepted_response = \<lparr>MessageID = ''m-1'', RStatus = ''accepted'', RTimestamp = []\<rparr>"

definition delivering_tick :: Tick_Env where
  "delivering_tick = \<lparr>t_dequeue = None, t_cancelled = False,
     t_process = sample_env (Inr (Some accepted_response)), t_members = None, t_remove = None\<rparr>"

end
