(* ===== verification/Stranded.thy ===== *)
theory Stranded
  imports End_To_End
begin

text \<open>
  Notifications that nothing takes up any more: no poll claims them, no message waits for them
  and no worker holds them. How a worker that is stopped leaves one behind.
\<close>

section \<open>The messages that wait\<close>

definition queued :: "redis \<Rightarrow> QueueMessage set" where
  "queued r = {m. \<exists>c. waiting r c m \<noteq> None}"

lemma queued_same: "same_queue r r' \<Longrightarrow> queued r' = queued r"
  by (simp add: queued_def same_queueD)

lemma queued_Enqueue: "queue_ok r \<Longrightarrow> queued (snd (Enqueue f t m r)) \<subseteq> insert m (queued r)"
  by (auto simp: queued_def Enqueue_state waiting_zadd split: if_splits)

lemma queued_EnqueueBatch:
  assumes "queue_ok r"
  shows "queued (snd (EnqueueBatch f now ms r)) \<subseteq> set ms \<union> queued r"
proof -
  let ?I = "\<lambda>s. queue_ok s \<and> queued s \<subseteq> set ms \<union> queued r"
  have add: "?I (zadd_message t m s)" if "?I s" "m \<in> set ms" for t m s
    using that queued_Enqueue [of s None t m] by (auto simp: Enqueue_state executed_def keeps)
  have "?I (snd (EnqueueBatch f now ms r))"
    unfolding EnqueueBatch_def
  proof (rule pipeline_keeps [where I = ?I])
    fix cmd t
    assume "cmd \<in> set (map (\<lambda>(i, msg). zadd_message (now i) msg) (enumerate 0 ms))" "?I t"
    then obtain i m where "cmd = zadd_message (now i) m" "m \<in> set ms"
      by (auto simp: in_set_enumerate_eq)
    with add \<open>?I t\<close> show "?I (cmd t)" by blast
  qed (use assms in simp)
  then show ?thesis by simp
qed

lemma queued_Dequeue:
  assumes "queue_ok r"
  shows "queued (snd (Dequeue f c r)) \<subseteq> queued r"
proof -
  obtain mo r' where d: "deq_ok c r = (mo, r')" by (metis prod.exhaust)
  have "queued r' \<subseteq> queued r"
  proof (cases mo)
    case None
    with redis_queue.deq_None [OF assms, of c r'] d show ?thesis by simp
  next
    case (Some m)
    with redis_queue.wait_deq [OF assms, of c m r'] d show ?thesis
      by (auto simp: queued_def split: if_splits)
  qed
  with Dequeue_state [OF assms, of f c] d show ?thesis by auto
qed

lemma queued_Acknowledge: "queued (snd (Acknowledge f1 f2 c i r)) = queued r"
proof -
  have "zsets (snd (Acknowledge f1 f2 c i r)) = zsets r"
    by (auto simp: Acknowledge_def exec_def Let_def split: sum.split option.split)
  then show ?thesis by (simp add: queued_def waiting_def)
qed

lemma queued_limit_and_send:
  assumes "queue_ok (wredis w)"
  shows "queued (wredis (snd (limit_and_send lib cfg lmt env b n w))) \<subseteq>
    insert (queue_message lib n) (queued (wredis w))"
proof -
  obtain a r where l: "limiter_Allow lmt (p_limit env) (p_limit_server env) (p_limit_now env)
      (p_limit_id env) (NChannel n) (wredis w) = (a, r)" by (metis prod.exhaust)
  have "queue_ok r" "queued r = queued (wredis w)"
    using queue_ok_limiter [OF assms] queued_same [OF same_queue_limiter] l by (metis snd_conv)+
  then show ?thesis
    using l queued_Enqueue [of r "p_requeue env" "p_requeued env" "queue_message lib n"]
      queued_same [OF same_queue_send [of "w\<lparr>wredis := r\<rparr>" lib cfg env b n]]
    by (auto simp: limit_and_send_def Let_def split_beta split: sum.split)
qed

text \<open>A round adds at most the message of the notification it was called for.\<close>

lemma Process_queued:
  assumes w: "world_ok w" and lib: "uuid_lib_ok lib" and p: "Process lib cfg lmt env s w = (res, w')"
    and m: "m \<in> queued (wredis w')"
  shows "m \<in> queued (wredis w) \<or> UUID_Parse lib (QNotificationID m) = UUID_Parse lib s"
  using Process_redis [OF p]
proof (elim disjE exE conjE)
  fix k n n1 b w3
  assume n: "UUID_Parse lib s = Inr k" "row (wdb w) k = Some n"
    "queue_message lib n1 = queue_message lib n" "NChannel n1 = NChannel n"
    "w' = snd (limit_and_send lib cfg lmt env b n1 w3)" "wredis w3 = wredis w"
  have "UUID_Parse lib (QNotificationID (queue_message lib n)) = Inr k"
    using lib row_ID [OF n(2)] by (simp add: uuid_lib_ok_def queue_message_def)
  with n m queued_limit_and_send [of w3 lib cfg lmt env b n1] w show ?thesis
    by (auto simp: world_ok_def)
qed (use m in simp)

text \<open>A call of a worker adds at most the message of the copy it holds.\<close>

lemma call_step_queued:
  assumes q: "queue_ok (wredis w)" and p: "call_step lib cfg lmt env s ph w = (Ret ph', w')"
    and m: "m \<in> queued (wredis w')"
  shows "m \<in> queued (wredis w) \<or> (\<exists>n. copy ph = Some n \<and> m = queue_message lib n)"
proof (cases ph)
  case (Refused n)
  with p m queued_Enqueue [OF q, of "p_requeue env" "p_requeued env" "queue_message lib n"] show ?thesis
    by (auto simp: Let_def split_beta)
next
  case (Admitted n)
  with p have "wredis w' = snd (limiter_Allow lmt (p_limit env) (p_limit_server env) (p_limit_now env)
             (p_limit_id env) (NChannel n) (wredis w))"
    by (auto split: prod.splits sum.splits)
  with m queued_same [OF same_queue_limiter] show ?thesis by metis
next
  case (Sent n res)
  with p have "wredis w' = RecordFailure (p_metrics env) (wredis w) \<or>
      (\<exists>d. wredis w' = RecordDelivery (p_metrics env) d (wredis w))"
    by (auto simp: Let_def split_beta split: option.splits sum.splits)
  with m queued_same [OF same_queue_metrics(1)] queued_same [OF same_queue_metrics(2)] show ?thesis by metis
next
  case Taken
  with p call_step_no_copy [of ph lib cfg lmt env s w "Ret ph'" w'] m show ?thesis by simp
next
  case (Loaded n)
  obtain e n1 w1 where u: "with_update (p_mark env) (p_marked env) (n\<lparr>NStatus := StatusProcessing\<rparr>) w = (e, n1, w1)"
    by (metis prod_cases3)
  with p Loaded m with_update_mark(6) [OF u] show ?thesis by (cases e) auto
qed (use p m in \<open>auto simp: Let_def split_beta split: option.splits if_splits\<close>)

section \<open>Rows that nothing names\<close>

text \<open>The rows that a poll claims when their time has come.\<close>

definition claimable :: "Notification \<Rightarrow> bool" where
  "claimable n \<longleftrightarrow> NStatus n = StatusScheduled \<or> (NStatus n = StatusFailed \<and> RetryCount n < MaxRetries n)"

definition unnamed :: "uuid_lib \<Rightarrow> UUID \<Rightarrow> redis \<Rightarrow> bool" where
  "unnamed lib k r \<longleftrightarrow> (\<forall>m\<in>queued r. UUID_Parse lib (QNotificationID m) \<noteq> Inr k)"

text \<open>What the API can still do.\<close>

definition left_alone :: "Notification \<Rightarrow> Notification \<Rightarrow> bool" where
  "left_alone n n' \<longleftrightarrow> n' = n \<or>
     ((NStatus n = StatusPending \<or> NStatus n = StatusQueued) \<and> (\<exists>t. n' = set_status StatusCancelled t n))"

definition stays :: "uuid_lib \<Rightarrow> UUID \<Rightarrow> Notification \<Rightarrow> world \<Rightarrow> bool" where
  "stays lib k n w \<longleftrightarrow>
     (\<exists>n'. row (wdb w) k = Some n' \<and> left_alone n n') \<and> unnamed lib k (wredis w)"

lemma left_alone_refl [simp]: "left_alone n n"
  by (simp add: left_alone_def)

lemma left_alone_trans: "left_alone n n' \<Longrightarrow> left_alone n' n'' \<Longrightarrow> left_alone n n''"
  by (auto simp: left_alone_def)

lemma left_alone_claimable: "left_alone n n' \<Longrightarrow> \<not> claimable n \<Longrightarrow> \<not> claimable n'"
  by (auto simp: left_alone_def claimable_def)

lemma unnamed_mono:
  "unnamed lib k r \<Longrightarrow>
     (\<And>m. m \<in> queued r' \<Longrightarrow> m \<in> queued r \<or> UUID_Parse lib (QNotificationID m) \<noteq> Inr k) \<Longrightarrow>
     unnamed lib k r'"
  by (auto simp: unnamed_def)

lemma parse_message: "uuid_lib_ok lib \<Longrightarrow> UUID_Parse lib (QNotificationID (queue_message lib n)) = Inr (ID n)"
  by (simp add: uuid_lib_ok_def queue_message_def)

lemma stays_rows:
  "row d k = Some n \<Longrightarrow> unnamed lib k (wredis w) \<Longrightarrow> stays lib k n (w\<lparr>wdb := d\<rparr>)"
  by (auto simp: stays_def)

lemma row_exec_insert:
  assumes "row d k = Some n"
  shows "row (snd (exec f (insert_notification m) d)) k = Some n"
  by (rule exec_keeps [where I = "\<lambda>d. row d k = Some n"])
     (use assms insert_row_row insert_notification_Inr(2) in fastforce)+

lemma stays_Create:
  assumes w: "world_ok w" and lib: "uuid_lib_ok lib"
    and r: "row (wdb w) k = Some n" and u: "unnamed lib k (wredis w)"
  shows "stays lib k n (snd (Create lib svc env req w))"
proof (cases rule: Create_cases [of lib svc env req w])
  case (3 q e d)
  have "d = snd (exec (c_insert env) (insert_notification (requested env q)) (wdb w))"
    using 3(2) by (auto simp: repo_Create_def split: prod.splits)
  with 3(3) r u row_exec_insert show ?thesis by (simp add: stays_rows)
next
  case (4 q d m w')
  let ?n = "requested env q"
  note i = conjunct2 [OF repo_Create_stored [OF 4(2)]]
  have q: "queue_ok (wredis w)" using w by (simp add: world_ok_def)
  have rows: "row d = (row (wdb w))(c_id env \<mapsto> inserted ?n)" "row (wdb w) (c_id env) = None"
    using insert_row_row [OF i] insert_notification_Inr(2) [OF i] by simp_all
  then have k: "c_id env \<noteq> k" and d: "row d k = Some n" using r by auto
  show ?thesis
  proof (cases "NStatus ?n = StatusPending")
    case True
    have "row (wdb w') k = Some n"
      using 4(3) d k row_ID [OF d]
      by (auto simp: enqueue_created_pending [OF True] row_change simp del: requested_sim(7))
    moreover have "wredis w' = snd (Enqueue (c_enqueue env) (c_enqueued env) (queue_message lib ?n) (wredis w))"
      using 4(3) by (auto simp: enqueue_created_pending [OF True] Enqueue_state simp del: requested_sim(7))
    then have "unnamed lib k (wredis w')"
      using queued_Enqueue [OF q, of "c_enqueue env" "c_enqueued env" "queue_message lib ?n"]
        parse_message [OF lib, of ?n] k
      by (intro unnamed_mono [OF u]) auto
    ultimately show ?thesis using 4(4) by (auto simp: stays_def)
  next
    case False
    then have "w' = w\<lparr>wdb := d\<rparr>" using 4(3) by (auto simp: enqueue_created_def)
    with 4(4) d u show ?thesis by (auto simp: stays_def)
  qed
qed (use r u in \<open>auto simp: stays_def\<close>)

lemma stays_CreateBatch:
  assumes w: "world_ok w" and lib: "uuid_lib_ok lib"
    and r: "row (wdb w) k = Some n" and u: "unnamed lib k (wredis w)"
  shows "stays lib k n (snd (CreateBatch lib env reqs w))"
proof (cases rule: CreateBatch_state [of lib env reqs w])
  case same
  with r u show ?thesis by (auto simp: stays_def)
next
  case rows
  with row_append [OF r] u show ?thesis by (auto simp: stays_def)
next
  case queued
  let ?ns = "batch_accepted env (enumerate 0 reqs)"
  let ?msgs = "map (queue_message lib) (filter (\<lambda>n. NStatus n = StatusQueued) ?ns)"
  let ?r = "snd (EnqueueBatch (b_enqueue env) (b_enqueued env) ?msgs (wredis w))"
  have new: "ID m \<noteq> k" if "m \<in> set ?ns" for m
  proof
    assume "ID m = k"
    moreover have "distinct (map ID (notifications (wdb w) @ map inserted ?ns))"
      using queued(1) world_ok_notifications [OF w] by (simp add: notifications_ok_def)
    then have "ID (inserted m) \<notin> set (map ID (notifications (wdb w)))"
      using that by (auto simp: image_iff)
    ultimately show False using row_mem [OF r] row_ID [OF r] by (simp add: image_iff) (metis)
  qed
  have "unnamed lib k ?r"
  proof (rule unnamed_mono [OF u])
    fix m
    assume "m \<in> queued ?r"
    with queued_EnqueueBatch [of "wredis w" "b_enqueue env" "b_enqueued env" ?msgs] w
    have "m \<in> set ?msgs \<or> m \<in> queued (wredis w)" by (auto simp: world_ok_def)
    with new parse_message [OF lib] show "m \<in> queued (wredis w) \<or> UUID_Parse lib (QNotificationID m) \<noteq> Inr k"
      by auto
  qed
  with queued(2) row_append [OF r] show ?thesis by (auto simp: stays_def)
qed

lemma stays_cancel:
  assumes r: "row d k = Some n" and n: "\<not> claimable n"
  shows "\<exists>n'. row (snd (exec f (cancel_where P now) d)) k = Some n' \<and> left_alone n n'"
proof (cases rule: exec_cases [of f "cancel_where P now" d])
  case 1
  with r show ?thesis by auto
next
  case (2 a d')
  then have "snd (exec f (cancel_where P now) d) = change_rows (\<lambda>r. P r \<and> (NStatus r = StatusPending \<or>
      NStatus r = StatusScheduled \<or> NStatus r = StatusQueued)) (set_status StatusCancelled now) d"
    by (auto simp: cancel_where_def Let_def)
  with r n show ?thesis by (auto simp: row_change left_alone_def claimable_def)
qed

lemma stays_Cancel:
  assumes r: "row (wdb w) k = Some n" "\<not> claimable n" and u: "unnamed lib k (wredis w)"
  shows "stays lib k n (snd (Cancel lib env j w))" "stays lib k n (snd (CancelBatch f now b w))"
  using stays_cancel [OF r] u
  by (auto simp: stays_def Cancel_def CancelBatch_def repo_CancelByID_def repo_CancelByBatchID_def
      split_beta Let_def split: sum.split option.split)

lemma stays_poll:
  assumes w: "world_ok w" and lib: "uuid_lib_ok lib"
    and r: "row (wdb w) k = Some n" "\<not> claimable n" and u: "unnamed lib k (wredis w)"
    and P: "\<And>m. P m \<Longrightarrow> claimable m"
  shows "stays lib k n (enqueue_claimed lib env (exec f (claim P due now locked l) (wdb w)) w)"
proof -
  have ok: "notifications_ok (wdb w)" using w by (rule world_ok_notifications)
  have keep: "row d k = Some n" "k \<notin> set (map ID ns)" if "claim P due now locked l (wdb w) = Inr (ns, d)" for ns d
  proof -
    show k: "k \<notin> set (map ID ns)"
    proof
      assume "k \<in> set (map ID ns)"
      then obtain m where "m \<in> set ns" "ID m = k" by auto
      with claim_returns [OF ok that] r(1) have "P n" by force
      with P r(2) show False by blast
    qed
    show "row d k = Some n" using claim_row [OF that, of k] k r(1) by simp
  qed
  have d: "row (snd (exec f (claim P due now locked l) (wdb w))) k = Some n"
    by (rule exec_keeps [where I = "\<lambda>d. row d k = Some n"]) (use r keep in auto)
  obtain res d where e: "exec f (claim P due now locked l) (wdb w) = (res, d)" by (metis prod.exhaust)
  show ?thesis
  proof (cases res)
    case (Inl e')
    with e d u show ?thesis by (simp add: enqueue_claimed_def stays_rows)
  next
    case (Inr ns)
    with e have c: "claim P due now locked l (wdb w) = Inr (ns, d)" by (auto dest: exec_InrD)
    have q: "queue_ok (wredis w)" using w by (simp add: world_ok_def)
    have "unnamed lib k (snd (EnqueueBatch (q_enqueue env) (q_enqueued env) (map (queue_message lib) ns) (wredis w)))"
      using queued_EnqueueBatch [OF q, of "q_enqueue env" "q_enqueued env" "map (queue_message lib) ns"]
        keep(2) [OF c] parse_message [OF lib]
      by (intro unnamed_mono [OF u]) (fastforce simp del: queue_message_inserted)
    with e d u Inr show ?thesis
      by (auto simp: enqueue_claimed_def stays_def split_beta Let_def)
  qed
qed

lemma queued_message: "queue_ok r \<Longrightarrow> Dequeue f c r = (Inr (Some m), r') \<Longrightarrow> m \<in> queued r"
  using Dequeue_message(3) by (fastforce simp: queued_def)

lemma stays_worker:
  assumes w: "world_ok w" and lib: "uuid_lib_ok lib"
    and r: "row (wdb w) k = Some n" and u: "unnamed lib k (wredis w)"
  shows "stays lib k n (snd (worker_tick lib cfg lmt c env w))"
proof -
  have q: "queue_ok (wredis w)" using w by (simp add: world_ok_def)
  have dq: "unnamed lib k (snd (Dequeue (t_dequeue env) c (wredis w)))"
    using queued_Dequeue [OF q, of "t_dequeue env" c] by (intro unnamed_mono [OF u]) blast
  show ?thesis
  proof (cases rule: worker_tick_cases [of lib cfg lmt c env w])
    case (1 b)
    with r dq show ?thesis by (auto simp: stays_def)
  next
    case (2 m rd res w1)
    have m: "UUID_Parse lib (QNotificationID m) \<noteq> Inr k"
      using queued_message [OF q 2(1)] u by (simp add: unnamed_def)
    have wd: "world_ok (w\<lparr>wredis := rd\<rparr>)"
      using world_ok_redis [OF w] queue_ok_Dequeue [OF q, of "t_dequeue env" c] 2(1) by simp
    have "row (wdb w1) k = Some n"
      using Process_effect [OF wd 2(2)] m r by (auto simp: only_touches_def)
    moreover have "unnamed lib k rd" using dq 2(1) by simp
    then have "unnamed lib k (wredis w1)"
    proof (rule unnamed_mono)
      fix x
      assume "x \<in> queued (wredis w1)"
      from Process_queued [OF wd lib 2(2) this] m
      show "x \<in> queued rd \<or> UUID_Parse lib (QNotificationID x) \<noteq> Inr k" by auto
    qed
    ultimately show ?thesis
      using 2(3) by (auto simp: stays_def unnamed_def queued_Acknowledge split: go.split)
  qed
qed

text \<open>Every action of the programs leaves such a row alone.\<close>

lemma step_stays:
  assumes w: "world_ok w" and lib: "uuid_lib_ok lib" and s: "step lib eng cfg lmt w w'"
    and r: "row (wdb w) k = Some n" "\<not> claimable n" and u: "unnamed lib k (wredis w)"
  shows "stays lib k n w'"
  using s
proof cases
  case (crash f c)
  have "unnamed lib k (snd (Dequeue f c (wredis w)))"
    using queued_Dequeue [of "wredis w" f c] w by (intro unnamed_mono [OF u]) (auto simp: world_ok_def)
  with r show ?thesis by (auto simp: crash stays_def)
next
  case schedule
  then show ?thesis
    unfolding scheduler_poll_def GetScheduledReady_exec
    by (auto simp: claimable_def intro!: stays_poll [OF w lib r u])
next
  case retry
  then show ?thesis
    unfolding retry_poll_def GetRetryReady_exec
    by (auto simp: claimable_def intro!: stays_poll [OF w lib r u])
qed (use r u in \<open>auto simp: stays_Create [OF w lib] stays_CreateBatch [OF w lib] stays_Cancel
       stays_worker [OF w lib] row_def intro!: stays_rows\<close>)

section \<open>With workers at work\<close>

definition unheld :: "uuid_lib \<Rightarrow> UUID \<Rightarrow> job list \<Rightarrow> bool" where
  "unheld lib k js \<longleftrightarrow>
     (\<forall>j\<in>set js. UUID_Parse lib (jid j) \<noteq> Inr k \<and> (\<forall>m. copy (jstage j) = Some m \<longrightarrow> ID m \<noteq> k))"

lemma call_step_loads:
  assumes "copy ph = None" "call_step lib cfg lmt env s ph w = (Ret ph', w')" "copy ph' = Some n"
  shows "UUID_Parse lib s = Inr (ID n)"
proof (cases ph)
  case Taken
  with assms show ?thesis
    by (auto simp: repo_GetByID_def row_ID split: sum.splits option.splits if_splits dest!: query_Inr)
qed (use assms in auto)

lemma istep_stays:
  assumes lib: "uuid_lib_ok lib" and ok: "interleaved_ok lib eng (w, js)"
    and s: "istep lib eng cfg lmt (w, js) (w', js')"
    and r: "row (wdb w) k = Some n" "\<not> claimable n" and u: "unnamed lib k (wredis w)"
    and h: "unheld lib k js"
  shows "stays lib k n w' \<and> unheld lib k js'"
proof -
  have w: "world_ok w" and q: "queue_ok (wredis w)"
    using ok by (simp_all add: interleaved_ok_def system_ok_def world_ok_def)
  show ?thesis
    using s
  proof cases
    case other
    with step_stays [OF w lib _ r u] h show ?thesis by blast
  next
    case (take f c m rd)
    have "unnamed lib k rd"
      using queued_Dequeue [OF q, of f c] take(3) by (intro unnamed_mono [OF u]) auto
    moreover have "UUID_Parse lib (QNotificationID m) \<noteq> Inr k"
      using queued_message [OF q take(3)] u by (simp add: unnamed_def)
    ultimately show ?thesis using r h take(1,2) by (auto simp: stays_def unheld_def)
  next
    case (advance i env ph)
    let ?j = "js ! i"
    have j: "UUID_Parse lib (jid ?j) \<noteq> Inr k" "\<And>m. copy (jstage ?j) = Some m \<Longrightarrow> ID m \<noteq> k"
      "sound_copy (wdb w) (jstage ?j)"
      using h ok advance(2) by (auto simp: unheld_def interleaved_ok_def)
    have "stays lib k n w' \<and> (\<forall>m. copy ph = Some m \<longrightarrow> ID m \<noteq> k)"
    proof (cases "copy (jstage ?j)")
      case None
      from call_step_no_copy [OF None advance(3)] have "w' = w" by simp
      with call_step_loads [OF None advance(3)] j(1) r u show ?thesis by (auto simp: stays_def)
    next
      case (Some m)
      note m = j(2) [OF Some]
      have g: "good_call lib m w w'" "\<forall>m'. copy ph = Some m' \<longrightarrow> identity m' = identity m"
        using call_step_copy [OF w j(3) Some advance(3)] by simp_all
      then have "row (wdb w') k = Some n"
        using m r by (simp add: good_call_def good_step_def only_touches_def)
      moreover have "UUID_Parse lib (QNotificationID (queue_message lib m)) \<noteq> Inr k"
        using m by (simp only: parse_message [OF lib]) simp
      with call_step_queued [OF q advance(3)] Some have "unnamed lib k (wredis w')"
        by (intro unnamed_mono [OF u]) (metis option.inject)
      moreover have "\<forall>m'. copy ph = Some m' \<longrightarrow> ID m' \<noteq> k"
        using g(2) m identityD(1) by metis
      ultimately show ?thesis by (auto simp: stays_def)
    qed
    with advance(1) h j(1) show ?thesis
      by (auto simp: unheld_def dest!: set_update_subset_insert [THEN subsetD])
  next
    case acknowledge
    with r u h show ?thesis
      by (auto simp: stays_def unheld_def unnamed_def queued_Acknowledge dest: in_set_takeD in_set_dropD)
  qed (use r u in \<open>auto simp: stays_def unheld_def\<close>)
qed

lemma unnamed_run:
  assumes "uuid_lib_ok lib" and "ireachable lib eng cfg lmt (w, js)"
    and "(istep lib eng cfg lmt)\<^sup>*\<^sup>* (w, js) (w', js')"
    and "row (wdb w) k = Some n" and "\<not> claimable n"
    and "unnamed lib k (wredis w)" and "unheld lib k js"
  shows "(\<exists>n'. row (wdb w') k = Some n' \<and> left_alone n n') \<and>
    unnamed lib k (wredis w') \<and> unheld lib k js'"
proof -
  let ?P = "\<lambda>s. stays lib k n (fst s) \<and> unheld lib k (snd s)"
  have ok: "interleaved_ok lib eng (w, js)" using assms(2) by (rule ireachable_ok)
  have "?P (w', js')"
  proof (rule interleaved.stable [OF assms(3) ok])
    show "?P (w, js)" using assms(4,6,7) by (auto simp: stays_def)
    fix t t'
    assume t: "interleaved_ok lib eng t" "?P t" "istep lib eng cfg lmt t t'"
    then obtain m where m: "row (wdb (fst t)) k = Some m" "left_alone n m" by (auto simp: stays_def)
    have "stays lib k m (fst t') \<and> unheld lib k (snd t')"
      using istep_stays [OF assms(1), of eng "fst t" "snd t" cfg lmt "fst t'" "snd t'" k m] t m(1)
        left_alone_claimable [OF m(2) assms(5)] by (simp add: stays_def)
    with m(2) show "?P t'" by (auto simp: stays_def intro: left_alone_trans)
  qed
  then show ?thesis by (simp add: stays_def)
qed


section \<open>A worker that is stopped\<close>

text \<open>
  On a signal \<open>cmd/worker/main.go\<close> cancels the context of all workers and waits for them. A round
  that is under way goes on with the cancelled context: whatever becomes of the call of the
  provider, the calls of the database after it fail without having been executed.
\<close>

definition not_executed :: "err fault \<Rightarrow> bool" where
  "not_executed f \<longleftrightarrow> (\<exists>e. f = Some (e, 0))"

definition cancelled_while_sending :: "Process_Env \<Rightarrow> bool" where
  "cancelled_while_sending env \<longleftrightarrow>
     p_get env = None \<and> p_mark env = None \<and> p_limit env = None \<and>
     not_executed (p_final env) \<and> not_executed (r_fault (p_retry env))"

lemma with_update_lost:
  "not_executed f \<Longrightarrow> wdb (snd (snd (with_update f now n w))) = wdb w"
  by (auto simp: not_executed_def with_update_def repo_Update_def exec_def Let_def
      split: sum.split prod.split)

lemma handleRetry_lost:
  "not_executed (r_fault env) \<Longrightarrow>
     notifications (wdb (handleRetry lib cfg env n e w)) = notifications (wdb w)"
  by (simp add: handleRetry_def Let_def split_beta with_update_lost dlq_Create_tables)

lemma send_lost:
  assumes "not_executed (p_final env)" "not_executed (r_fault (p_retry env))"
  shows "notifications (wdb (snd (send_and_record lib cfg env b n w))) = notifications (wdb w)"
  using assms
  by (simp add: send_and_record_def Let_def split_beta with_update_lost handleRetry_lost
      attempt_Create_tables split: sum.split)

text \<open>A message that was taken was the only one that named its notification.\<close>

lemma taken_unnamed:
  assumes lib: "uuid_lib_ok lib" and w: "world_ok w" and o: "no_orphans lib w"
    and d: "Dequeue f c (wredis w) = (Inr (Some m), r)" and m: "UUID_Parse lib (QNotificationID m) = Inr k"
  shows "unnamed lib k r"
  unfolding unnamed_def
proof (intro ballI notI)
  fix x
  assume x: "x \<in> queued r" "UUID_Parse lib (QNotificationID x) = Inr k"
  have q: "queue_ok (wredis w)" using w by (simp add: world_ok_def)
  have named: "\<exists>n. y = queue_message lib n \<and> row (wdb w) k = Some n \<and> NChannel n = c'"
    if y: "waiting (wredis w) c' y \<noteq> None" "UUID_Parse lib (QNotificationID y) = Inr k" for y c'
  proof -
    have "y \<in> messages (wredis w) c'" using y(1) by (auto simp: messages_def)
    then obtain n j where n: "y = queue_message lib n" "row (wdb w) j = Some n" "NChannel n = c'"
      using o unfolding no_orphans_def by blast
    with y(2) row_ID [OF n(2)] parse_message [OF lib, of n] have "j = k" by simp
    with n show ?thesis by blast
  qed
  note dq = Dequeue_message [OF q d]
  obtain c' where c': "waiting r c' x \<noteq> None" using x(1) by (auto simp: queued_def)
  have wd: "waiting r c' = (if c' = c then (waiting (wredis w) c)(m := None) else waiting (wredis w) c')"
    by (rule redis_queue.wait_deq [OF q dq(2)])
  with c' have "waiting (wredis w) c' x \<noteq> None" by (auto split: if_splits)
  from named [OF this x(2)] named [of c m] dq(3) m have "x = m" "c' = c" by auto
  with wd c' show False by simp
qed

lemma waiting_channel_exists:
  assumes "world_ok w" "no_orphans lib w" "waiting (wredis w) c m \<noteq> None"
  shows "c \<in> {ChannelSMS, ChannelEmail, ChannelPush}"
proof -
  have "m \<in> messages (wredis w) c" using assms(3) by (auto simp: messages_def)
  then obtain n k where "row (wdb w) k = Some n" "NChannel n = c"
    using assms(2) unfolding no_orphans_def by blast
  with row_ok_row [OF world_ok_notifications [OF assms(1)]] show ?thesis
    by (auto simp: row_ok_def Channel_IsValid_def)
qed

text \<open>
  C5. A worker that is stopped while it sends leaves the notification in processing, whether the
  provider has taken it or not. No retry is set, nothing waits for it and no program takes it
  up again, not even after a new start: it is in processing for ever.
\<close>

theorem stopped_worker_strands:
  assumes lib: "uuid_lib_ok lib" and re: "ireachable lib eng cfg lmt (w, js)" and h: "unheld lib k js"
    and d: "Dequeue (t_dequeue env) c (wredis w) = (Inr (Some m), r)"
    and m: "UUID_Parse lib (QNotificationID m) = Inr k"
    and n: "row (wdb w) k = Some n" "\<not> Status_IsFinal (NStatus n)"
    and f: "cancelled_while_sending (t_process env)"
    and b: "breaker_admits (t_process env) (NChannel n) w"
    and l: "limiter_admits lmt (t_process env) (NChannel n) (w\<lparr>wredis := r\<rparr>)"
    and t: "worker_tick lib cfg lmt c env w = (going_on, w1)"
    and run: "(istep lib eng cfg lmt)\<^sup>*\<^sup>* (w1, js) (w', js')"
  shows "going_on = Ret True \<and> map_option NStatus (row (wdb w') k) = Some StatusProcessing"
proof -
  have ok: "interleaved_ok lib eng (w, js)" using re by (rule ireachable_ok)
  then have w: "world_ok w" and o: "no_orphans lib w" and q: "queue_ok (wredis w)"
    by (simp_all add: interleaved_ok_def system_ok_def world_ok_def)
  have r: "queue_ok r" "unnamed lib k r"
    using queue_ok_Dequeue [OF q, of "t_dequeue env" c] d taken_unnamed [OF lib w o d m] by simp_all
  let ?w = "w\<lparr>wredis := r\<rparr>" and ?env = "t_process env"
  have p: "processable lib (QNotificationID m) k n ?w"
    using world_ok_redis [OF w r(1)] m n by (simp add: processable_def)
  obtain br where br: "wbreakers ?w (NChannel n) = Some br" "fst (cb_Allow (p_allow ?env) br)"
    using b by (auto simp: breaker_admits_def split: option.splits)
  have pf: "p_get ?env = None" "p_mark ?env = None" "p_limit ?env = None"
      "not_executed (p_final ?env)" "not_executed (r_fault (p_retry ?env))"
    using f by (simp_all add: cancelled_while_sending_def)
  let ?w2 = "\<lambda>d. ?w\<lparr>wdb := d, wevents := wevents ?w @ [status_event lib (p_event ?env) (marked ?env n)],
      wbreakers := (wbreakers ?w)(NChannel n \<mapsto> snd (cb_Allow (p_allow ?env) br))\<rparr>"
  obtain d' where d': "row d' = (row (wdb w))(k \<mapsto> updated (marked ?env n) n)"
    and P: "Process lib cfg lmt ?env (QNotificationID m) ?w = apfst Ret
      (limit_and_send lib cfg lmt ?env (snd (cb_Allow (p_allow ?env) br)) (marked ?env n) (?w2 d'))"
    using Process_steps [OF p pf(1,2) br(1), of cfg lmt] br(2) by auto
  have "limiter_admits lmt ?env (NChannel (marked ?env n)) (?w2 d')"
    using l by (simp add: limiter_admits_def)
  from limit_and_send_admitted [OF pf(3) this, of lib cfg "snd (cb_Allow (p_allow ?env) br)"]
  obtain r' where r': "limit_and_send lib cfg lmt ?env (snd (cb_Allow (p_allow ?env) br)) (marked ?env n) (?w2 d') =
      send_and_record lib cfg ?env (snd (cb_Allow (p_allow ?env) br)) (marked ?env n) ((?w2 d')\<lparr>wredis := r'\<rparr>)"
    "same_queue r r'" by auto
  define w3 where "w3 = snd (Process lib cfg lmt ?env (QNotificationID m) ?w)"
  define w2 where "w2 = (?w2 d')\<lparr>wredis := r'\<rparr>"
  have "w3 = snd (send_and_record lib cfg ?env (snd (cb_Allow (p_allow ?env) br)) (marked ?env n) w2)"
    by (simp only: w3_def w2_def P r'(1) snd_apfst)
  then have "row (wdb w3) = row (wdb w2)" "queued (wredis w3) = queued (wredis w2)"
    by (simp_all add: row_def send_lost [OF pf(4,5)] queued_same [OF same_queue_send])
  then have w3: "row (wdb w3) k = Some (updated (marked ?env n) n)" "queued (wredis w3) = queued r"
    using d' queued_same [OF r'(2)] by (simp_all add: w2_def)
  have w1: "going_on = Ret True" "w1 = w3\<lparr>wredis := snd (Acknowledge (t_members env) (t_remove env) c (QNotificationID m) (wredis w3))\<rparr>"
    using t d by (auto simp: worker_tick_def w3_def P split_beta)
  have c: "c \<in> {ChannelSMS, ChannelEmail, ChannelPush}"
    using waiting_channel_exists [OF w o, of c m] Dequeue_message(3) [OF q d] by simp
  have "step lib eng cfg lmt w (snd (worker_tick lib cfg lmt c env w))" using c by (rule worker)
  then have re1: "ireachable lib eng cfg lmt (w1, js)"
    using ireach_step [OF re other] t by simp
  have "row (wdb w1) k = Some (updated (marked ?env n) n)" "unnamed lib k (wredis w1)"
    using w1 w3 r(2) by (simp_all add: unnamed_def queued_Acknowledge)
  moreover have "NStatus (updated (marked ?env n) n) = StatusProcessing" by simp
  moreover from this have "\<not> claimable (updated (marked ?env n) n)"
    by (simp add: claimable_def status_defs)
  ultimately obtain n' where "row (wdb w') k = Some n'" "left_alone (updated (marked ?env n) n) n'"
    using unnamed_run [OF lib re1 run _ _ _ h] by blast
  with w1(1) show ?thesis by (auto simp: left_alone_def)
qed

section \<open>Samples\<close>

text \<open>A request whose message is lost on the way to the queue.\<close>

definition unqueued_create :: world where
  "unqueued_create = snd (Create sample_lib (Some sample_engine)
     ((sample_create 9)\<lparr>c_enqueue := Some (Text ''connection reset'', 0)\<rparr>) (sample_request ''Hello'') start)"

lemma unqueued_reachable: "ireachable sample_lib sample_engine cfg lmt (unqueued_create, [])"
  unfolding unqueued_create_def by (rule ireach_step [OF ireach_start other [OF create]])

lemma unnamedI:
  assumes "world_ok w" "no_orphans lib w"
    and "\<And>c. c \<in> {ChannelSMS, ChannelEmail, ChannelPush} \<Longrightarrow> zsets (wredis w) (queueKeyPrefix @ c) = []"
  shows "unnamed lib k (wredis w)"
proof -
  have "waiting (wredis w) c m = None" for c m
  proof (rule ccontr)
    assume w: "waiting (wredis w) c m \<noteq> None"
    from assms(3) [OF waiting_channel_exists [OF assms(1,2) w]] w show False
      by (simp add: waiting_def zset_score_def)
  qed
  then show ?thesis by (simp add: unnamed_def queued_def)
qed


text \<open>The worker is stopped while it sends: the provider's client reports the cancelled context.\<close>

definition stopped_tick :: Tick_Env where
  "stopped_tick =
     (let e = Text ''context canceled''; env = sample_env (Inl e)
      in \<lparr>t_dequeue = None, t_cancelled = True,
          t_process = env\<lparr>p_attempt := Some (e, 0), p_final := Some (e, 0),
            p_retry := (p_retry env)\<lparr>r_fault := Some (e, 0), r_dlq_fault := Some (e, 0)\<rparr>\<rparr>,
          t_members = Some (e, 0), t_remove = None\<rparr>)"

theorem stopped_worker_strands_witness:
  "\<exists>w1. worker_tick sample_lib sample_config (NewLimiter 100) ''sms'' stopped_tick after_create = (Ret True, w1) \<and>
     map_option NStatus (row (wdb (retry_poll sample_lib (sample_poll None) w1)) 9) = Some StatusProcessing"
proof -
  let ?m = "\<lparr>QNotificationID = ''9'', QChannel = ''sms'', QPriority = 0, TraceParent = []\<rparr> :: QueueMessage"
  let ?d = "Dequeue (t_dequeue stopped_tick) ''sms'' (wredis after_create)"
  let ?l = "NewLimiter 100"
  have "fst ?d = Inr (Some ?m)" by code_simp
  then have d: "?d = (Inr (Some ?m), snd ?d)" by (metis prod.collapse)
  have m: "UUID_Parse sample_lib (QNotificationID ?m) = Inr 9" by code_simp
  have "map_option (\<lambda>n. (NChannel n, Status_IsFinal (NStatus n))) (row (wdb after_create) 9) = Some (''sms'', False)"
    by code_simp
  then obtain n where n: "row (wdb after_create) 9 = Some n" "\<not> Status_IsFinal (NStatus n)" "NChannel n = ''sms''"
    by auto
  have f: "cancelled_while_sending (t_process stopped_tick)"
    by (auto simp: cancelled_while_sending_def not_executed_def stopped_tick_def sample_env_def Let_def)
  have a: "breaker_admits (t_process stopped_tick) ''sms'' after_create"
    "limiter_admits ?l (t_process stopped_tick) ''sms'' (after_create\<lparr>wredis := snd ?d\<rparr>)"
    by code_simp+
  obtain g w1 where t: "worker_tick sample_lib sample_config ?l ''sms'' stopped_tick after_create = (g, w1)"
    by (metis prod.exhaust)
  have "(istep sample_lib sample_engine sample_config ?l)\<^sup>*\<^sup>* (w1, [])
      (retry_poll sample_lib (sample_poll None) w1, [])"
    by (rule r_into_rtranclp) (rule other [OF retry])
  from stopped_worker_strands [OF sample_lib_ok sample_reachable(1) _ d m n(1,2) f _ _ t this] a n(3) t
  show ?thesis by (simp add: unheld_def)
qed

end
