(* ===== verification/Retries.thy ===== *)
theory Retries
  imports End_To_End
begin

text \<open>
  A notification through all of its attempts: from the request to the API, at once or by the
  scheduler's poll, over rounds of a worker that fail and polls that queue it again, to its delivery
  or its dead letter.
\<close>

section \<open>Between the rounds\<close>

text \<open>The notification is queued, its message the only one of its channel.\<close>

definition awaiting :: "uuid_lib \<Rightarrow> UUID \<Rightarrow> Notification \<Rightarrow> world \<Rightarrow> bool" where
  "awaiting lib k n w \<longleftrightarrow>
     world_ok w \<and> row (wdb w) k = Some n \<and> NStatus n = StatusQueued \<and>
     (\<exists>t. waiting (wredis w) (NChannel n) = [queue_message lib n \<mapsto> t]) \<and>
     in_flight (wredis w) (NChannel n) = {}"

text \<open>The breaker is closed and stays so for that many failures.\<close>

definition closed_for :: "Channel \<Rightarrow> nat \<Rightarrow> world \<Rightarrow> bool" where
  "closed_for c j w \<longleftrightarrow>
     (\<exists>b. wbreakers w c = Some b \<and> state b = StateClosed \<and> failureCount b + int j < failureThreshold b)"

text \<open>
  A round without faults that the limiter lets through, and one of these in which the provider fails.
\<close>

definition reaches_provider :: "Limiter \<Rightarrow> UUID \<Rightarrow> Tick_Env \<Rightarrow> world \<Rightarrow> bool" where
  "reaches_provider lmt k env w \<longleftrightarrow>
     t_dequeue env = None \<and> t_members env = None \<and> t_remove env = None \<and> faultless (t_process env) \<and>
     (\<forall>n. row (wdb w) k = Some n \<longrightarrow>
        limiter_admits lmt (t_process env) (NChannel n) w \<and> attempt_recordable (t_process env) n w)"

definition provider_fails :: "Limiter \<Rightarrow> UUID \<Rightarrow> Tick_Env \<Rightarrow> world \<Rightarrow> bool" where
  "provider_fails lmt k env w \<longleftrightarrow> reaches_provider lmt k env w \<and>
     (\<exists>e. (\<forall>q. p_send (t_process env) q = Inl e) \<and> text_ok (err_Error e))"

definition provider_takes :: "Limiter \<Rightarrow> UUID \<Rightarrow> Tick_Env \<Rightarrow> world \<Rightarrow> bool" where
  "provider_takes lmt k env w \<longleftrightarrow> reaches_provider lmt k env w \<and>
     (\<exists>resp. (\<forall>q. p_send (t_process env) q = Inr (Some resp)) \<and> varchar_ok 255 (MessageID resp))"

text \<open>
  A poll without faults that claims no more than a hundred rows and of these only one of its channel.
\<close>

definition claims_alone :: "UUID set \<Rightarrow> UUID \<Rightarrow> Poll_Env \<Rightarrow> world \<Rightarrow> bool" where
  "claims_alone due k env w \<longleftrightarrow>
     q_fault env = None \<and> q_enqueue env = None \<and> card due \<le> 100 \<and> k \<notin> set (q_locked env) \<and>
     (\<forall>n. row (wdb w) k = Some n \<longrightarrow>
        (\<forall>j\<in>due. \<forall>m. row (wdb w) j = Some m \<and> NChannel m = NChannel n \<longrightarrow> j = k))"

definition repolls :: "UUID \<Rightarrow> Poll_Env \<Rightarrow> world \<Rightarrow> bool" where
  "repolls k env w \<longleftrightarrow> claims_alone (due_failed env w) k env w \<and>
     (\<forall>n t. row (wdb w) k = Some n \<and> NextRetryAt n = Some t \<longrightarrow> t \<le> q_now env)"

text \<open>Attempts, each of them a round and the poll after it.\<close>

fun tried ::
    "uuid_lib \<Rightarrow> DeliveryConfig \<Rightarrow> Limiter \<Rightarrow> Channel \<Rightarrow> (Tick_Env \<times> Poll_Env) list \<Rightarrow> world \<Rightarrow> world" where
  "tried lib cfg lmt c [] w = w"
| "tried lib cfg lmt c ((t, p) # es) w =
     tried lib cfg lmt c es (retry_poll lib p (snd (worker_tick lib cfg lmt c t w)))"

fun tries_fail ::
    "uuid_lib \<Rightarrow> DeliveryConfig \<Rightarrow> Limiter \<Rightarrow> Channel \<Rightarrow> UUID \<Rightarrow> (Tick_Env \<times> Poll_Env) list \<Rightarrow> world \<Rightarrow> bool" where
  "tries_fail lib cfg lmt c k [] w = True"
| "tries_fail lib cfg lmt c k ((t, p) # es) w =
     (provider_fails lmt k t w \<and> repolls k p (snd (worker_tick lib cfg lmt c t w)) \<and>
      tries_fail lib cfg lmt c k es (retry_poll lib p (snd (worker_tick lib cfg lmt c t w))))"

section \<open>One round\<close>

lemma closed_admits: "closed_for c j w \<Longrightarrow> breaker_admits env c w"
  by (auto simp: closed_for_def breaker_admits_def cb_Allow_def)

lemma awaiting_round:
  assumes aw: "awaiting lib k n w" and lib: "uuid_lib_ok lib" and r: "reaches_provider lmt k env w"
    and b: "closed_for (NChannel n) j w"
  obtains r where "processable lib (QNotificationID (queue_message lib n)) k n (w\<lparr>wredis := r\<rparr>)"
    "breaker_admits (t_process env) (NChannel n) (w\<lparr>wredis := r\<rparr>)"
    "limiter_admits lmt (t_process env) (NChannel n) (w\<lparr>wredis := r\<rparr>)"
    "attempt_recordable (t_process env) n (w\<lparr>wredis := r\<rparr>)"
    "\<And>res w2. Process lib cfg lmt (t_process env) (QNotificationID (queue_message lib n)) (w\<lparr>wredis := r\<rparr>) =
         (Ret res, w2) \<Longrightarrow> same_queue r (wredis w2) \<Longrightarrow>
       \<exists>r2. worker_tick lib cfg lmt (NChannel n) env w = (Ret True, w2\<lparr>wredis := r2\<rparr>) \<and>
         world_ok (w2\<lparr>wredis := r2\<rparr>) \<and> waiting r2 (NChannel n) = Map.empty \<and> in_flight r2 (NChannel n) = {}"
proof -
  let ?c = "NChannel n"
  obtain t where w: "world_ok w" "row (wdb w) k = Some n" "NStatus n = StatusQueued"
      "waiting (wredis w) ?c = [queue_message lib n \<mapsto> t]" "in_flight (wredis w) ?c = {}"
    using aw by (auto simp: awaiting_def)
  have f: "t_dequeue env = None" "t_members env = None" "t_remove env = None"
    using r by (simp_all add: reaches_provider_def)
  obtain r' where r': "world_ok (w\<lparr>wredis := r'\<rparr>)"
      "zsets r' (limiter_key ?c) = zsets (wredis w) (limiter_key ?c)" "expiry r' = expiry (wredis w)"
      "\<And>res w2. Process lib cfg lmt (t_process env) (QNotificationID (queue_message lib n)) (w\<lparr>wredis := r'\<rparr>) =
         (Ret res, w2) \<Longrightarrow> same_queue r' (wredis w2) \<Longrightarrow>
       \<exists>r2. worker_tick lib cfg lmt ?c env w = (Ret True, w2\<lparr>wredis := r2\<rparr>) \<and>
         world_ok (w2\<lparr>wredis := r2\<rparr>) \<and> waiting r2 ?c = Map.empty \<and> in_flight r2 ?c = {}"
    using round_single [OF w(1,4,5) f, of lib cfg lmt thesis] by blast
  show ?thesis
  proof (rule that [OF _ _ _ _ r'(4)])
    show "processable lib (QNotificationID (queue_message lib n)) k n (w\<lparr>wredis := r'\<rparr>)"
      using r'(1) w(2,3) lib row_ID [OF w(2)]
      by (simp add: processable_def uuid_lib_ok_def queue_message_def Status_IsFinal_def)
    show "breaker_admits (t_process env) ?c (w\<lparr>wredis := r'\<rparr>)"
      using closed_admits [OF b, of "t_process env"] by (simp add: breaker_admits_def)
    show "limiter_admits lmt (t_process env) ?c (w\<lparr>wredis := r'\<rparr>)"
      using r w(2) by (subst limiter_admits_keys [where w = w]) (simp_all add: r'(2,3) reaches_provider_def)
    show "attempt_recordable (t_process env) n (w\<lparr>wredis := r'\<rparr>)"
      using r w(2) by (simp add: reaches_provider_def attempt_recordable_def)
  qed
qed

text \<open>The row after a failed round.\<close>

definition failed_row :: "DeliveryConfig \<Rightarrow> Process_Env \<Rightarrow> err \<Rightarrow> Notification \<Rightarrow> Notification" where
  "failed_row cfg env e n =
     updated (failed_notification cfg (p_retry env) e (marked env n)) (updated (marked env n) n)"

lemma failed_row_simps [simp]:
  "ID (failed_row cfg env e n) = ID n" "NChannel (failed_row cfg env e n) = NChannel n"
  "NStatus (failed_row cfg env e n) = StatusFailed"
  "RetryCount (failed_row cfg env e n) = RetryCount n + 1"
  "MaxRetries (failed_row cfg env e n) = MaxRetries n"
  "send_request (failed_row cfg env e n) = send_request n"
  "queue_message lib (failed_row cfg env e n) = queue_message lib n"
  by (simp_all add: failed_row_def send_request_def queue_message_def updated_def)

lemma failing_round:
  assumes aw: "awaiting lib k n w" and lib: "uuid_lib_ok lib" and r: "provider_fails lmt k env w"
    and b: "closed_for (NChannel n) j w"
  shows "\<exists>w2 e. worker_tick lib cfg lmt (NChannel n) env w = (Ret True, w2) \<and> world_ok w2 \<and>
    row (wdb w2) = (row (wdb w))(k \<mapsto> failed_row cfg (t_process env) e n) \<and>
    waiting (wredis w2) (NChannel n) = Map.empty \<and> in_flight (wredis w2) (NChannel n) = {} \<and>
    wsent w2 = wsent w @ [send_request n] \<and> (\<forall>i. j = Suc i \<longrightarrow> closed_for (NChannel n) i w2) \<and>
    (RetryCount n + 1 < CMaxRetries cfg \<longrightarrow>
       dead_letter_queue (wdb w2) = dead_letter_queue (wdb w)) \<and>
    (CMaxRetries cfg \<le> RetryCount n + 1 \<and>
       r_dlq_id (p_retry (t_process env)) \<notin> set (map DID (dead_letter_queue (wdb w))) \<longrightarrow>
       (\<exists>x. dead_letter_queue (wdb w2) = dead_letter_queue (wdb w) @ [x] \<and> DNotificationID x = k \<and>
          LastError x = Some (err_Error e)))"
proof -
  let ?c = "NChannel n" and ?s = "QNotificationID (queue_message lib n)" and ?env = "t_process env"
  from r obtain e where rp: "reaches_provider lmt k env w"
    and e: "p_send ?env (send_request n) = Inl e" "text_ok (err_Error e)"
    by (auto simp: provider_fails_def)
  have f: "faultless ?env" using rp by (simp add: reaches_provider_def)
  obtain r' where p: "processable lib ?s k n (w\<lparr>wredis := r'\<rparr>)" "breaker_admits ?env ?c (w\<lparr>wredis := r'\<rparr>)"
      "limiter_admits lmt ?env ?c (w\<lparr>wredis := r'\<rparr>)" "attempt_recordable ?env n (w\<lparr>wredis := r'\<rparr>)"
    and tick: "\<And>res w2. Process lib cfg lmt ?env ?s (w\<lparr>wredis := r'\<rparr>) = (Ret res, w2) \<Longrightarrow>
       same_queue r' (wredis w2) \<Longrightarrow>
       \<exists>r2. worker_tick lib cfg lmt ?c env w = (Ret True, w2\<lparr>wredis := r2\<rparr>) \<and>
         world_ok (w2\<lparr>wredis := r2\<rparr>) \<and> waiting r2 ?c = Map.empty \<and> in_flight r2 ?c = {}"
    using awaiting_round [OF aw lib rp b, of cfg thesis] by blast
  note P = processableD [OF p(1)]
  obtain w1 where w1: "Process lib cfg lmt ?env ?s (w\<lparr>wredis := r'\<rparr>) =
      (Ret (Some e), handleRetry lib cfg (p_retry ?env) (marked ?env n) e w1)"
    "row (wdb w1) = (row (wdb w))(k \<mapsto> updated (marked ?env n) n)"
    "dead_letter_queue (wdb w1) = dead_letter_queue (wdb w)" "wsent w1 = wsent w @ [send_request n]"
    "same_queue r' (wredis w1)"
    "wbreakers w1 = (wbreakers w)(?c \<mapsto> cb_RecordFailure (p_failure ?env) (admitting ?env ?c (w\<lparr>wredis := r'\<rparr>)))"
    using Process_failed [OF p(1) f p(2-4) e, of cfg] by auto
  let ?w2 = "handleRetry lib cfg (p_retry ?env) (marked ?env n) e w1"
  have q: "row (wdb w1) (ID (marked ?env n)) = Some (updated (marked ?env n) n)" by (simp add: w1(2) P(2))
  have sm: "smallint (RetryCount (marked ?env n) + 1)" using p(4) by (simp add: attempt_recordable_def)
  note h = handleRetry_effect [OF q faultlessD(5) [OF f] P(3,4) sm e(2), where lib = lib and cfg = cfg]
  obtain r2 where t: "worker_tick lib cfg lmt ?c env w = (Ret True, ?w2\<lparr>wredis := r2\<rparr>)"
      "world_ok (?w2\<lparr>wredis := r2\<rparr>)" "waiting r2 ?c = Map.empty" "in_flight r2 ?c = {}"
    using tick [OF w1(1)] w1(5) by auto
  have rows: "row (wdb ?w2) = (row (wdb w))(k \<mapsto> failed_row cfg ?env e n)"
    using h(1) w1(2) by (simp add: P(2) failed_row_def)
  have cl: "closed_for ?c i ?w2" if "j = Suc i" for i
    using b that by (auto simp: closed_for_def w1(6) admitting_def cb_Allow_def cb_RecordFailure_def Let_def)
  have dl: "\<exists>x. dead_letter_queue (wdb ?w2) = dead_letter_queue (wdb w) @ [x] \<and> DNotificationID x = k \<and>
      LastError x = Some (err_Error e)"
    if "CMaxRetries cfg \<le> RetryCount n + 1" "r_dlq_id (p_retry ?env) \<notin> set (map DID (dead_letter_queue (wdb w)))"
    using h(4) that f P by (simp add: faultless_def w1(3) stored_dead_letter_def dead_letter_def)
  show ?thesis
    using t rows cl dl h(3) w1(3,4)
    by (intro exI [of _ "?w2\<lparr>wredis := r2\<rparr>"] exI [of _ e]) (simp add: closed_for_def)
qed

section \<open>The poll after it\<close>

lemma in_flight_EnqueueBatch: "in_flight (snd (EnqueueBatch f now ms r)) c = in_flight r c"
  unfolding EnqueueBatch_def
proof (rule pipeline_keeps [where I = "\<lambda>s. in_flight s c = in_flight r c"])
  fix cmd s
  assume a: "cmd \<in> set (map (\<lambda>(i, msg). zadd_message (now i) msg) (enumerate 0 ms))" "in_flight s c = in_flight r c"
  from a(1) obtain i m where "cmd = zadd_message (now i) m" by auto
  then show "in_flight (cmd s) c = in_flight r c" by (simp add: a(2))
qed (rule refl)

lemma enqueue_claimed_frame:
  "wdb (enqueue_claimed lib env res w) = snd res" "wsent (enqueue_claimed lib env res w) = wsent w"
  "wbreakers (enqueue_claimed lib env res w) = wbreakers w"
  "in_flight (wredis (enqueue_claimed lib env res w)) c = in_flight (wredis w) c"
  by (cases "fst res"; simp add: enqueue_claimed_def split_beta in_flight_EnqueueBatch)+

lemma claim_frame:
  "dead_letter_queue (snd (exec f (claim P due now locked l) d)) = dead_letter_queue d"
  by (rule exec_keeps [where I = "\<lambda>d'. dead_letter_queue d' = dead_letter_queue d"])
     (auto simp: claim_def Let_def change_rows_def)

lemma poll_frame:
  "wsent (retry_poll lib env w) = wsent w" "wbreakers (retry_poll lib env w) = wbreakers w"
  "dead_letter_queue (wdb (retry_poll lib env w)) = dead_letter_queue (wdb w)"
  "wsent (scheduler_poll lib env w) = wsent w" "wbreakers (scheduler_poll lib env w) = wbreakers w"
  "dead_letter_queue (wdb (scheduler_poll lib env w)) = dead_letter_queue (wdb w)"
  by (simp_all add: retry_poll_def scheduler_poll_def GetRetryReady_exec GetScheduledReady_exec
      enqueue_claimed_frame claim_frame)

lemma poll_awaiting:
  assumes w: "world_ok w" and n: "row (wdb w) k = Some n" "k \<in> due_rows P due env w"
    and idle: "waiting (wredis w) (NChannel n) = Map.empty" "in_flight (wredis w) (NChannel n) = {}"
    and p: "claims_alone (due_rows P due env w) k env w"
    and w': "w' = enqueue_claimed lib env (exec None (claim P due (q_now env) (q_locked env) 100) (wdb w)) w"
      "world_ok w'"
  shows "awaiting lib k (set_status StatusQueued (q_now env) n) w'"
proof -
  let ?D = "due_rows P due env w" and ?n = "set_status StatusQueued (q_now env) n"
  have f: "q_enqueue env = None" and c: "card ?D \<le> 100" using p by (simp_all add: claims_alone_def)
  from poll_queues [OF w f w'(1)] c
  have rows: "\<And>j. row (wdb w') j = (if j \<in> ?D
        then map_option (set_status StatusQueued (q_now env)) (row (wdb w) j) else row (wdb w) j)"
    and msgs: "\<And>c. dom (waiting (wredis w') c) = dom (waiting (wredis w) c) \<union>
       {queue_message lib n |n. ID n \<in> ?D \<and> row (wdb w) (ID n) = Some n \<and> NChannel n = c}"
    by blast+
  have m: "queue_message lib ?n = queue_message lib n" by (simp add: queue_message_def)
  have "m' = n" if "ID m' \<in> ?D" "row (wdb w) (ID m') = Some m'" "NChannel m' = NChannel n" for m'
  proof -
    have "ID m' = k" using p n(1) that unfolding claims_alone_def by blast
    with that(2) n(1) show ?thesis by simp
  qed
  then have "{queue_message lib m' |m'. ID m' \<in> ?D \<and> row (wdb w) (ID m') = Some m' \<and>
      NChannel m' = NChannel n} = {queue_message lib n}"
    using n row_ID [OF n(1)] by blast
  then have "dom (waiting (wredis w') (NChannel n)) = {queue_message lib n}"
    using msgs [of "NChannel n"] idle(1) by simp
  then have "\<exists>t. waiting (wredis w') (NChannel n) = [queue_message lib n \<mapsto> t]"
    by (simp add: dom_eq_singleton_conv)
  moreover have "in_flight (wredis w') (NChannel n) = {}"
    using idle(2) unfolding w'(1) enqueue_claimed_frame .
  ultimately show ?thesis using rows [of k] n m w'(2) by (simp add: awaiting_def)
qed

lemma poll_leaves_undue:
  assumes "world_ok w" "k \<notin> due_scheduled env w"
  shows "row (wdb (scheduler_poll lib env w)) k = row (wdb w) k"
proof -
  let ?P = "\<lambda>n. NStatus n = StatusScheduled"
  obtain ns d where c: "claim ?P ScheduledAt (q_now env) (q_locked env) 100 (wdb w) = Inr (ns, d)"
    by (auto simp: claim_def Let_def)
  have ok: "notifications_ok (wdb w)" using assms(1) by (rule world_ok_notifications)
  have "k \<notin> set (map ID ns)"
    using claim_returns [OF ok c] assms(2)
    by (fastforce simp: due_scheduled_def due_rows_def ready_def split: option.splits)
  then have "row d k = row (wdb w) k" using claim_row [OF c, of k] by simp
  then have "row (snd (exec (q_fault env) (claim ?P ScheduledAt (q_now env) (q_locked env) 100) (wdb w))) k =
      row (wdb w) k"
    using c by (auto simp: exec_def split: option.split)
  then show ?thesis by (simp add: scheduler_poll_def GetScheduledReady_exec enqueue_claimed_frame)
qed

lemma poll_after_failure:
  assumes w: "world_ok w" and n: "row (wdb w) k = Some n" "NStatus n = StatusFailed" "RetryCount n < MaxRetries n"
      "NextRetryAt n = Some t"
    and idle: "waiting (wredis w) (NChannel n) = Map.empty" "in_flight (wredis w) (NChannel n) = {}"
    and p: "repolls k env w"
  shows "awaiting lib k (set_status StatusQueued (q_now env) n) (retry_poll lib env w)"
proof (rule poll_awaiting [OF w n(1) _ idle _ _ retry_poll_keeps [OF w]])
  show "k \<in> due_rows (\<lambda>n. NStatus n = StatusFailed \<and> RetryCount n < MaxRetries n) NextRetryAt env w"
    using p n by (simp add: repolls_def claims_alone_def due_rows_def)
  show "claims_alone (due_rows (\<lambda>n. NStatus n = StatusFailed \<and> RetryCount n < MaxRetries n) NextRetryAt env w) k env w"
    using p by (simp add: repolls_def due_failed_def)
qed (use p in \<open>simp add: retry_poll_def GetRetryReady_exec repolls_def claims_alone_def\<close>)

section \<open>All attempts\<close>

lemma failed_row_due: "RetryCount n + 1 < CMaxRetries cfg \<Longrightarrow> \<exists>t. NextRetryAt (failed_row cfg env e n) = Some t"
  by (simp add: failed_row_def updated_def failed_notification_def)

lemma tried_awaiting:
  assumes "awaiting lib k n w" "uuid_lib_ok lib" "NChannel n = c" "closed_for c (length es + j) w"
    and "tries_fail lib cfg lmt c k es w"
    and "RetryCount n + int (length es) < CMaxRetries cfg" "RetryCount n + int (length es) < MaxRetries n"
  shows "\<exists>m. awaiting lib k m (tried lib cfg lmt c es w) \<and> NChannel m = c \<and>
    RetryCount m = RetryCount n + int (length es) \<and> MaxRetries m = MaxRetries n \<and> send_request m = send_request n \<and>
    closed_for c j (tried lib cfg lmt c es w) \<and>
    wsent (tried lib cfg lmt c es w) = wsent w @ replicate (length es) (send_request n) \<and>
    dead_letter_queue (wdb (tried lib cfg lmt c es w)) = dead_letter_queue (wdb w)"
  using assms
proof (induction es arbitrary: n w)
  case Nil
  then show ?case by auto
next
  case (Cons e es)
  obtain t p where e: "e = (t, p)" by (cases e)
  let ?w2 = "snd (worker_tick lib cfg lmt c t w)"
  let ?w3 = "retry_poll lib p ?w2"
  have f: "provider_fails lmt k t w" "repolls k p ?w2" "tries_fail lib cfg lmt c k es ?w3"
    using Cons.prems(5) by (simp_all add: e)
  have cl: "closed_for (NChannel n) (Suc (length es + j)) w" using Cons.prems(3,4) by simp
  have b: "RetryCount n + 1 < CMaxRetries cfg" "RetryCount n + 1 < MaxRetries n" using Cons.prems(6,7) by simp_all
  obtain err where r: "world_ok ?w2" "row (wdb ?w2) k = Some (failed_row cfg (t_process t) err n)"
      "waiting (wredis ?w2) c = Map.empty" "in_flight (wredis ?w2) c = {}" "wsent ?w2 = wsent w @ [send_request n]"
      "closed_for c (length es + j) ?w2" "dead_letter_queue (wdb ?w2) = dead_letter_queue (wdb w)"
    using failing_round [OF Cons.prems(1,2) f(1) cl, of cfg] Cons.prems(3) b(1) by fastforce
  let ?m = "failed_row cfg (t_process t) err n"
  obtain due where due: "NextRetryAt ?m = Some due" using failed_row_due [OF b(1)] by blast
  have aw: "awaiting lib k (set_status StatusQueued (q_now p) ?m) ?w3"
  proof (rule poll_after_failure [OF r(1,2) _ _ due _ _ f(2)])
    show "waiting (wredis ?w2) (NChannel ?m) = Map.empty" "in_flight (wredis ?w2) (NChannel ?m) = {}"
      using r(3,4) unfolding failed_row_simps Cons.prems(3) by blast+
  next
    show "NStatus ?m = StatusFailed" by (rule failed_row_simps)
    show "RetryCount ?m < MaxRetries ?m" unfolding failed_row_simps by (rule b(2))
  qed
  have cl3: "closed_for c (length es + j) ?w3" using r(6) by (simp add: closed_for_def poll_frame)
  have s: "send_request (set_status StatusQueued (q_now p) ?m) = send_request n"
    by (simp add: send_request_def failed_row_def updated_def)
  obtain m where "awaiting lib k m (tried lib cfg lmt c es ?w3)" "NChannel m = c"
      "RetryCount m = RetryCount n + 1 + int (length es)" "MaxRetries m = MaxRetries n"
      "send_request m = send_request n" "closed_for c j (tried lib cfg lmt c es ?w3)"
      "wsent (tried lib cfg lmt c es ?w3) = wsent ?w3 @ replicate (length es) (send_request n)"
      "dead_letter_queue (wdb (tried lib cfg lmt c es ?w3)) = dead_letter_queue (wdb ?w3)"
    using Cons.IH [OF aw Cons.prems(2) _ cl3 f(3)] Cons.prems(3,6,7) s by auto
  with r(5,7) show ?case by (intro exI [of _ m]) (simp add: e poll_frame)
qed

lemma awaiting_delivered:
  assumes aw: "awaiting lib k n w" and lib: "uuid_lib_ok lib" and ch: "NChannel n = c"
    and b: "closed_for c (length es) w" and fl: "tries_fail lib cfg lmt c k es w"
    and tk: "provider_takes lmt k env (tried lib cfg lmt c es w)"
    and max: "RetryCount n + int (length es) < CMaxRetries cfg" "RetryCount n + int (length es) < MaxRetries n"
  shows "\<exists>w2 r. worker_tick lib cfg lmt c env (tried lib cfg lmt c es w) = (Ret True, w2) \<and>
    row (wdb w2) k = Some r \<and> NStatus r = StatusDelivered \<and> RetryCount r = RetryCount n + int (length es) \<and>
    wsent w2 = wsent w @ replicate (Suc (length es)) (send_request n) \<and>
    dead_letter_queue (wdb w2) = dead_letter_queue (wdb w) \<and>
    waiting (wredis w2) c = Map.empty \<and> in_flight (wredis w2) c = {}"
proof -
  let ?env = "t_process env" and ?w = "tried lib cfg lmt c es w"
  have b1: "closed_for c (length es + 0) w" using b by simp
  from tried_awaiting [OF aw lib ch b1 fl max] obtain m where m: "awaiting lib k m ?w" "NChannel m = c"
      "RetryCount m = RetryCount n + int (length es)" "send_request m = send_request n" "closed_for c 0 ?w"
      "wsent ?w = wsent w @ replicate (length es) (send_request n)"
      "dead_letter_queue (wdb ?w) = dead_letter_queue (wdb w)"
    by auto
  obtain resp where rp: "reaches_provider lmt k env ?w"
    and ok: "p_send ?env (send_request m) = Inr (Some resp)" "varchar_ok 255 (MessageID resp)"
    using tk by (auto simp: provider_takes_def)
  have f: "faultless ?env" using rp by (simp add: reaches_provider_def)
  have b2: "closed_for (NChannel m) 0 ?w" using m(2,5) by simp
  obtain r' where p: "processable lib (QNotificationID (queue_message lib m)) k m (?w\<lparr>wredis := r'\<rparr>)"
      "breaker_admits ?env (NChannel m) (?w\<lparr>wredis := r'\<rparr>)"
      "limiter_admits lmt ?env (NChannel m) (?w\<lparr>wredis := r'\<rparr>)" "attempt_recordable ?env m (?w\<lparr>wredis := r'\<rparr>)"
    and tick: "\<And>res w2. Process lib cfg lmt ?env (QNotificationID (queue_message lib m)) (?w\<lparr>wredis := r'\<rparr>) =
         (Ret res, w2) \<Longrightarrow> same_queue r' (wredis w2) \<Longrightarrow>
       \<exists>r2. worker_tick lib cfg lmt (NChannel m) env ?w = (Ret True, w2\<lparr>wredis := r2\<rparr>) \<and>
         world_ok (w2\<lparr>wredis := r2\<rparr>) \<and> waiting r2 (NChannel m) = Map.empty \<and> in_flight r2 (NChannel m) = {}"
    using awaiting_round [OF m(1) lib rp b2, of cfg thesis] by blast
  obtain w2 x where P: "Process lib cfg lmt ?env (QNotificationID (queue_message lib m)) (?w\<lparr>wredis := r'\<rparr>) =
        (Ret None, w2)" "row (wdb w2) k = Some x" "NStatus x = StatusDelivered" "RetryCount x = RetryCount m"
      "wsent w2 = wsent ?w @ [send_request m]" "dead_letter_queue (wdb w2) = dead_letter_queue (wdb ?w)"
      "same_queue r' (wredis w2)"
    using Process_delivered [OF p(1) f p(2-4) ok, of cfg] by auto
  obtain r2 where t: "worker_tick lib cfg lmt c env ?w = (Ret True, w2\<lparr>wredis := r2\<rparr>)"
      "waiting r2 c = Map.empty" "in_flight r2 c = {}"
    using tick [OF P(1,7)] m(2) by auto
  show ?thesis
    using t P m by (intro exI [of _ "w2\<lparr>wredis := r2\<rparr>"] exI [of _ x]) (simp add: replicate_append_same)
qed

section \<open>From the request to the end\<close>

lemma requested_max: "MaxRetries (requested env req) = 3"
  by (simp add: requested_def requested_notification_def NewNotification_def Let_def split: option.split)

lemma created_awaiting:
  assumes w: "world_ok w" and lib: "uuid_lib_ok lib"
    and c: "Create lib svc cenv req w = (Inr n, w1)" and new: "row (wdb w) (ID n) = None"
    and req: "CnTemplateID req = None" "CnScheduledAt req = None"
    and cf: "c_queued cenv = None" "c_enqueue cenv = None"
    and idle: "waiting (wredis w) (CnChannel req) = Map.empty" "in_flight (wredis w) (CnChannel req) = {}"
  obtains r where "awaiting lib (ID n) r w1" "NChannel r = CnChannel req" "RetryCount r = 0" "MaxRetries r = 3"
    "send_request r = \<lparr>SendTo = varchar 500 (CnRecipient req), SChannel = CnChannel req, SContent = CnContent req\<rparr>"
    "wbreakers w1 = wbreakers w" "wsent w1 = wsent w"
proof -
  let ?r = "set_status StatusQueued (c_queued_at cenv) (inserted (requested cenv req))"
  note C = Create_immediate [OF w c new req cf]
  have w1: "world_ok w1" using Create_keeps [OF w, of lib svc cenv req] c by simp
  have r: "NChannel ?r = CnChannel req" "RetryCount ?r = 0" "MaxRetries ?r = 3" "NStatus ?r = StatusQueued"
    "queue_message lib ?r = queue_message lib n" "NChannel n = CnChannel req"
    by (simp_all add: queue_message_def C(1) requested_max)
  have q: "queue_ok (wredis w)" using w by (simp add: world_ok_def)
  have "\<exists>t. waiting (wredis w1) (CnChannel req) = [queue_message lib n \<mapsto> t]"
    using waiting_zadd [OF q, of "c_enqueued cenv" "queue_message lib n" "CnChannel req"] idle(1)
    by (auto simp: C(3) r(6))
  moreover have "in_flight (wredis w1) (CnChannel req) = {}" using idle(2) by (simp add: C(3))
  ultimately have "awaiting lib (ID n) ?r w1" using w1 C(2) r by (simp add: awaiting_def)
  then show ?thesis by (rule that) (simp_all add: r requested_max C(4,5) send_request_def)
qed

text \<open>
  C8. A notification that a request creates for immediate delivery, without a template, in a
  channel with nothing waiting or in flight, is delivered in the end: if the provider fails fewer
  times than the configured maximum and the row's own allow, and each time the poll queues the
  notification again when its retry is due, the next round that the provider takes delivers it. The
  provider was sent the recipient and the content of the request once for each attempt and nothing
  else, the row's retry count is the number of failures, there is no dead letter and the queue is
  empty. The breaker is closed at first and stays so; it needs more failures than these to open.
\<close>

theorem retried_until_delivered:
  assumes w: "world_ok w" and lib: "uuid_lib_ok lib"
    and c: "Create lib svc cenv req w = (Inr n, w1)" and new: "row (wdb w) (ID n) = None"
    and req: "CnTemplateID req = None" "CnScheduledAt req = None"
    and cf: "c_queued cenv = None" "c_enqueue cenv = None"
    and idle: "waiting (wredis w) (CnChannel req) = Map.empty" "in_flight (wredis w) (CnChannel req) = {}"
    and b: "closed_for (CnChannel req) (length es) w"
    and max: "int (length es) < CMaxRetries cfg" "length es < 3"
    and fl: "tries_fail lib cfg lmt (CnChannel req) (ID n) es w1"
    and tk: "provider_takes lmt (ID n) env (tried lib cfg lmt (CnChannel req) es w1)"
  shows "\<exists>w2 r. worker_tick lib cfg lmt (CnChannel req) env (tried lib cfg lmt (CnChannel req) es w1) = (Ret True, w2) \<and>
    row (wdb w2) (ID n) = Some r \<and> NStatus r = StatusDelivered \<and> RetryCount r = int (length es) \<and>
    wsent w2 = wsent w @ replicate (Suc (length es))
      \<lparr>SendTo = varchar 500 (CnRecipient req), SChannel = CnChannel req, SContent = CnContent req\<rparr> \<and>
    dead_letter_queue (wdb w2) = dead_letter_queue (wdb w1) \<and>
    waiting (wredis w2) (CnChannel req) = Map.empty \<and> in_flight (wredis w2) (CnChannel req) = {}"
proof -
  obtain r where r: "awaiting lib (ID n) r w1" "NChannel r = CnChannel req" "RetryCount r = 0" "MaxRetries r = 3"
    "send_request r = \<lparr>SendTo = varchar 500 (CnRecipient req), SChannel = CnChannel req, SContent = CnContent req\<rparr>"
    "wbreakers w1 = wbreakers w" "wsent w1 = wsent w"
    by (rule created_awaiting [OF w lib c new req cf idle])
  have b1: "closed_for (CnChannel req) (length es) w1" using b by (simp add: closed_for_def r(6))
  show ?thesis
    using awaiting_delivered [OF r(1) lib r(2) b1 fl tk] max r(3-5,7) by simp
qed


section \<open>Scheduled notifications\<close>

lemma Create_scheduled:
  assumes w: "world_ok w" and c: "Create lib svc cenv req w = (Inr n, w1)"
    and new: "row (wdb w) (ID n) = None"
    and req: "CnTemplateID req = None" "CnScheduledAt req = Some t"
  shows "n = requested cenv req" "row (wdb w1) (ID n) = Some (inserted (requested cenv req))"
    "wredis w1 = wredis w" "wbreakers w1 = wbreakers w" "wsent w1 = wsent w"
proof -
  obtain q d m w' where 4: "accepted_request svc cenv req (wdb w) q"
      "repo_Create (c_insert cenv) (requested cenv q) (wdb w) = (None, d)"
      "enqueue_created lib cenv (requested cenv q) (w\<lparr>wdb := d\<rparr>) = (m, w')"
      "n = m" "w1 = w'\<lparr>wevents := wevents w' @ [created_event lib m]\<rparr>"
    using c new row_in [OF world_ok_notifications [OF w]]
    by (cases rule: Create_cases [of lib svc cenv req w]) auto
  have q: "q = req" using 4(1) req(1) by (simp add: accepted_request_def render_without_template)
  note i = conjunct2 [OF repo_Create_stored [OF 4(2)]]
  have "NStatus (requested cenv req) = StatusScheduled" using req(2) by simp
  from enqueue_created_scheduled [OF this, of lib cenv "w\<lparr>wdb := d\<rparr>"] 4(3)
  have m: "m = requested cenv req" "w' = w\<lparr>wdb := d\<rparr>" by (simp_all add: q)
  have "row d (c_id cenv) = Some (inserted (requested cenv req))"
    using insert_row_row [OF i] by (simp add: q)
  with m 4(4,5) show "n = requested cenv req" "row (wdb w1) (ID n) = Some (inserted (requested cenv req))"
    "wredis w1 = wredis w" "wbreakers w1 = wbreakers w" "wsent w1 = wsent w"
    by simp_all
qed

text \<open>
  C10. A notification that a request schedules waits for its time and is then delivered: no poll
  before the time touches it; the poll that comes after it, and claims nothing else of the channel,
  queues it, and then it is delivered like an immediate one, after as many failures as are allowed.
\<close>

theorem scheduled_then_delivered:
  assumes w: "world_ok w" and lib: "uuid_lib_ok lib"
    and c: "Create lib svc cenv req w = (Inr n, w1)" and new: "row (wdb w) (ID n) = None"
    and req: "CnTemplateID req = None" "CnScheduledAt req = Some t"
    and idle: "waiting (wredis w) (CnChannel req) = Map.empty" "in_flight (wredis w) (CnChannel req) = {}"
    and p: "claims_alone (due_scheduled penv w1) (ID n) penv w1" "timestamptz t \<le> q_now penv"
    and b: "closed_for (CnChannel req) (length es) w"
    and max: "int (length es) < CMaxRetries cfg" "length es < 3"
    and fl: "tries_fail lib cfg lmt (CnChannel req) (ID n) es (scheduler_poll lib penv w1)"
    and tk: "provider_takes lmt (ID n) env (tried lib cfg lmt (CnChannel req) es (scheduler_poll lib penv w1))"
  shows "(\<forall>early. q_now early < timestamptz t \<longrightarrow>
      row (wdb (scheduler_poll lib early w1)) (ID n) = row (wdb w1) (ID n)) \<and>
    (\<exists>w2 r. worker_tick lib cfg lmt (CnChannel req) env
        (tried lib cfg lmt (CnChannel req) es (scheduler_poll lib penv w1)) = (Ret True, w2) \<and>
      row (wdb w2) (ID n) = Some r \<and> NStatus r = StatusDelivered \<and> RetryCount r = int (length es) \<and>
      wsent w2 = wsent w @ replicate (Suc (length es))
        \<lparr>SendTo = varchar 500 (CnRecipient req), SChannel = CnChannel req, SContent = CnContent req\<rparr> \<and>
      dead_letter_queue (wdb w2) = dead_letter_queue (wdb w1) \<and>
      waiting (wredis w2) (CnChannel req) = Map.empty \<and> in_flight (wredis w2) (CnChannel req) = {})"
proof -
  let ?r = "inserted (requested cenv req)" and ?P = "\<lambda>n. NStatus n = StatusScheduled"
  note C = Create_scheduled [OF w c new req]
  have w1: "world_ok w1" using Create_keeps [OF w, of lib svc cenv req] c by simp
  have r: "NChannel ?r = CnChannel req" "RetryCount ?r = 0" "MaxRetries ?r = 3" "NStatus ?r = StatusScheduled"
    "ScheduledAt ?r = Some (timestamptz t)"
    "send_request ?r = \<lparr>SendTo = varchar 500 (CnRecipient req), SChannel = CnChannel req, SContent = CnContent req\<rparr>"
    using req(2) by (simp_all add: requested_max send_request_def)
  let ?n = "set_status StatusQueued (q_now penv) ?r"
  have aw: "awaiting lib (ID n) ?n (scheduler_poll lib penv w1)"
  proof (rule poll_awaiting [OF w1 C(2) _ _ _ _ _ scheduler_poll_keeps [OF w1]])
    show "ID n \<in> due_rows ?P ScheduledAt penv w1" using C(2) r(4,5) p req(2) by (auto simp: due_rows_def claims_alone_def)
    show "claims_alone (due_rows ?P ScheduledAt penv w1) (ID n) penv w1" using p(1) by (simp add: due_scheduled_def)
  qed (use idle p(1) C(3) r(1) in \<open>simp_all add: scheduler_poll_def GetScheduledReady_exec claims_alone_def\<close>)
  have b1: "closed_for (CnChannel req) (length es) (scheduler_poll lib penv w1)"
    using b by (simp add: closed_for_def poll_frame C(4))
  have early: "row (wdb (scheduler_poll lib early w1)) (ID n) = row (wdb w1) (ID n)"
    if "q_now early < timestamptz t" for early
  proof -
    have "ID n \<notin> due_scheduled early w1" using C(2) req(2) that by (auto simp: due_scheduled_def due_rows_def)
    then show ?thesis by (rule poll_leaves_undue [OF w1])
  qed
  show ?thesis
    using early awaiting_delivered [OF aw lib _ b1 fl tk] max r(1-3,6)
    by (simp add: poll_frame C(5) send_request_def)
qed

section \<open>A sample\<close>

definition failing_tick :: "UUID \<Rightarrow> Tick_Env" where
  "failing_tick a = delivering_tick\<lparr>t_process := (sample_env (Inl provider_error))\<lparr>p_attempt_id := a\<rparr>\<rparr>"

definition late_poll :: Poll_Env where
  "late_poll = (sample_poll None)\<lparr>q_now := 1000000000000\<rparr>"

definition sample_tries :: "(Tick_Env \<times> Poll_Env) list" where
  "sample_tries = [(failing_tick 71, late_poll)]"

definition two_attempts :: DeliveryConfig where
  "two_attempts = sample_config\<lparr>CMaxRetries := 2\<rparr>"

definition sample_created :: "(err + Notification) \<times> world" where
  "sample_created = Create sample_lib (Some sample_engine) (sample_create 9) (sample_request ''Hello'') start"

abbreviation sample_round :: world where
  "sample_round \<equiv>
     snd (worker_tick sample_lib two_attempts (NewLimiter 100) ''sms'' (failing_tick 71) (snd sample_created))"

abbreviation sample_tried :: world where
  "sample_tried \<equiv> retry_poll sample_lib late_poll sample_round"

lemma reaches_providerI:
  assumes "t_dequeue env = None" "t_members env = None" "t_remove env = None" "faultless (t_process env)"
    and "map_option (\<lambda>n. (NChannel n, RetryCount n)) (row (wdb w) k) = Some (c, i)"
    and "limiter_admits lmt (t_process env) c w"
    and "p_attempt_id (t_process env) \<notin> set (map AID (delivery_attempts (wdb w)))"
    and "integer_ok (Milliseconds (time_Sub (p_end (t_process env)) (p_start (t_process env))))" "smallint (i + 1)"
  shows "reaches_provider lmt k env w"
  using assms by (auto simp: reaches_provider_def attempt_recordable_def)

lemma only_row_due:
  assumes "map ID (notifications (wdb w)) = [k]" "q_fault env = None" "q_enqueue env = None" "k \<notin> set (q_locked env)"
  shows "claims_alone (due_rows P due env w) k env w"
proof -
  have "due_rows P due env w \<subseteq> {k}"
  proof
    fix j assume "j \<in> due_rows P due env w"
    then obtain n where n: "row (wdb w) j = Some n" by (auto simp: due_rows_def)
    have "j \<in> set (map ID (notifications (wdb w)))"
      using row_mem [OF n] row_ID [OF n] by auto
    with assms(1) show "j \<in> {k}" by simp
  qed
  then have "card (due_rows P due env w) \<le> 1" using card_mono [of "{k}"] by simp
  with \<open>due_rows P due env w \<subseteq> {k}\<close> show ?thesis
    using assms(2-4) by (auto simp: claims_alone_def)
qed

lemma repollsI:
  assumes "map ID (notifications (wdb w)) = [k]" "q_fault env = None" "q_enqueue env = None" "k \<notin> set (q_locked env)"
    and "map_option (\<lambda>n. case NextRetryAt n of None \<Rightarrow> True | Some t \<Rightarrow> t \<le> q_now env) (row (wdb w) k) = Some True"
  shows "repolls k env w"
  using only_row_due [OF assms(1-4)] assms(5) by (auto simp: repolls_def due_failed_def)

lemma sample_created:
  obtains n where "sample_created = (Inr n, snd sample_created)" "ID n = 9"
proof -
  have x: "(case fst sample_created of Inl _ \<Rightarrow> False | Inr n \<Rightarrow> ID n = 9)" by code_simp
  show ?thesis
  proof (cases "fst sample_created")
    case (Inr n)
    then have "sample_created = (Inr n, snd sample_created)" by (simp add: prod_eq_iff)
    with x Inr show ?thesis by (intro that) simp_all
  qed (use x in simp)
qed

text \<open>What the hypotheses ask of a world.\<close>

definition sample_report :: "Poll_Env \<Rightarrow> world \<Rightarrow>
    (Channel \<times> int \<times> bool) option \<times> UUID list \<times> UUID list \<times> UUID list \<times> bool" where
  "sample_report p w =
     (map_option (\<lambda>n. (NChannel n, RetryCount n, case NextRetryAt n of None \<Rightarrow> True | Some t \<Rightarrow> t \<le> q_now p))
        (row (wdb w) 9),
      map ID (notifications (wdb w)), map AID (delivery_attempts (wdb w)), map DID (dead_letter_queue (wdb w)),
      limiter_admits (NewLimiter 100) (sample_env (Inl provider_error)) ''sms'' w)"

lemma sample_reports:
  "sample_report late_poll (snd sample_created) = (Some (''sms'', 0, True), [9], [], [], True)"
  "sample_report late_poll sample_round = (Some (''sms'', 1, True), [9], [71], [], True)"
  "sample_report late_poll sample_tried = (Some (''sms'', 1, True), [9], [71], [], True)"
  by code_simp+

lemma sample_env_admits:
  "limiter_admits lmt ((sample_env res)\<lparr>p_attempt_id := a\<rparr>) c w = limiter_admits lmt (sample_env res') c w"
  by (simp add: limiter_admits_def sample_env_def)

lemma sample_recordable_time:
  "integer_ok (Milliseconds (time_Sub (p_end (sample_env res)) (p_start (sample_env res))))"
  by (simp add: sample_env_def integer_ok_def time_Sub_def sat64_def Milliseconds_def signed_divide_int_def)

text \<open>A tick whose attempt has a new identifier reaches the provider in each of these worlds.\<close>

lemma sample_reaches:
  assumes rep: "sample_report late_poll w = (Some (''sms'', i, u), ns, as, ds, True)"
    and i: "0 \<le> i" "i < 100" and a: "a \<notin> set as"
    and env: "t_dequeue env = None" "t_members env = None" "t_remove env = None"
      "t_process env = (sample_env res)\<lparr>p_attempt_id := a\<rparr>"
  shows "reaches_provider (NewLimiter 100) 9 env w"
proof (rule reaches_providerI [OF env(1-3)])
  show "map_option (\<lambda>n. (NChannel n, RetryCount n)) (row (wdb w) 9) = Some (''sms'', i)"
    using rep by (cases "row (wdb w) 9") (simp_all add: sample_report_def)
  show "limiter_admits (NewLimiter 100) (t_process env) ''sms'' w"
    using rep unfolding env(4) sample_env_admits [of _ _ _ _ _ "Inl provider_error"] by (simp add: sample_report_def)
  show "p_attempt_id (t_process env) \<notin> set (map AID (delivery_attempts (wdb w)))"
    using rep a by (auto simp: sample_report_def env(4))
  show "smallint (i + 1)" using i by (simp add: smallint_def)
  show "faultless (t_process env)" using sample_faultless [of res] by (simp add: env(4) faultless_def)
  show "integer_ok (Milliseconds (time_Sub (p_end (t_process env)) (p_start (t_process env))))"
    using sample_recordable_time [of res] by (simp add: env(4))
qed

lemma sample_tries_fail:
  "tries_fail sample_lib two_attempts (NewLimiter 100) ''sms'' 9 sample_tries (snd sample_created)"
proof -
  have "reaches_provider (NewLimiter 100) 9 (failing_tick 71) (snd sample_created)"
    by (rule sample_reaches [OF sample_reports(1), where res = "Inl provider_error" and a = 71])
       (simp_all add: failing_tick_def delivering_tick_def)
  then have "provider_fails (NewLimiter 100) 9 (failing_tick 71) (snd sample_created)"
    by (simp add: provider_fails_def failing_tick_def exI [of _ provider_error])
  moreover have "repolls 9 late_poll sample_round"
  proof (rule repollsI)
    show "map ID (notifications (wdb sample_round)) = [9]"
      using sample_reports(2) unfolding sample_report_def by blast
    show "map_option (\<lambda>n. case NextRetryAt n of None \<Rightarrow> True | Some t \<Rightarrow> t \<le> q_now late_poll)
        (row (wdb sample_round) 9) = Some True"
      using sample_reports(2) unfolding sample_report_def by (cases "row (wdb sample_round) 9") auto
  qed (simp_all add: late_poll_def sample_poll_def)
  ultimately show ?thesis by (simp add: sample_tries_def)
qed

lemma sample_start:
  "world_ok start" "row (wdb start) 9 = None" "closed_for ''sms'' 1 start"
  "waiting (wredis start) ''sms'' = Map.empty" "in_flight (wredis start) ''sms'' = {}"
proof -
  show "world_ok start" using start_ok(1) [of sample_engine] by (simp add: system_ok_def)
  show "row (wdb start) 9 = None" by (simp add: start_def empty_db_def row_def)
  show "closed_for ''sms'' 1 start"
    by (simp add: closed_for_def start_def new_breakers_def cb_New_def channel_defs)
  show "waiting (wredis start) ''sms'' = Map.empty" "in_flight (wredis start) ''sms'' = {}"
    by (auto simp: start_def waiting_def in_flight_def redis_empty_def zset_score_def)
qed

lemma sample_fields:
  "CnTemplateID (sample_request s) = None" "CnScheduledAt (sample_request s) = None"
  "CnChannel (sample_request s) = ''sms''" "c_queued (sample_create k) = None" "c_enqueue (sample_create k) = None"
  by (simp_all add: sample_request_def sample_create_def)

definition second_tick :: Tick_Env where
  "second_tick = delivering_tick\<lparr>t_process := (sample_env (Inr (Some accepted_response)))\<lparr>p_attempt_id := 72\<rparr>\<rparr>"

text \<open>The provider fails once and then takes the notification.\<close>

theorem retried_until_delivered_witness:
  "\<exists>w2 r. worker_tick sample_lib two_attempts (NewLimiter 100) ''sms'' second_tick sample_tried = (Ret True, w2) \<and>
     row (wdb w2) 9 = Some r \<and> NStatus r = StatusDelivered \<and> RetryCount r = 1 \<and> length (wsent w2) = 2"
proof -
  obtain n where n: "sample_created = (Inr n, snd sample_created)" "ID n = 9" by (rule sample_created)
  have "reaches_provider (NewLimiter 100) 9 second_tick sample_tried"
    by (rule sample_reaches [OF sample_reports(3), where res = "Inr (Some accepted_response)" and a = 72])
       (simp_all add: second_tick_def delivering_tick_def)
  moreover have "varchar_ok 255 (MessageID accepted_response)"
    by (simp add: accepted_response_def varchar_ok_def ascii_length ascii_def)
  ultimately have takes: "provider_takes (NewLimiter 100) 9 second_tick sample_tried"
    by (auto simp: provider_takes_def second_tick_def)
  have "wsent start = []" by (simp add: start_def)
  with retried_until_delivered [OF sample_start(1) sample_lib_ok n(1) [unfolded sample_created_def],
      of sample_tries two_attempts "NewLimiter 100" second_tick] sample_start sample_fields sample_tries_fail takes n(2)
  show ?thesis
    by (auto simp: sample_tries_def sample_created_def two_attempts_def sample_config_def)
qed


text \<open>A scheduled notification, a poll after its time, and a provider that takes it.\<close>

definition scheduled_request :: CreateNotificationRequest where
  "scheduled_request = (sample_request ''Hello'')\<lparr>CnScheduledAt := Some 5000000\<rparr>"

definition scheduled_created :: "(err + Notification) \<times> world" where
  "scheduled_created = Create sample_lib (Some sample_engine) (sample_create 9) scheduled_request start"

abbreviation scheduled_polled :: world where
  "scheduled_polled \<equiv> scheduler_poll sample_lib late_poll (snd scheduled_created)"

lemma scheduled_reports:
  "(case fst scheduled_created of Inl _ \<Rightarrow> False | Inr n \<Rightarrow> ID n = 9)"
  "map ID (notifications (wdb (snd scheduled_created))) = [9]"
  "sample_report late_poll scheduled_polled = (Some (''sms'', 0, True), [9], [], [], True)"
  by code_simp+

theorem scheduled_then_delivered_witness:
  "\<exists>w2 r. worker_tick sample_lib sample_config (NewLimiter 100) ''sms'' second_tick scheduled_polled = (Ret True, w2) \<and>
     row (wdb w2) 9 = Some r \<and> NStatus r = StatusDelivered \<and> length (wsent w2) = 1"
proof -
  obtain n where n: "scheduled_created = (Inr n, snd scheduled_created)" "ID n = 9"
    using scheduled_reports(1) by (cases "fst scheduled_created") (auto simp: prod_eq_iff)
  have "reaches_provider (NewLimiter 100) 9 second_tick scheduled_polled"
    by (rule sample_reaches [OF scheduled_reports(3), where res = "Inr (Some accepted_response)" and a = 72])
       (simp_all add: second_tick_def delivering_tick_def)
  moreover have "varchar_ok 255 (MessageID accepted_response)"
    by (simp add: accepted_response_def varchar_ok_def ascii_length ascii_def)
  ultimately have takes: "provider_takes (NewLimiter 100) 9 second_tick scheduled_polled"
    by (auto simp: provider_takes_def second_tick_def)
  have alone: "claims_alone (due_scheduled late_poll (snd scheduled_created)) 9 late_poll (snd scheduled_created)"
    unfolding due_scheduled_def
    by (rule only_row_due [OF scheduled_reports(2)]) (simp_all add: late_poll_def sample_poll_def)
  have late: "timestamptz 5000000 \<le> q_now late_poll" by code_simp
  have fields: "CnTemplateID scheduled_request = None" "CnScheduledAt scheduled_request = Some 5000000"
      "CnChannel scheduled_request = ''sms''"
    using sample_fields by (simp_all add: scheduled_request_def)
  have "wsent start = []" by (simp add: start_def)
  moreover have "closed_for ''sms'' 0 start" using sample_start(3) by (auto simp: closed_for_def)
  ultimately show ?thesis
    using scheduled_then_delivered [OF sample_start(1) sample_lib_ok n(1) [unfolded scheduled_created_def],
        of 5000000 late_poll "[]" sample_config "NewLimiter 100" second_tick]
      sample_start fields takes n(2) alone late
    by (auto simp: scheduled_created_def sample_config_def)
qed

end
