(* ===== verification/Open_Api.thy ===== *)
theory Open_Api
  imports Http_Api
begin

text \<open>
  The API against its description \<open>api/openapi.yaml\<close>: the paths and parameters of the endpoints,
  what the schemas demand of a body, which status and which schema each endpoint answers with, and
  what the schemas promise of the values.
\<close>

section \<open>Schemas\<close>

datatype schema =
    ErrorResponseSchema
  | NotificationSchema
  | BatchResultSchema
  | BatchSchema
  | StatusSchema
  | AffectedSchema
  | PaginatedNotifications
  | TemplateSchema
  | PaginatedTemplates
  | PreviewSchema
  | HealthResponse
  | MetricsResponse
  | PlainText

fun schema_of :: "body \<Rightarrow> schema" where
  "schema_of (ErrorBody _) = ErrorResponseSchema"
| "schema_of (NotificationBody _) = NotificationSchema"
| "schema_of (BatchBody _) = BatchResultSchema"
| "schema_of (NotificationsBody _ _ _) = BatchSchema"
| "schema_of (StatusBody _) = StatusSchema"
| "schema_of (AffectedBody _ _) = AffectedSchema"
| "schema_of (PageBody _) = PaginatedNotifications"
| "schema_of (TemplateBody _) = TemplateSchema"
| "schema_of (TemplatesBody _ _ _ _ _) = PaginatedTemplates"
| "schema_of (PreviewBody _ _) = PreviewSchema"
| "schema_of (HealthBody _ _ _) = HealthResponse"
| "schema_of (MetricsBody _) = MetricsResponse"
| "schema_of (PlainBody _) = PlainText"

text \<open>The status and the schema that the description gives for a success.\<close>

fun declared :: "endpoint \<Rightarrow> int \<times> schema" where
  "declared (PostNotification _) = (202, NotificationSchema)"
| "declared (PostBatch _) = (202, BatchResultSchema)"
| "declared (GetNotifications _) = (200, PaginatedNotifications)"
| "declared (GetNotification _) = (200, NotificationSchema)"
| "declared (GetBatch _) = (200, BatchSchema)"
| "declared (PatchCancel _) = (200, StatusSchema)"
| "declared (PatchCancelBatch _) = (200, AffectedSchema)"
| "declared (PostTemplate _) = (201, TemplateSchema)"
| "declared (GetTemplates _) = (200, PaginatedTemplates)"
| "declared (GetTemplate _) = (200, TemplateSchema)"
| "declared (PutTemplate _ _) = (200, TemplateSchema)"
| "declared (DeleteTemplate _) = (200, StatusSchema)"
| "declared (PostPreview _ _) = (200, PreviewSchema)"
| "declared GetHealth = (200, HealthResponse)"
| "declared GetMetrics = (200, MetricsResponse)"

text \<open>
  The method and the path of each endpoint in the description. The router keeps a mounted
  handler's \<open>/\<close> apart, which the library serves without the slash as well.
\<close>

fun described :: "endpoint \<Rightarrow> string \<times> string" where
  "described (PostNotification _) = (''POST'', ''/api/v1/notifications'')"
| "described (PostBatch _) = (''POST'', ''/api/v1/notifications/batch'')"
| "described (GetNotifications _) = (''GET'', ''/api/v1/notifications'')"
| "described (GetNotification _) = (''GET'', ''/api/v1/notifications/{id}'')"
| "described (GetBatch _) = (''GET'', ''/api/v1/notifications/batch/{batchId}'')"
| "described (PatchCancel _) = (''PATCH'', ''/api/v1/notifications/{id}/cancel'')"
| "described (PatchCancelBatch _) = (''PATCH'', ''/api/v1/notifications/batch/{batchId}/cancel'')"
| "described (PostTemplate _) = (''POST'', ''/api/v1/templates'')"
| "described (GetTemplates _) = (''GET'', ''/api/v1/templates'')"
| "described (GetTemplate _) = (''GET'', ''/api/v1/templates/{id}'')"
| "described (PutTemplate _ _) = (''PUT'', ''/api/v1/templates/{id}'')"
| "described (DeleteTemplate _) = (''DELETE'', ''/api/v1/templates/{id}'')"
| "described (PostPreview _ _) = (''POST'', ''/api/v1/templates/{id}/preview'')"
| "described GetHealth = (''GET'', ''/health'')"
| "described GetMetrics = (''GET'', ''/metrics'')"

definition without_slash :: "string \<Rightarrow> string" where
  "without_slash p = (if p \<noteq> [] \<and> last p = CHR ''/'' then butlast p else p)"

lemma routes_described: "apsnd without_slash (api_route ep) = described ep"
  by (cases ep) (simp_all add: api_route_def without_slash_def)

text \<open>The query parameters that the description lists.\<close>

fun declared_parameters :: "endpoint \<Rightarrow> string list" where
  "declared_parameters (GetNotifications _) =
     [''status'', ''channel'', ''batch_id'', ''from'', ''to'', ''page'', ''page_size'']"
| "declared_parameters (GetTemplates _) = [''page'', ''page_size'']"
| "declared_parameters _ = []"

text \<open>
  What the schemas of the bodies demand: a body that can be decoded, the channels of the
  enumeration, a recipient, at most a thousand requests in a batch.
\<close>

fun request_described :: "endpoint \<Rightarrow> bool" where
  "request_described (PostNotification b) =
     (case b of Inl _ \<Rightarrow> False | Inr req \<Rightarrow> Channel_IsValid (CnChannel req) \<and> CnRecipient req \<noteq> [])"
| "request_described (PostBatch b) = (case b of Inl _ \<Rightarrow> False | Inr reqs \<Rightarrow> length reqs \<le> 1000)"
| "request_described (PostTemplate b) =
     (case b of Inl _ \<Rightarrow> False | Inr req \<Rightarrow> Channel_IsValid (CtChannel req))"
| "request_described (PutTemplate _ b) =
     (case b of Inl _ \<Rightarrow> False | Inr req \<Rightarrow> nullable Channel_IsValid (UtChannel req))"
| "request_described (PostPreview _ b) = (case b of Inl _ \<Rightarrow> False | Inr _ \<Rightarrow> True)"
| "request_described _ = True"

text \<open>The enumerations and counts of the schemas.\<close>

definition notification_typed :: "Notification \<Rightarrow> bool" where
  "notification_typed n \<longleftrightarrow>
     Channel_IsValid (NChannel n) \<and> valid_priority (NPriority n) \<and> valid_status (NStatus n)"

fun well_typed :: "body \<Rightarrow> bool" where
  "well_typed (NotificationBody n) = notification_typed n"
| "well_typed (BatchBody b) \<longleftrightarrow>
     Total b = Accepted b + Rejected b \<and> Accepted b = int (length (Notifications b)) \<and>
     Rejected b = int (length (Errors b))"
| "well_typed (NotificationsBody b k ns) \<longleftrightarrow>
     k = int (length ns) \<and> list_all (\<lambda>n. notification_typed n \<and> BatchID n = Some b) ns"
| "well_typed (PageBody p) \<longleftrightarrow>
     list_all notification_typed (PData p) \<and> int (length (PData p)) \<le> PPageSize p \<and> PPageSize p \<le> 100"
| "well_typed (TemplateBody t) = Channel_IsValid (TChannel t)"
| "well_typed (TemplatesBody ts _ _ _ _) = list_all (\<lambda>t. Channel_IsValid (TChannel t) \<and> Active t) ts"
| "well_typed (HealthBody st postgres red) \<longleftrightarrow>
     st \<in> {''healthy'', ''unhealthy''} \<and> postgres \<in> {''up'', ''down''} \<and> red \<in> {''up'', ''down''}"
| "well_typed _ = True"

definition conforms :: "endpoint \<Rightarrow> response \<Rightarrow> bool" where
  "conforms ep r \<longleftrightarrow> well_typed (Body r) \<and>
     ((StatusCode r, schema_of (Body r)) = declared ep \<or>
      (StatusCode r \<in> {400, 404, 409, 500} \<and> schema_of (Body r) = ErrorResponseSchema) \<or>
      (ep = GetHealth \<and> StatusCode r = 503 \<and> schema_of (Body r) = HealthResponse))"

lemma conforms_writeJSON [simp]:
  "conforms ep (writeJSON c v) \<longleftrightarrow> well_typed v \<and>
     ((c, schema_of v) = declared ep \<or>
      (c \<in> {400, 404, 409, 500} \<and> schema_of v = ErrorResponseSchema) \<or>
      (ep = GetHealth \<and> c = 503 \<and> schema_of v = HealthResponse))"
  by (simp add: conforms_def writeJSON_def)

lemma conforms_error [simp]: "conforms ep (writeError e)"
  by (simp add: writeError_def)

section \<open>The values of the answers\<close>

lemma row_typed: "notifications_ok d \<Longrightarrow> n \<in> set (notifications d) \<Longrightarrow> notification_typed n"
  by (auto simp: notifications_ok_def list_all_iff row_ok_def notification_typed_def)

lemma Create_typed:
  assumes "notifications_ok (wdb w)" "Create lib svc env req w = (Inr n, w')"
  shows "notification_typed n"
proof (cases rule: Create_cases [of lib svc env req w])
  case 2
  with assms row_typed show ?thesis by fastforce
next
  case (4 q d m w1)
  have "Channel_IsValid (CnChannel q)" using 4(1) by (simp add: accepted_request_def)
  moreover have "m = requested env q \<or> m = (requested env q)\<lparr>NStatus := StatusQueued\<rparr>"
    using 4(3) by (cases "CnScheduledAt q") (simp_all add: enqueue_created_pending enqueue_created_scheduled)
  ultimately show ?thesis
    using 4(4) assms(2) by (cases "CnScheduledAt q") (auto simp: notification_typed_def valid_status_def)
qed (use assms in auto)

lemma CreateBatch_typed:
  assumes "CreateBatch lib env reqs w = (Inr b, w')"
  shows "well_typed (BatchBody b)"
proof -
  let ?irs = "enumerate 0 reqs"
  have "b = result (fold (batch_step lib env) ?irs (batch_start (b_id env) (int (length reqs))))"
    using assms by (auto simp: CreateBatch_def Let_def split: if_splits prod.splits option.splits)
  then show ?thesis
    using batch_counts [of env ?irs] by (simp add: batch_loop batch_start_def flip: of_nat_add)
qed

lemma GetByID_typed: "notifications_ok d \<Longrightarrow> repo_GetByID f k d = Inr n \<Longrightarrow> notification_typed n"
  by (auto simp: repo_GetByID_def split: sum.splits option.splits dest!: query_Inr intro: row_typed dest: row_mem [OF sym])

lemma GetByBatchID_typed:
  "notifications_ok d \<Longrightarrow> repo_GetByBatchID f b d = Inr ns \<Longrightarrow>
     well_typed (NotificationsBody b (int (length ns)) ns)"
  by (auto simp: repo_GetByBatchID_def list_all_iff selected_def dest!: query_Inr intro: row_typed)

lemma page_defaults_bounds: "page_defaults p s = (p', s') \<Longrightarrow> 1 \<le> s' \<and> s' \<le> 100"
  by (auto simp: page_defaults_def split: if_splits)

lemma page_of_sub:
  "page_of s off xs = Inr ys \<Longrightarrow> set ys \<subseteq> set xs \<and> (0 \<le> s \<longrightarrow> int (length ys) \<le> s)"
  by (auto simp: page_of_def split: if_splits dest: in_set_takeD in_set_dropD)

lemma List_typed:
  assumes "notifications_ok d" "repo_List f1 f2 q d = Inr p"
  shows "well_typed (PageBody p)"
proof -
  obtain pg s where ps: "page_defaults (Page q) (PageSize q) = (pg, s)" by (metis prod.exhaust)
  note b = page_defaults_bounds [OF this]
  have p: "PPageSize p = s"
    "page_of s (wrap64 (wrap64 (pg - 1) * s)) (sort_key (\<lambda>n. - CreatedAt n) (selected (filter_conditions q) d)) =
       Inr (PData p)"
    using assms(2) by (auto simp: repo_List_def ps Let_def split: if_splits sum.splits dest!: query_Inr)
  have "set (PData p) \<subseteq> set (notifications d)" "int (length (PData p)) \<le> s"
    using page_of_sub [OF p(2)] b by (auto simp: selected_def)
  with b p(1) row_typed [OF assms(1)] show ?thesis by (auto simp: list_all_iff)
qed

lemma template_row_typed:
  "templates_ok d \<Longrightarrow> t \<in> set (templates d) \<Longrightarrow> Channel_IsValid (TChannel t)"
  by (simp add: templates_ok_def list_all_iff)

lemma GetTemplate_typed: "templates_ok d \<Longrightarrow> trepo_GetByID f k d = Inr t \<Longrightarrow> Channel_IsValid (TChannel t)"
  by (auto simp: trepo_GetByID_def template_row_def split: sum.splits option.splits
      dest!: query_Inr dest: by_key_SomeD [OF sym] intro: template_row_typed)

lemma ListTemplates_typed:
  assumes "templates_ok d" "trepo_List f1 f2 p s d = Inr (ts, k)"
  shows "list_all (\<lambda>t. Channel_IsValid (TChannel t) \<and> Active t) ts"
proof -
  obtain off l where "page_of l off (sort_key (\<lambda>t. - TCreatedAt t) (filter Active (templates d))) = Inr ts"
    using assms(2) by (auto simp: trepo_List_def Let_def split: prod.splits sum.splits dest!: query_Inr)
  from page_of_sub [OF this] template_row_typed [OF assms(1)] show ?thesis
    by (auto simp: list_all_iff)
qed

lemma tsvc_Create_typed: "tsvc_Create eng f uid now req d = (Inr t, d') \<Longrightarrow> Channel_IsValid (TChannel t)"
  by (auto simp: tsvc_Create_def NewTemplate_def Let_def split: if_splits sum.splits prod.splits option.splits)

lemma tsvc_Update_typed:
  assumes "templates_ok d" "tsvc_Update eng f1 f2 now k req d = (Inr t, d')"
  shows "Channel_IsValid (TChannel t)"
proof -
  obtain t0 t1 t2 where t: "trepo_GetByID f1 k d = Inr t0" "apply_channel req (apply_name req t0) = Inr t1"
      "apply_content eng req (apply_subject req t1) = Inr t2" "TChannel t = TChannel (apply_variables req t2)"
    using assms(2) by (auto simp: tsvc_Update_def trepo_Update_def Let_def split: sum.splits prod.splits option.splits)
  have "Channel_IsValid (TChannel t1)"
    using t(2) GetTemplate_typed [OF assms(1) t(1)]
    by (auto simp: apply_channel_def apply_name_def split: option.splits if_splits)
  moreover have "TChannel t = TChannel t1"
    using t(3,4) by (auto simp: apply_content_def apply_subject_def apply_variables_def
        split: option.splits sum.splits)
  ultimately show ?thesis by simp
qed

section \<open>Every answer\<close>

lemma apfst_Ret: "apfst Ret p = (Ret r, w') \<longleftrightarrow> p = (r, w')"
  by (cases p) auto


text \<open>
  The description says of a notification's subject that it is required for the channel email; no
  code looks at it.
\<close>

lemma subject_not_checked:
  "CnTemplateID req = None \<Longrightarrow>
     accepted_request svc env (req\<lparr>CnSubject := s\<rparr>) d (req\<lparr>CnSubject := s\<rparr>) \<longleftrightarrow>
     accepted_request svc env req d req"
  by (simp add: accepted_request_def render_request_def lookup_existing_def)

text \<open>
  No handler reads a query parameter that is not described, and a body that is not as described
  is refused.
\<close>

lemma declared_parameters_suffice:
  "(\<forall>k \<in> set (declared_parameters (GetNotifications q)). q k = q' k) \<Longrightarrow>
     serve lib eng env (GetNotifications q) w = serve lib eng env (GetNotifications q') w"
  "(\<forall>k \<in> set (declared_parameters (GetTemplates q)). q k = q' k) \<Longrightarrow>
     serve lib eng env (GetTemplates q) w = serve lib eng env (GetTemplates q') w"
  by (simp_all add: api_List_def api_ListTemplates_def query_filter_def query_int_def)

lemma undescribed_refused:
  assumes "\<not> request_described ep" "serve lib eng env ep w = (Ret r, w')"
  shows "w' = w \<and> schema_of (Body r) = ErrorResponseSchema"
proof -
  have e: "schema_of (Body (writeError e)) = ErrorResponseSchema" for e
    by (simp add: writeError_def writeJSON_def)
  have j: "schema_of (Body (writeJSON c v)) = schema_of v" for c v
    by (simp add: writeJSON_def)
  show ?thesis
    using assms e j
    by (cases ep)
       (auto simp: apfst_Ret api_Create_def api_CreateBatch_def Create_def CreateBatch_def MaxBatchSize_def
          api_CreateTemplate_def tsvc_Create_def api_UpdateTemplate_def tsvc_Update_def apply_channel_def
          apply_name_def api_Preview_def nullable_def Let_def
          split: sum.splits prod.splits option.splits if_splits)
qed

text \<open>
  It enumerates the priorities of a request, and so does the struct's tag; no code validates
  either, and a priority outside of them is taken as normal. A template's name and content are
  required, but may be empty: every notification made from it alone is then refused.
\<close>

lemma render_request_priority:
  "render_request svc f (req\<lparr>CnPriority := p\<rparr>) d =
     map_sum id (\<lambda>q. q\<lparr>CnPriority := p\<rparr>) (render_request svc f req d)"
  by (cases "CnTemplateID req"; cases svc)
     (auto simp: render_request_def Let_def split: sum.split prod.split)

lemma priority_not_checked:
  assumes "p \<noteq> ''high''" "p \<noteq> ''low''"
  shows "Create lib svc env (req\<lparr>CnPriority := p\<rparr>) w = Create lib svc env (req\<lparr>CnPriority := ''normal''\<rparr>) w"
proof -
  have "requested_notification u t b (q\<lparr>CnPriority := p\<rparr>) =
      requested_notification u t b (q\<lparr>CnPriority := ''normal''\<rparr>)" for u t b q
    using assms by (simp add: requested_notification_def PriorityFromString_def)
  moreover have "apply_schedule t (q\<lparr>CnPriority := x\<rparr>) n = apply_schedule t q n" for t q x n
    by (simp add: apply_schedule_def)
  moreover have "lookup_existing f (q\<lparr>CnPriority := x\<rparr>) d = lookup_existing f q d" for f q x d
    by (simp add: lookup_existing_def)
  ultimately show ?thesis
    by (cases "render_request svc (c_template env) req (wdb w)")
       (simp_all add: Create_def Let_def render_request_priority cong: option.case_cong sum.case_cong)
qed

lemma empty_template_accepted:
  assumes "tpl_Parse eng [] = Inr tm"
  shows "\<exists>t d'. tsvc_Create eng None u now
      \<lparr>CtName = [], CtChannel = ''sms'', CtSubject = [], CtContent = [], CtVariables = None\<rparr> empty_db = (Inr t, d')
    \<and> TName t = [] \<and> TContent t = []"
  using assms
  by (simp add: tsvc_Create_def Channel_IsValid_def channel_defs trepo_Create_def insert_template_def
      template_ok_def variables_ok_def NewTemplate_def empty_db_def Let_def varchar_ok_def text_length_def)

text \<open>The API's metrics never report a breaker: the breakers live in the worker.\<close>

lemma metrics_without_breakers:
  "serve lib eng env GetMetrics w = (Ret r, w') \<Longrightarrow>
     \<exists>m. Body r = MetricsBody m \<and> circuit_breakers m = []"
  by (auto simp: metrics_Handle_def metrics_Get_def writeJSON_def Let_def List.map_filter_simps)


end
