(* ===== verification/Sockets.thy ===== *)
theory Sockets
  imports Hub
begin

text \<open>
  The goroutines around the hub of \<open>internal/adapter/event/hub.go\<close>: the writer and the reader of
  a client's socket, with their deadlines and pings, and the subscriber that takes the events of
  other processes from Redis. Whether a write succeeds and what a read gives are the socket's.
\<close>

section \<open>The writer\<close>

definition writeWait :: duration where "writeWait = 10 * Second"
definition pongWait :: duration where "pongWait = 60 * Second"
definition pingPeriod :: duration where "pingPeriod = 30 * Second"

datatype frame = TextFrame StatusEvent | PingFrame | CloseFrame

text \<open>
  The frames that were written, each with the deadline set for it, and whether the loop still
  runs; when it ends, the connection is closed.
\<close>

record writer =
  channel :: chan
  frames :: "(frame \<times> time) list"
  running :: bool

definition write_frame :: "frame \<Rightarrow> time \<Rightarrow> bool \<Rightarrow> writer \<Rightarrow> writer" where
  "write_frame fr now ok s =
     (if ok then s\<lparr>frames := frames s @ [(fr, now + writeWait)]\<rparr> else s\<lparr>running := False\<rparr>)"

text \<open>
  What happens around the writer: the hub sends to or closes its channel, and the writer's
  \<open>select\<close> takes from the channel or the ticker. A closed channel gives what is in it before it
  reports its end; an empty open one makes the writer wait.
\<close>

datatype writer_event =
    Offered StatusEvent
  | Closed
  | TakeMessage time bool
  | TakeTick time bool

fun writer_step :: "writer \<Rightarrow> writer_event \<Rightarrow> writer" where
  "writer_step s (Offered m) =
     (case chan_send m (channel s) of Ret (_, ch) \<Rightarrow> s\<lparr>channel := ch\<rparr> | Panic \<Rightarrow> s)"
| "writer_step s Closed = (case chan_close (channel s) of Ret ch \<Rightarrow> s\<lparr>channel := ch\<rparr> | Panic \<Rightarrow> s)"
| "writer_step s (TakeMessage now ok) =
     (if \<not> running s then s
      else (case buffer (channel s) of
          m # ms \<Rightarrow> write_frame (TextFrame m) now ok (s\<lparr>channel := (channel s)\<lparr>buffer := ms\<rparr>\<rparr>)
        | [] \<Rightarrow> if closed (channel s) then (write_frame CloseFrame now ok s)\<lparr>running := False\<rparr> else s))"
| "writer_step s (TakeTick now ok) = (if \<not> running s then s else write_frame PingFrame now ok s)"

definition new_writer :: "string \<Rightarrow> writer" where
  "new_writer b = \<lparr>channel = \<lparr>batchID = b, buffer = [], closed = False\<rparr>, frames = [], running = True\<rparr>"

text \<open>The events that the channel took, along a run.\<close>

fun taken :: "writer \<Rightarrow> writer_event list \<Rightarrow> StatusEvent list" where
  "taken s [] = []"
| "taken s (e # es) =
     (case e of
        Offered m \<Rightarrow> (case chan_send m (channel s) of Ret (True, _) \<Rightarrow> [m] | _ \<Rightarrow> [])
      | _ \<Rightarrow> []) @ taken (writer_step s e) es"

definition texts :: "writer \<Rightarrow> StatusEvent list" where
  "texts s = List.map_filter (\<lambda>(fr, _). case fr of TextFrame m \<Rightarrow> Some m | _ \<Rightarrow> None) (frames s)"

definition writer_end :: "writer \<Rightarrow> bool" where
  "writer_end s \<longleftrightarrow> CloseFrame \<in> fst ` set (frames s)"

text \<open>
  Nothing is written twice or out of order; at most the one message whose write failed is lost,
  and then the writer has stopped. A close frame is the last frame.
\<close>

definition writer_ok :: "StatusEvent list \<Rightarrow> writer \<Rightarrow> bool" where
  "writer_ok ms s \<longleftrightarrow>
     (\<exists>lost. ms = texts s @ lost @ buffer (channel s) \<and> length lost \<le> 1 \<and> (running s \<longrightarrow> lost = []) \<and>
        (writer_end s \<longrightarrow> \<not> running s \<and> closed (channel s) \<and> lost = [] \<and> buffer (channel s) = [] \<and>
           fst (last (frames s)) = CloseFrame \<and> CloseFrame \<notin> fst ` set (butlast (frames s))))"

lemma texts_frame [simp]:
  "texts (s\<lparr>frames := frames s @ [(fr, t)]\<rparr>) = texts s @ (case fr of TextFrame m \<Rightarrow> [m] | _ \<Rightarrow> [])"
  "texts (s\<lparr>channel := ch, frames := frames s @ [(fr, t)]\<rparr>) =
     texts s @ (case fr of TextFrame m \<Rightarrow> [m] | _ \<Rightarrow> [])"
  "texts (s\<lparr>channel := ch\<rparr>) = texts s" "texts (s\<lparr>running := b\<rparr>) = texts s"
  by (auto simp: texts_def List.map_filter_def split: frame.split)

lemma writer_step_ok:
  assumes "writer_ok ms s"
  shows "writer_ok (ms @ taken s [e]) (writer_step s e)"
proof -
  obtain lost where l: "ms = texts s @ lost @ buffer (channel s)" "length lost \<le> 1" "running s \<longrightarrow> lost = []"
      "writer_end s \<longrightarrow> \<not> running s \<and> closed (channel s) \<and> lost = [] \<and> buffer (channel s) = [] \<and>
           fst (last (frames s)) = CloseFrame \<and> CloseFrame \<notin> fst ` set (butlast (frames s))"
    using assms by (auto simp: writer_ok_def)
  show ?thesis
  proof (cases e)
    case (Offered m)
    with l show ?thesis
      by (auto simp: chan_send_def writer_ok_def writer_end_def intro!: exI [of _ lost])
  next
    case Closed
    with l show ?thesis
      by (auto simp: chan_close_def writer_ok_def writer_end_def intro!: exI [of _ lost])
  next
    case (TakeMessage now ok)
    show ?thesis
    proof (cases "running s")
      case True
      with l TakeMessage show ?thesis
        by (cases "buffer (channel s)"; cases ok)
           (auto simp: write_frame_def writer_ok_def writer_end_def image_iff split: if_splits)
    next
      case False
      with l TakeMessage show ?thesis by (auto simp: writer_ok_def writer_end_def intro!: exI [of _ lost])
    qed
  next
    case (TakeTick now ok)
    with l show ?thesis
      by (cases "running s"; cases ok)
         (auto simp: write_frame_def writer_ok_def writer_end_def image_iff intro!: exI [of _ lost])
  qed
qed

lemma taken_append: "taken s (es @ es') = taken s es @ taken (foldl writer_step s es) es'"
  by (induction es arbitrary: s) simp_all

text \<open>
  C38. Whatever the hub, the ticker and the socket do, a client's writer writes the events that its
  channel took, each once and in their order: what was written, at most one event whose write
  failed, and what still waits are together what the channel took. A close frame comes last, after
  every event, and only when the hub has closed the channel.
\<close>

theorem writer_writes_in_order:
  "writer_ok (taken (new_writer b) es) (foldl writer_step (new_writer b) es)"
proof (induction es rule: rev_induct)
  case Nil
  show ?case by (simp add: writer_ok_def new_writer_def texts_def writer_end_def List.map_filter_simps)
next
  case (snoc e es)
  from writer_step_ok [OF this, of e] show ?case by (simp add: taken_append)
qed

text \<open>What the writer takes is what the hub's model hands to its client.\<close>

lemma writer_takes_write_next:
  assumes "chans h c = Some (channel s)" "running s" "buffer (channel s) \<noteq> []"
  shows "\<exists>m. write_next c h = (Some m, h\<lparr>chans := (chans h)(c \<mapsto> channel (writer_step s (TakeMessage now ok)))\<rparr>) \<and>
    (ok \<longrightarrow> last (frames (writer_step s (TakeMessage now ok))) = (TextFrame m, now + writeWait))"
  using assms by (cases "buffer (channel s)") (auto simp: write_next_def write_frame_def)

section \<open>The reader\<close>

text \<open>
  The reader throws away what it reads. Its deadline is \<open>pongWait\<close> after its start or the last
  pong; whatever ends the reading, the client is unregistered and the connection closed. The
  result is the time of that, or none while the reader goes on.
\<close>

datatype socket_event = Message | Pong | ReadError

fun read_loop :: "time \<Rightarrow> (time \<times> socket_event) list \<Rightarrow> time option" where
  "read_loop deadline [] = None"
| "read_loop deadline ((now, e) # es) =
     (if deadline < now then Some deadline
      else (case e of
          Message \<Rightarrow> read_loop deadline es
        | Pong \<Rightarrow> read_loop (now + pongWait) es
        | ReadError \<Rightarrow> Some now))"

definition readPump :: "time \<Rightarrow> (time \<times> socket_event) list \<Rightarrow> time option" where
  "readPump start es = read_loop (start + pongWait) es"

definition last_pong :: "time \<Rightarrow> (time \<times> socket_event) list \<Rightarrow> time" where
  "last_pong start es = last (start # map fst (filter (\<lambda>(_, e). e = Pong) es))"

lemma last_pong_simps [simp]:
  "last_pong start [] = start"
  "last_pong start ((now, e) # es) = last_pong (if e = Pong then now else start) es"
  by (auto simp: last_pong_def)

lemma read_loop_None:
  assumes "\<And>xs t e ys. es = xs @ (t, e) # ys \<Longrightarrow> e \<noteq> ReadError \<and> t \<le> last_pong start xs + pongWait"
  shows "read_loop (start + pongWait) es = None"
  using assms
proof (induction es arbitrary: start)
  case (Cons ev es)
  obtain now e where ev: "ev = (now, e)" by (cases ev)
  have "e \<noteq> ReadError \<and> now \<le> start + pongWait"
    using Cons.prems [of "[]" now e es] by (simp add: ev)
  moreover have "read_loop ((if e = Pong then now else start) + pongWait) es = None"
  proof (rule Cons.IH)
    fix xs t e' ys
    assume "es = xs @ (t, e') # ys"
    with Cons.prems [of "ev # xs" t e' ys]
    show "e' \<noteq> ReadError \<and> t \<le> last_pong (if e = Pong then now else start) xs + pongWait"
      by (simp add: ev)
  qed
  ultimately show ?case by (cases e) (simp_all add: ev)
qed simp

lemma last_pong_after:
  assumes "sorted (start # map fst es)"
  shows "start \<le> last_pong start es" and "(t, Pong) \<in> set es \<Longrightarrow> t \<le> last_pong start es"
proof -
  have "start \<le> last_pong start es \<and> (\<forall>t. (t, Pong) \<in> set es \<longrightarrow> t \<le> last_pong start es)"
    using assms
  proof (induction es arbitrary: start)
    case (Cons ev es)
    obtain now e where ev: "ev = (now, e)" by (cases ev)
    with Cons.prems have "sorted (now # map fst es)" "sorted (start # map fst es)" "start \<le> now" by auto
    with Cons.IH [of now] Cons.IH [of start] ev show ?case by (auto intro: order_trans)
  qed simp
  then show "start \<le> last_pong start es" and "(t, Pong) \<in> set es \<Longrightarrow> t \<le> last_pong start es" by auto
qed

lemma silent_client:
  assumes "\<forall>(t, e)\<in>set es. e \<noteq> Pong" "start \<le> deadline" "deadline < last (start # map fst es)"
  shows "\<exists>t. read_loop deadline es = Some t \<and> t \<le> deadline"
  using assms
proof (induction es arbitrary: start)
  case (Cons ev es)
  obtain now e where ev: "ev = (now, e)" by (cases ev)
  show ?case
  proof (cases "deadline < now")
    case False
    with Cons.IH [of now] Cons.prems ev show ?thesis by (cases e) auto
  qed (use ev in simp)
qed simp

text \<open>A pong for every ping, before the next ping is due.\<close>

definition answers_pings :: "time \<Rightarrow> (time \<times> socket_event) list \<Rightarrow> bool" where
  "answers_pings start es \<longleftrightarrow>
     (\<forall>k>0. start + int k * pingPeriod + pingPeriod \<le> last (start # map fst es) \<longrightarrow>
        (\<exists>t. (t, Pong) \<in> set es \<and> start + int k * pingPeriod \<le> t \<and>
             t < start + int k * pingPeriod + pingPeriod))"

lemma answered_in_time:
  assumes o: "sorted (start # map fst es)" and a: "answers_pings start es" and es: "es = xs @ (t, e) # ys"
  shows "t \<le> last_pong start xs + pongWait"
proof (cases "t \<le> start + pongWait")
  case True
  have "sorted (start # map fst xs)" using o by (simp add: es sorted_append)
  from last_pong_after(1) [OF this] True show ?thesis by simp
next
  case False
  let ?p = "pingPeriod"
  have p: "0 < ?p" "pongWait = 2 * ?p" by (simp_all add: pingPeriod_def pongWait_def Second_def)
  define k where "k = nat ((t - start - ?p) div ?p)"
  have "?p \<le> t - start - ?p" using False p(2) by simp
  from zdiv_mono1 [OF this p(1)] have "1 \<le> (t - start - ?p) div ?p" using p(1) by simp
  then have k: "0 < k" "int k = (t - start - ?p) div ?p" by (simp_all add: k_def)
  let ?x = "t - start - ?p"
  have "?x div ?p * ?p + ?x mod ?p = ?x" "0 \<le> ?x mod ?p" "?x mod ?p < ?p"
    by (rule div_mult_mod_eq) (use p(1) in simp_all)
  then have "int k * ?p \<le> ?x" "?x < int k * ?p + ?p" unfolding k(2) by linarith+
  then have b: "start + int k * ?p + ?p \<le> t" "t < start + int k * ?p + 2 * ?p" by simp_all
  have "t \<le> last (start # map fst es)" using o by (auto simp: es sorted_append last_map)
  then obtain t' where t': "(t', Pong) \<in> set es" "start + int k * ?p \<le> t'" "t' < start + int k * ?p + ?p"
    using a k(1) b(1) unfolding answers_pings_def by (meson order_trans)
  have "t' < t" using t'(3) b(1) by simp
  then have "(t', Pong) \<in> set xs" using t'(1) o by (fastforce simp: es sorted_append)
  moreover have "sorted (start # map fst xs)" using o by (simp add: es sorted_append)
  ultimately have "t' \<le> last_pong start xs" using last_pong_after(2) by blast
  with b(2) t'(2) p(2) show ?thesis by simp
qed

text \<open>
  C39. A client that answers every ping before the next one is due is not disconnected by the
  deadlines: if the events of its socket come in order, none of them an error, and after each
  ping, sent every \<open>pingPeriod\<close> from the start, a pong comes within \<open>pingPeriod\<close>, then the reader
  goes on. And a client that sends no pong is unregistered \<open>pongWait\<close> after its start at the
  latest, whatever else it sends.
\<close>

theorem reader_deadlines:
  assumes "sorted (start # map fst es)"
  shows "((\<forall>(t, e)\<in>set es. e \<noteq> ReadError) \<and> answers_pings start es \<longrightarrow> readPump start es = None) \<and>
    ((\<forall>(t, e)\<in>set es. e \<noteq> Pong) \<and> start + pongWait < last (start # map fst es) \<longrightarrow>
       (\<exists>t. readPump start es = Some t \<and> t \<le> start + pongWait))"
proof (intro conjI impI; elim conjE)
  assume "\<forall>(t, e)\<in>set es. e \<noteq> ReadError" "answers_pings start es"
  with answered_in_time [OF assms] show "readPump start es = None"
    unfolding readPump_def by (intro read_loop_None) fastforce
next
  assume "\<forall>(t, e)\<in>set es. e \<noteq> Pong" "start + pongWait < last (start # map fst es)"
  then show "\<exists>t. readPump start es = Some t \<and> t \<le> start + pongWait"
    using silent_client [of es start "start + pongWait"]
    by (simp add: readPump_def pongWait_def Second_def)
qed

section \<open>The subscriber\<close>

text \<open>
  The events that other processes publish, as \<open>json.Unmarshal\<close> gives them: those it cannot read
  are skipped. The loop ends with its context.
\<close>

datatype subscriber_signal = SubscriberDone | PubSubMessage "string + StatusEvent"

fun subscriber_loop :: "subscriber_signal list \<Rightarrow> hub \<Rightarrow> bool \<times> hub" where
  "subscriber_loop [] h = (True, h)"
| "subscriber_loop (SubscriberDone # sigs) h = (False, h)"
| "subscriber_loop (PubSubMessage (Inl e) # sigs) h = subscriber_loop sigs h"
| "subscriber_loop (PubSubMessage (Inr evt) # sigs) h = subscriber_loop sigs (relay evt h)"

definition SubscribeRedis :: "subscriber_signal list \<Rightarrow> hub \<Rightarrow> bool \<times> hub" where
  "SubscribeRedis sigs h = (if \<not> has_redis h then (False, h) else subscriber_loop sigs h)"

text \<open>The subscriber's work is a run of the hub's actions, and it publishes nothing to Redis again.\<close>

lemma subscriber_run:
  "\<exists>evts. hub_run h (map Received evts) (Ret (snd (SubscribeRedis sigs h))) \<and>
     pubsub (snd (SubscribeRedis sigs h)) = pubsub h"
proof -
  have "\<exists>evts. hub_run h (map Received evts) (Ret (snd (subscriber_loop sigs h))) \<and>
      pubsub (snd (subscriber_loop sigs h)) = pubsub h"
  proof (induction sigs h rule: subscriber_loop.induct)
    case (4 evt sigs h)
    then obtain evts where e: "hub_run (relay evt h) (map Received evts) (Ret (snd (subscriber_loop sigs (relay evt h))))"
        "pubsub (snd (subscriber_loop sigs (relay evt h))) = pubsub (relay evt h)" by blast
    have "hub_run h (map Received (evt # evts)) (Ret (snd (subscriber_loop sigs (relay evt h))))"
      using e(1) by (auto intro!: run_act simp: possible_def act_def)
    moreover have "pubsub (relay evt h) = pubsub h" by (simp add: relay_def)
    ultimately show ?case using e(2) by (metis subscriber_loop.simps(4))
  qed (simp_all, (rule exI [of _ "[]"], simp add: run_end)+)
  moreover have "\<exists>evts. hub_run h (map Received evts) (Ret h) \<and> pubsub h = pubsub h"
    by (rule exI [of _ "[]"]) (simp add: run_end)
  ultimately show ?thesis by (simp add: SubscribeRedis_def)
qed

text \<open>The API's hub is a subscriber: no event it gets goes back to Redis, so none circulates.\<close>

lemma subscriber_never_publishes:
  "hub_run h as r \<Longrightarrow> subscriber h \<Longrightarrow> hub_ok h \<Longrightarrow> r = Ret h' \<Longrightarrow> pubsub h' = pubsub h"
proof (induction rule: hub_run.induct)
  case (run_act a h h1 as r)
  have ok: "hub_ok h1" using act_ok [OF run_act.prems(2) run_act.hyps(1)] run_act.hyps(2) by simp
  have "subscriber h1 \<and> pubsub h1 = pubsub h"
  proof (cases a)
    case (Broadcast order)
    with run_act.hyps(1) have "distinct order" "set order = clients h" by (simp_all add: possible_def)
    from broadcast_next_effect [OF run_act.prems(2) this] Broadcast run_act.hyps(2) run_act.prems(1)
    show ?thesis by (auto simp: act_def split: list.splits)
  qed (use run_act.hyps(2) run_act.prems(1) in \<open>auto simp: act_def register_def unregister_def
         chan_close_def Publish_def relay_def Let_def write_next_def
         split: if_splits option.splits list.splits\<close>)
  with run_act.IH ok run_act.prems(3) show ?case by simp
qed simp_all

theorem reader_deadlines_witness:
  "readPump 0 [(31 * Second, Pong), (62 * Second, Pong), (80 * Second, Message)] = None \<and>
   (\<exists>t. readPump 0 [(20 * Second, Message), (61 * Second, Message)] = Some t \<and> t \<le> pongWait)"
proof -
  let ?es = "[(31 * Second, Pong), (62 * Second, Pong), (80 * Second, Message)]"
  have "answers_pings 0 ?es"
    unfolding answers_pings_def
  proof (intro allI impI)
    fix k :: nat
    assume "0 < k" "0 + int k * pingPeriod + pingPeriod \<le> last (0 # map fst ?es)"
    then have "k = 1" by (simp add: pingPeriod_def Second_def)
    then show "\<exists>t. (t, Pong) \<in> set ?es \<and> 0 + int k * pingPeriod \<le> t \<and> t < 0 + int k * pingPeriod + pingPeriod"
      by (intro exI [of _ "31 * Second"]) (simp add: pingPeriod_def Second_def)
  qed
  with reader_deadlines [of 0 ?es] reader_deadlines [of 0 "[(20 * Second, Message), (61 * Second, Message)]"]
  show ?thesis by (auto simp: Second_def pongWait_def)
qed

end
