(* ===== verification/Events.thy ===== *)
theory Events
  imports Sockets "HOL-Library.Sublist"
begin

text \<open>
  Status events across the processes: the worker's hub publishes to Redis, the API's hub takes
  what Redis delivers and hands it to its clients.
\<close>

section \<open>The events of a run\<close>

fun published :: "hub_action list \<Rightarrow> StatusEvent list" where
  "published [] = []"
| "published (a # as) = (case a of Published e \<Rightarrow> [e] | _ \<Rightarrow> []) @ published as"

fun received :: "hub_action list \<Rightarrow> StatusEvent list" where
  "received [] = []"
| "received (a # as) = (case a of Received e \<Rightarrow> [e] | _ \<Rightarrow> []) @ received as"

text \<open>Those that find room in the broadcast channel, and a run in which all do.\<close>

fun admitted :: "hub \<Rightarrow> hub_action list \<Rightarrow> StatusEvent list" where
  "admitted h [] = []"
| "admitted h (a # as) =
     (if length (broadcast h) < broadcast_capacity then published [a] @ received [a] else []) @
     (case act a h of Panic \<Rightarrow> [] | Ret h' \<Rightarrow> admitted h' as)"

fun roomy :: "hub \<Rightarrow> hub_action list \<Rightarrow> bool" where
  "roomy h [] = True"
| "roomy h (a # as) =
     ((published [a] @ received [a] = [] \<or> length (broadcast h) < broadcast_capacity) \<and>
      (case act a h of Panic \<Rightarrow> True | Ret h' \<Rightarrow> roomy h' as))"

text \<open>The broadcast channel loses nothing that it admitted.\<close>

lemma act_broadcast:
  assumes ok: "hub_ok h" and p: "possible a h" and a: "act a h = Ret h'"
  shows "broadcast h @ admitted h [a] = taken_up h [a] @ broadcast h'"
proof (cases a)
  case (Broadcast order)
  with p have "distinct order" "set order = clients h" by (simp_all add: possible_def)
  from broadcast_next_effect [OF ok this] Broadcast a show ?thesis
    by (auto simp: act_def split: list.splits)
qed (use a in \<open>auto simp: act_def register_def unregister_def chan_close_def Publish_def relay_def Let_def
       write_next_def split: if_splits option.splits list.splits\<close>)

lemma admitted_Cons: "act a h = Ret h' \<Longrightarrow> admitted h (a # as) = admitted h [a] @ admitted h' as"
  by simp

lemma run_broadcast:
  "hub_run h as r \<Longrightarrow> hub_ok h \<Longrightarrow> r = Ret h' \<Longrightarrow> broadcast h @ admitted h as = taken_up h as @ broadcast h'"
proof (induction rule: hub_run.induct)
  case (run_act a h h1 as r)
  have ok: "hub_ok h1" using act_ok [OF run_act.prems(1) run_act.hyps(1)] run_act.hyps(2) by simp
  have "broadcast h @ admitted h (a # as) = (broadcast h @ admitted h [a]) @ admitted h1 as"
    unfolding admitted_Cons [OF run_act.hyps(2), of as] append_assoc ..
  also have "\<dots> = taken_up h [a] @ taken_up h1 as @ broadcast h'"
    unfolding act_broadcast [OF run_act.prems(1) run_act.hyps(1,2)] append_assoc
      run_act.IH [OF ok run_act.prems(2)] ..
  finally show ?case unfolding taken_up_Cons [OF run_act.hyps(2), of as] append_assoc .
qed simp_all

lemma admitted_subseq: "published as = [] \<Longrightarrow> subseq (admitted h as) (received as)"
proof (induction as arbitrary: h)
  case (Cons a as)
  then have "subseq (case act a h of Panic \<Rightarrow> [] | Ret h' \<Rightarrow> admitted h' as) (received as)"
    by (auto split: go.split)
  with Cons.prems show ?case
    by (cases a) (auto split: go.splits)
qed simp

lemma roomy_admitted:
  "hub_run h as r \<Longrightarrow> r = Ret h' \<Longrightarrow> roomy h as \<Longrightarrow> published as = [] \<Longrightarrow> admitted h as = received as"
  by (induction rule: hub_run.induct) auto

text \<open>The worker's hub publishes all of its events, in their order.\<close>

lemma publisher_run:
  "hub_run h as r \<Longrightarrow> has_redis h \<Longrightarrow> \<not> subscriber h \<Longrightarrow> hub_ok h \<Longrightarrow> r = Ret h' \<Longrightarrow>
     pubsub h' = pubsub h @ published as"
proof (induction rule: hub_run.induct)
  case (run_act a h h1 as r)
  have ok: "hub_ok h1" using act_ok [OF run_act.prems(3) run_act.hyps(1)] run_act.hyps(2) by simp
  have "has_redis h1 \<and> \<not> subscriber h1 \<and> pubsub h1 = pubsub h @ published [a]"
  proof (cases a)
    case (Broadcast order)
    with run_act.hyps(1) have "distinct order" "set order = clients h" by (simp_all add: possible_def)
    from broadcast_next_effect [OF run_act.prems(3) this] Broadcast run_act.hyps(2) run_act.prems(1,2)
    show ?thesis by (auto simp: act_def split: list.splits)
  qed (use run_act.hyps(2) run_act.prems(1,2) in \<open>auto simp: act_def register_def unregister_def
         chan_close_def Publish_def relay_def Let_def write_next_def
         split: if_splits option.splits list.splits\<close>)
  with run_act.IH ok run_act.prems(4) show ?case by simp
qed simp_all

section \<open>From the worker to a client\<close>



end
