(* ===== verification/Response_Writer.thy ===== *)
theory Response_Writer
  imports Go_Runtime
begin

text \<open>
  The \<open>responseWriter\<close> of \<open>internal/adapter/handler/middleware/logging.go\<close>, which the middlewares
  \<open>Logging\<close> and \<open>Tracing\<close> put around the writer of the HTTP server to see a response's status and
  size.
\<close>

section \<open>The writers\<close>

text \<open>
  The server's writer sends the first status it is given, or 200 with the first byte of a body,
  and ignores the others. How many bytes of a write it takes is the connection's.
\<close>

record server_writer =
  sent_status :: "int option"
  sent_body :: string
  hijackable :: bool

datatype response_writer = Server server_writer | Wrapped int int response_writer

definition new_responseWriter :: "response_writer \<Rightarrow> response_writer" where
  "new_responseWriter w = Wrapped 200 0 w"

fun WriteHeader :: "int \<Rightarrow> response_writer \<Rightarrow> response_writer" where
  "WriteHeader code (Server s) = Server (if sent_status s = None then s\<lparr>sent_status := Some code\<rparr> else s)"
| "WriteHeader code (Wrapped st b w) = Wrapped code b (WriteHeader code w)"

fun Write :: "nat \<Rightarrow> string \<Rightarrow> response_writer \<Rightarrow> int \<times> response_writer" where
  "Write k bs (Server s) =
     (let part = take k bs
      in (int (length part),
          Server (s\<lparr>sent_status := Some (case sent_status s of None \<Rightarrow> 200 | Some c \<Rightarrow> c),
                   sent_body := sent_body s @ part\<rparr>)))"
| "Write k bs (Wrapped st b w) = (let (n, w) = Write k bs w in (n, Wrapped st (wrap64 (b + n)) w))"

text \<open>Whether the type assertion to \<open>http.Hijacker\<close> succeeds, and the call behind it.\<close>

fun is_Hijacker :: "response_writer \<Rightarrow> bool" where
  "is_Hijacker (Server s) = hijackable s"
| "is_Hijacker (Wrapped _ _ _) = True"

fun Hijack :: "response_writer \<Rightarrow> string + server_writer" where
  "Hijack (Server s) = Inr s"
| "Hijack (Wrapped st b w) =
     (if \<not> is_Hijacker w then Inl ''upstream ResponseWriter does not support hijacking'' else Hijack w)"

section \<open>A handler's calls\<close>

datatype writer_call = CallWriteHeader int | CallWrite nat string

definition call :: "writer_call \<Rightarrow> response_writer \<Rightarrow> response_writer" where
  "call c w = (case c of CallWriteHeader code \<Rightarrow> WriteHeader code w | CallWrite k bs \<Rightarrow> snd (Write k bs w))"

fun server :: "response_writer \<Rightarrow> server_writer" where
  "server (Server s) = s"
| "server (Wrapped _ _ w) = server w"

fun layers :: "response_writer \<Rightarrow> (int \<times> int) list" where
  "layers (Server s) = []"
| "layers (Wrapped st b w) = (st, b) # layers w"

lemma server_call: "server (call c w) = server (call c (Server (server w)))"
  by (induction w) (auto simp: call_def split_beta Let_def split: writer_call.splits)

lemma fst_Write: "fst (Write k bs w) = int (min k (length bs))"
  by (induction w) (auto simp: split_beta Let_def)

lemma layers_call:
  "layers (call c w) = map (\<lambda>(st, b). case c of CallWriteHeader code \<Rightarrow> (code, b)
     | CallWrite k bs \<Rightarrow> (st, wrap64 (b + int (min k (length bs))))) (layers w)"
  by (induction w) (auto simp: call_def split_beta Let_def fst_Write split: writer_call.splits)

lemma server_calls: "server (fold call cs w) = server (fold call cs (Server (server w)))"
proof (induction cs arbitrary: w)
  case (Cons c cs)
  show ?case
    using Cons [of "call c w"] Cons [of "call c (Server (server w))"] server_call [of c w] by simp
qed simp

text \<open>What a handler writes: its body, and the status of its last \<open>WriteHeader\<close>.\<close>

definition body_size :: "writer_call list \<Rightarrow> int" where
  "body_size cs = sum_list (map (\<lambda>c. case c of CallWriteHeader _ \<Rightarrow> 0 | CallWrite k bs \<Rightarrow> int (min k (length bs))) cs)"

definition last_status :: "int \<Rightarrow> writer_call list \<Rightarrow> int" where
  "last_status st cs = fold (\<lambda>c st. case c of CallWriteHeader code \<Rightarrow> code | CallWrite _ _ \<Rightarrow> st) cs st"

lemma body_size_nonneg: "0 \<le> body_size cs"
  unfolding body_size_def by (rule sum_list_nonneg) (auto split: writer_call.splits)

lemma layers_calls:
  "\<forall>(st, b)\<in>set (layers w). 0 \<le> b \<and> b + body_size cs < 2 ^ 63 \<Longrightarrow>
     layers (fold call cs w) = map (\<lambda>(st, b). (last_status st cs, b + body_size cs)) (layers w)"
proof (induction cs arbitrary: w)
  case Nil
  then show ?case by (simp add: last_status_def body_size_def split_beta)
next
  case (Cons c cs)
  let ?n = "case c of CallWriteHeader _ \<Rightarrow> 0 | CallWrite k bs \<Rightarrow> int (min k (length bs))"
  have n: "0 \<le> ?n" "body_size (c # cs) = ?n + body_size cs"
    by (auto simp: body_size_def split: writer_call.splits)
  have one: "layers (call c w) = map (\<lambda>(st, b). (last_status st [c], b + ?n)) (layers w)"
    unfolding layers_call
  proof (rule map_cong [OF refl], clarify)
    fix st b assume "(st, b) \<in> set (layers w)"
    with Cons.prems n body_size_nonneg [of cs] have "0 \<le> b" "b + ?n < 2 ^ 63" by fastforce+
    with n(1) have "wrap64 (b + ?n) = b + ?n" by (intro wrap64_id) (auto simp: int64_range_def)
    then show "(case c of CallWriteHeader code \<Rightarrow> (code, b)
        | CallWrite k bs \<Rightarrow> (st, wrap64 (b + int (min k (length bs))))) = (last_status st [c], b + ?n)"
      by (cases c) (simp_all add: last_status_def)
  qed
  have "\<forall>(st, b)\<in>set (layers (call c w)). 0 \<le> b \<and> b + body_size cs < 2 ^ 63"
    unfolding one using Cons.prems n by fastforce
  from Cons.IH [OF this] show ?case
    by (simp add: one n(2) last_status_def split_beta add.assoc)
qed

text \<open>The wrappers that the API's chain puts around the server's writer.\<close>

definition wrapped :: "nat \<Rightarrow> server_writer \<Rightarrow> response_writer" where
  "wrapped k s = (new_responseWriter ^^ k) (Server s)"

lemma wrapped_Suc [simp]: "wrapped 0 s = Server s" "wrapped (Suc k) s = Wrapped 200 0 (wrapped k s)"
  by (simp_all add: wrapped_def new_responseWriter_def)

lemma wrapped_parts [simp]: "server (wrapped k s) = s" "layers (wrapped k s) = replicate k (200, 0)"
  by (induction k) simp_all

lemma Hijack_wrapped:
  "Hijack (wrapped (Suc k) s) =
     (if hijackable s then Inr s else Inl ''upstream ResponseWriter does not support hijacking'')"
proof (induction k)
  case (Suc k)
  then show ?case by (simp add: wrapped_Suc(2) [of "Suc k"] del: wrapped_Suc) simp
qed simp

text \<open>The status on the wire, of a handler that sets it once and before the body, or not at all.\<close>

fun status_first :: "writer_call list \<Rightarrow> bool" where
  "status_first [] = True"
| "status_first (CallWriteHeader _ # cs) = list_all (\<lambda>c. \<exists>k bs. c = CallWrite k bs) cs"
| "status_first (CallWrite _ _ # cs) = list_all (\<lambda>c. \<exists>k bs. c = CallWrite k bs) cs"

lemma writes_only:
  assumes "list_all (\<lambda>c. \<exists>k bs. c = CallWrite k bs) cs"
  shows "last_status st cs = st"
    and "sent_status s = Some c \<Longrightarrow> sent_status (server (fold call cs (Server s))) = Some c"
  using assms by (induction cs arbitrary: s) (auto simp: last_status_def call_def Let_def)

text \<open>
  C37. However many of these writers stand between a handler and the server, the server gets exactly
  the calls that the handler makes. Each of them has counted the bytes that were taken and has the
  status of the last call of \<open>WriteHeader\<close>; if the handler sets the status once, before the body,
  or leaves it alone, that is the status on the wire. A WebSocket can be opened through them if and
  only if the server's own writer allows it.
\<close>

theorem response_writer_records:
  assumes "body_size cs < 2 ^ 63"
  shows "server (fold call cs (wrapped k s)) = server (fold call cs (Server s)) \<and>
    layers (fold call cs (wrapped k s)) = replicate k (last_status 200 cs, body_size cs) \<and>
    (sent_status s = None \<and> status_first cs \<and> cs \<noteq> [] \<longrightarrow>
       sent_status (server (fold call cs (wrapped k s))) = Some (last_status 200 cs)) \<and>
    (0 < k \<longrightarrow> Hijack (wrapped k s) =
       (if hijackable s then Inr s else Inl ''upstream ResponseWriter does not support hijacking''))"
proof (intro conjI impI; (elim conjE)?)
  show srv: "server (fold call cs (wrapped k s)) = server (fold call cs (Server s))"
    using server_calls [of cs "wrapped k s"] by simp
  show "layers (fold call cs (wrapped k s)) = replicate k (last_status 200 cs, body_size cs)"
    using layers_calls [of "wrapped k s" cs] assms by simp
  show "sent_status (server (fold call cs (wrapped k s))) = Some (last_status 200 cs)"
    if none: "sent_status s = None" and first: "status_first cs" and ne: "cs \<noteq> []"
  proof -
    obtain c cs' where c: "cs = c # cs'" using ne by (cases cs) auto
    with first have cs': "list_all (\<lambda>c. \<exists>k bs. c = CallWrite k bs) cs'" by (cases c) simp_all
    show ?thesis
      unfolding srv unfolding c using none writes_only [OF cs']
      by (cases c) (simp_all add: call_def last_status_def Let_def)
  qed
  show "Hijack (wrapped k s) =
      (if hijackable s then Inr s else Inl ''upstream ResponseWriter does not support hijacking'')" if "0 < k"
    using that Hijack_wrapped [of "k - 1" s] by (cases k) simp_all
qed

text \<open>A second \<open>WriteHeader\<close> would be recorded, but not sent.\<close>

lemma second_status_recorded:
  "layers (fold call [CallWriteHeader 200, CallWriteHeader 500] (wrapped 1 s)) = [(500, 0)]"
  "sent_status s = None \<Longrightarrow>
     sent_status (server (fold call [CallWriteHeader 200, CallWriteHeader 500] (wrapped 1 s))) = Some 200"
  by (simp_all add: call_def)

theorem response_writer_records_witness:
  "layers (fold call [CallWriteHeader 202, CallWrite 9 ''accepted''] (wrapped 2
     \<lparr>sent_status = None, sent_body = [], hijackable = True\<rparr>)) = [(202, 8), (202, 8)]"
  using response_writer_records [of "[CallWriteHeader 202, CallWrite 9 ''accepted'']" 2
      "\<lparr>sent_status = None, sent_body = [], hijackable = True\<rparr>"]
  by (simp add: body_size_def last_status_def numeral_2_eq_2)

end
