(* ===== verification/Spec2Isabelle.thy ===== *)
theory Spec2Isabelle
  imports Lifecycle Stranded Retries Open_Api Events Response_Writer
begin

text \<open>
  A verification development for the event-driven notification service.

  The service is two programs over one PostgreSQL database and one Redis. \<open>cmd/api\<close> takes
  requests over HTTP: it stores notifications, puts the immediate ones into a queue of their
  channel, cancels them, keeps templates, and hands status events to WebSocket clients.
  \<open>cmd/worker\<close> runs several workers for each channel, each of which takes a message, sends the
  notification it names through a circuit breaker and a rate limiter to the provider and records
  what came of it; a scheduler, which queues notifications whose time has come; and a poller,
  which queues failed ones again. The programs share the rows, the queues and nothing else.


  \<^bold>\<open>Theories and sources\<close>

  \<^item> \<open>Prelude\<close>, \<open>Go_Runtime\<close>: the shared lemmas, the collections \<open>keeps\<close> and \<open>effects\<close>, state
    machines and transition systems as locales; Go's integers of 64 bits, times, panics, and
    calls to a service that can fail.
  \<^item> \<open>Domain\<close>: \<open>internal/domain\<close>, the data types of \<open>internal/port\<close> and the port of events as the
    locale \<open>event_publisher\<close>, which the world and the worker's hub provide.
  \<^item> \<open>Circuit_Breaker\<close>: \<open>pkg/circuitbreaker\<close>. A breaker is a record, a call of a method one step
    with the time it reads; refined to three phases.
  \<^item> \<open>Redis_Store\<close>: the Redis data and commands the code uses, sorted sets behind the locale
    \<open>sorted_set\<close>. \<open>Rate_Limiter\<close>: \<open>pkg/ratelimit\<close> with its Lua script. \<open>Message_Codec\<close> and
    \<open>Job_Queue\<close>: \<open>internal/adapter/queue\<close>, the contract of the queue being the locale
    \<open>message_queue\<close>. \<open>Cache\<close>: \<open>internal/adapter/cache\<close> behind the locale \<open>cache_port\<close>.
  \<^item> \<open>Database\<close>: the tables, column types and constraints of the migrations, with the locale
    \<open>sql_table\<close>. \<open>Notification_Repo\<close>, \<open>Audit_Repos\<close>, \<open>Template_Repo\<close>:
    \<open>internal/adapter/repository/postgres\<close>, one function for each method.
  \<^item> \<open>Float64\<close>, \<open>Backoff\<close>, \<open>Metrics\<close>, \<open>Delivery\<close>, \<open>Delivery_Outcomes\<close>:
    \<open>internal/service/delivery.go\<close> and the collector of \<open>internal/adapter/handler/metrics.go\<close>;
    \<open>Process\<close> is one function over the whole world, and each of its outcomes a theorem.
  \<^item> \<open>Scheduler\<close>: the polls of \<open>internal/service/scheduler.go\<close>. \<open>Template_Service\<close>,
    \<open>Template_Outcomes\<close>: \<open>internal/service/template.go\<close>. \<open>Notification_Service\<close>,
    \<open>Notification_Outcomes\<close>: \<open>internal/service/notification.go\<close>.
  \<^item> \<open>Worker\<close>: the loop of \<open>cmd/worker/main.go\<close>. \<open>Webhook\<close>: \<open>internal/adapter/provider\<close>,
    with what \<open>Process\<close> expects of it as the locale \<open>delivery_provider\<close>.
    \<open>Config\<close>: \<open>internal/config\<close>. \<open>Programs\<close>: the loops of the polls, the services with their
    constructors and how the worker puts them together. \<open>Lifecycle\<close>: both functions \<open>main\<close>, what
    they start, in which order they end, and \<open>initTracer\<close>.
  \<^item> \<open>Hub\<close>, \<open>Sockets\<close>, \<open>Events\<close>: \<open>internal/adapter/event\<close>: the hub, the reader, writer and
    subscriber around it, and the way of an event from the worker to a client of the API.
  \<^item> \<open>Http_Api\<close>: \<open>internal/adapter/handler\<close> with its middleware; \<open>Response_Writer\<close>: the writer
    that records status and size, by which \<open>Logging\<close> and \<open>Tracing\<close> of \<open>Http_Api\<close> know the status of
    the answer. \<open>Open_Api\<close>: the description \<open>api/openapi.yaml\<close> against the routes,
    the requests and the answers.
  \<^item> \<open>System\<close>: the actions of both programs as one step relation over \<open>world\<close> (database, Redis,
    breakers, the events published and the requests sent). \<open>Interleaving\<close> breaks a worker's round
    into its calls, so that anything can come between two of them. \<open>End_To_End\<close> and \<open>Retries\<close>
    follow one notification through both programs and all of its attempts, \<open>Stranded\<close> those that
    are left behind.


  \<^bold>\<open>How the code is modelled\<close>

  A function of the source is a function on the state it works on. Structs are records, enums and
  stages datatypes, errors and early returns values of a sum or an option. What a call to
  PostgreSQL or Redis does is a function as well, and its failure an argument: a \<open>fault\<close> carries
  the error the client sees and the number of commands that took effect before it, so a lost
  answer, a lost command and a pipeline that is cut are all covered. Clocks, random numbers and
  new UUIDs are arguments too, collected in one record for each operation (\<open>Create_Env\<close>,
  \<open>Process_Env\<close>, \<open>Poll_Env\<close>, ...). Every theorem without a hypothesis on these fields holds
  whatever they are.

  Parameters stand for code that is not part of the repository: \<open>uuid_lib\<close> (the UUID library; the
  hypothesis \<open>uuid_lib_ok\<close> is that parsing a printed UUID gives it back), \<open>template_engine\<close>
  (\<open>text/template\<close>), \<open>viper\<close>, the HTTP exchange with the provider, the upgrade to a
  WebSocket, and \<open>encoding/json\<close> on request bodies.

  \<^bold>\<open>Atomicity.\<close> A statement or a script is atomic, as PostgreSQL and Redis promise. In \<open>step\<close> a
  request, a poll and a worker's round are one action; in \<open>istep\<close> a worker's round is ten kinds of
  call, each with at most one access to the rows and one to the queue. The breakers are atomic
  under their mutex; rows that a concurrent poll has locked are an argument of the polls.

  \<^bold>\<open>Bounds.\<close> Integers of the code are \<open>int\<close> with \<open>wrap64\<close> at every operation that could leave the
  64 bits; column widths and ranges are part of the statements, and \<open>float64\<close> rounds to 53 bits.
  \<open>calls_are_Process\<close> runs seven calls, the longest way through \<open>Process\<close>. A score orders
  messages exactly for the times of \<open>score_time\<close>, to the year 2286.


  \<^bold>\<open>What is shown\<close>

  \<^item> The system: the invariants of database, queues, templates and breakers in every reachable
    state; no worker panics; rows stay and keep their identity; settled rows never change; messages
    name existing rows; the interleaved round refines \<open>Process\<close>; a created notification is
    delivered after as many failures as are allowed, a scheduled one after its time, and given up
    after as many attempts as are configured; a row that nothing names stays as it is, but for a
    cancellation; a stopped worker leaves such a row.
  \<^item> Services: every branch of \<open>Create\<close>, \<open>Process\<close> and the polls, idempotency, the batch against
    a declarative account, rendering and preview, and the error paths that lose or strand
    notifications.
  \<^item> Components: the breaker against its phases, bounds and recovery; exactness of the limiter
    against the log of accepted requests; order, completeness and conservation of the queue; the
    codec's round trip; cancellation, claims and pages of the repository; bounds and overflow of
    the backoff; the hub's freedom from panics, its fidelity to clients and their
    deadlines; the API's answers, and their agreement with its description; the counters of the
    metrics; the order in which the programs start and end.


  \<^bold>\<open>Not modelled\<close>

  The matching of URLs (chi), the answers to CORS preflights and the HTTP server, whose work is
  the libraries'; what the tracing library does with a provider and its spans; a command that the
  Redis client repeats by itself after it lost the answer, but for the lemmas of
  \<open>Job_Queue\<close> on what that does to the queue; the JSON text of answers and the Go
  structures that only hold a connection or a logger; durations, stack traces and the rest of the
  log. The methods of the interfaces of \<open>internal/port\<close> are the operations of the
  adapters. A template is what the parameter \<open>template_engine\<close> makes of it.
\<close>

end
